(* ===== verification/Prelude.thy ===== *)
theory Prelude
  imports Main "HOL-Library.Word"
begin

text \<open>
  Shared vocabulary of the development: Go's fixed-width signed integers, Go's error
  values, results of fallible operations, and the generic facts on lists, maps and
  results that the component theories rely on.

  \<^item> \<^emph>\<open>int64\<close>. A Go \<open>int64\<close> (and \<open>int\<close>, which is 64 bits wide on the deployed
    platforms) is an \<open>int\<close> between \<open>min_int64\<close> and \<open>max_int64\<close>; every arithmetic
    operation of the source that may leave the range is wrapped with \<open>wrap64\<close>, which
    \<open>wrap64_word\<close> shows to be two's complement arithmetic on 64-bit words.
  \<^item> \<^emph>\<open>Errors\<close>. \<open>fmt.Errorf\<close> and \<open>errors.New\<close> build a \<open>goerror\<close>; \<open>%w\<close>
    wrapping is kept, so that \<open>errors.Is\<close> is the walk along the chain.
  \<^item> \<^emph>\<open>Results\<close>. A pair \<open>(value, error)\<close> of which exactly one is meaningful is a sum,
    \<open>Inl\<close> for the error.
\<close>

section \<open>Collections of simplification rules\<close>

named_theorems wrap_simps
  \<open>identities of wrap-around arithmetic inside the int64 range\<close>

named_theorems step_defs
  \<open>definitions of the state-changing operations, unfolded in preservation proofs\<close>

named_theorems frame_simps
  \<open>fields an operation leaves alone\<close>

section \<open>int64\<close>

type_synonym int64 = int
type_synonym byte = "8 word"
type_synonym bytes = "byte list"

abbreviation min_int64 :: int64 where
  "min_int64 \<equiv> - 9223372036854775808"

abbreviation max_int64 :: int64 where
  "max_int64 \<equiv> 9223372036854775807"

definition in_int64 :: "int \<Rightarrow> bool" where
  "in_int64 x \<longleftrightarrow> min_int64 \<le> x \<and> x \<le> max_int64"

definition wrap64 :: "int \<Rightarrow> int64" where
  "wrap64 x = (x + 9223372036854775808) mod 18446744073709551616 - 9223372036854775808"

definition wrap32 :: "int \<Rightarrow> int" where
  "wrap32 x = (x + 2147483648) mod 4294967296 - 2147483648"

lemma wrap64_range [simp, intro]: "in_int64 (wrap64 x)"
  by (simp add: in_int64_def wrap64_def)

lemma wrap64_id [wrap_simps]: "in_int64 x \<Longrightarrow> wrap64 x = x"
  by (simp add: in_int64_def wrap64_def)

lemma wrap64_idem [simp]: "wrap64 (wrap64 x) = wrap64 x"
  by (rule wrap64_id) simp

lemma wrap64_succ [wrap_simps]: "0 \<le> x \<Longrightarrow> x < max_int64 \<Longrightarrow> wrap64 (x + 1) = x + 1"
  by (rule wrap64_id) (simp add: in_int64_def)

lemma wrap64_diff_nonneg [wrap_simps]:
  "0 \<le> x \<Longrightarrow> 0 \<le> y \<Longrightarrow> in_int64 x \<Longrightarrow> in_int64 y \<Longrightarrow> wrap64 (x - y) = x - y"
  by (rule wrap64_id) (simp add: in_int64_def)

lemma wrap64_max_succ: "wrap64 (max_int64 + 1) = min_int64"
  by (simp add: wrap64_def)

lemma wrap64_succ_cases:
  "in_int64 x \<Longrightarrow> wrap64 (x + 1) = (if x = max_int64 then min_int64 else x + 1)"
  by (auto simp: in_int64_def wrap64_def)

text \<open>The wrap-around written on \<open>int\<close> is the arithmetic of 64-bit words.\<close>

lemma wrap64_word: "wrap64 x = sint (word_of_int x :: 64 word)"
  by (simp add: wrap64_def sint_uint uint_word_of_int take_bit_eq_mod
      signed_take_bit_eq_take_bit_shift) (simp add: mod_simps add.commute)

lemma wrap32_range: "- 2147483648 \<le> wrap32 x \<and> wrap32 x \<le> 2147483647"
  by (simp add: wrap32_def)

lemma wrap32_id [wrap_simps]:
  "- 2147483648 \<le> x \<Longrightarrow> x \<le> 2147483647 \<Longrightarrow> wrap32 x = x"
  by (simp add: wrap32_def)

text \<open>A 64-bit count that has not wrapped is zero only when nothing was counted.\<close>

lemma of_nat_zero_64: "n < 2 ^ 64 \<Longrightarrow> (of_nat n :: 64 word) = 0 \<Longrightarrow> n = 0"
proof -
  assume "n < 2 ^ 64"
  then have "unat (of_nat n :: 64 word) = n" by (simp add: unsigned_of_nat take_bit_nat_eq_self)
  then show "(of_nat n :: 64 word) = 0 \<Longrightarrow> n = 0" by simp
qed

section \<open>Errors and results\<close>

datatype goerror =
    Sentinel string                              \<comment> \<open>a package-level \<open>errors.New\<close> value\<close>
  | Errorf string "string list" "goerror option" \<comment> \<open>format, arguments, the \<open>%w\<close> error\<close>

type_synonym 'a result = "goerror + 'a"

text \<open>\<open>errors.Is\<close>: the error itself or one it wraps.\<close>

fun errors_is :: "goerror \<Rightarrow> goerror \<Rightarrow> bool" where
  "errors_is (Sentinel s) t \<longleftrightarrow> t = Sentinel s"
| "errors_is (Errorf f as None) t \<longleftrightarrow> t = Errorf f as None"
| "errors_is (Errorf f as (Some e)) t \<longleftrightarrow> t = Errorf f as (Some e) \<or> errors_is e t"

definition is_ok :: "'a result \<Rightarrow> bool" where
  "is_ok r \<longleftrightarrow> (case r of Inl _ \<Rightarrow> False | Inr _ \<Rightarrow> True)"

lemma is_ok_simps [simp]: "\<not> is_ok (Inl e)" "is_ok (Inr v)"
  by (simp_all add: is_ok_def)

lemma is_ok_iff: "is_ok r \<longleftrightarrow> (\<exists>v. r = Inr v)"
  by (cases r) auto

section \<open>Loops that may fail\<close>

text \<open>
  A \<open>for ... range\<close> loop whose body appends one element and may return an error:
  the first error wins and nothing is returned.
\<close>

fun traverse :: "('a \<Rightarrow> 'b result) \<Rightarrow> 'a list \<Rightarrow> 'b list result" where
  "traverse f [] = Inr []"
| "traverse f (x # xs) =
     (case f x of Inl e \<Rightarrow> Inl e
      | Inr y \<Rightarrow> (case traverse f xs of Inl e \<Rightarrow> Inl e | Inr ys \<Rightarrow> Inr (y # ys)))"

lemma traverse_length: "traverse f xs = Inr ys \<Longrightarrow> length ys = length xs"
  by (induction xs arbitrary: ys) (auto split: sum.splits)

lemma traverse_map: "(\<And>x. x \<in> set xs \<Longrightarrow> f x = Inr (g x)) \<Longrightarrow> traverse f xs = Inr (map g xs)"
  by (induction xs) auto

lemma traverse_Inr_iff:
  "traverse f xs = Inr ys \<longleftrightarrow> list_all2 (\<lambda>x y. f x = Inr y) xs ys"
proof (induction xs arbitrary: ys)
  case (Cons x xs)
  show ?case
  proof (cases "f x")
    case (Inr y)
    then show ?thesis
      by (cases "traverse f xs") (auto simp: list_all2_Cons1 Cons.IH [symmetric])
  qed (simp add: list_all2_Cons1)
qed auto

lemma traverse_Inl:
  "traverse f xs = Inl e \<Longrightarrow> \<exists>x \<in> set xs. f x = Inl e"
  by (induction xs) (auto split: sum.splits)

section \<open>Lists and maps\<close>

lemma drop_excess_length:
  "length (drop (length xs - n) xs) = min n (length xs)"
  by (simp add: min_def)

lemma takeWhile_dropWhile_length: "length (dropWhile P xs) \<le> length xs"
  by (induction xs) auto

text \<open>Deleting from a Go map while ranging over it, under a predicate on the key.\<close>

definition map_delete_if :: "('k \<Rightarrow> bool) \<Rightarrow> ('k \<rightharpoonup> 'v) \<Rightarrow> ('k \<rightharpoonup> 'v)" where
  "map_delete_if P m = (\<lambda>k. if P k then None else m k)"

lemma map_delete_if_simps [simp]:
  "P k \<Longrightarrow> map_delete_if P m k = None"
  "\<not> P k \<Longrightarrow> map_delete_if P m k = m k"
  by (simp_all add: map_delete_if_def)

lemma dom_map_delete_if: "dom (map_delete_if P m) = {k \<in> dom m. \<not> P k}"
  by (auto simp: map_delete_if_def dom_def)

lemma ran_map_delete_if: "ran (map_delete_if P m) \<subseteq> ran m"
  by (auto simp: map_delete_if_def ran_def split: if_splits)

end
