(* ===== verification/GoStrings.thy ===== *)
theory GoStrings
  imports Prelude
begin

text \<open>
  The parts of Go's \<open>strings\<close>, \<open>strconv\<close> and \<open>math/big\<close> packages that the
  ingestion tier uses. A Go string is a sequence of bytes, and so is a HOL
  \<open>string\<close>: a \<open>char\<close> is eight bits. Case mapping and white space follow the
  ASCII tables; bytes from 128 on are left alone, which is what Go does on the
  ASCII tickers, hex strings and venue names these functions are called with
  (the Unicode tables are not modelled, and \<open>is_ascii\<close> says where that matters).
\<close>

section \<open>Characters\<close>

definition code :: "char \<Rightarrow> int" where
  "code c = of_char c"

definition is_ascii :: "string \<Rightarrow> bool" where
  "is_ascii s \<longleftrightarrow> list_all (\<lambda>c. code c < 128) s"

definition is_lower :: "char \<Rightarrow> bool" where
  "is_lower c \<longleftrightarrow> 97 \<le> code c \<and> code c \<le> 122"

definition is_upper :: "char \<Rightarrow> bool" where
  "is_upper c \<longleftrightarrow> 65 \<le> code c \<and> code c \<le> 90"

definition upper_char :: "char \<Rightarrow> char" where
  "upper_char c = (if is_lower c then char_of (code c - 32) else c)"

definition lower_char :: "char \<Rightarrow> char" where
  "lower_char c = (if is_upper c then char_of (code c + 32) else c)"

definition is_digit :: "char \<Rightarrow> bool" where
  "is_digit c \<longleftrightarrow> 48 \<le> code c \<and> code c \<le> 57"

text \<open>ASCII white space: tab, newline, vertical tab, form feed, carriage return, blank.\<close>

definition is_space :: "char \<Rightarrow> bool" where
  "is_space c \<longleftrightarrow> code c = 32 \<or> (9 \<le> code c \<and> code c \<le> 13)"

section \<open>Package strings\<close>

definition ToUpper :: "string \<Rightarrow> string" where
  "ToUpper s = map upper_char s"

definition ToLower :: "string \<Rightarrow> string" where
  "ToLower s = map lower_char s"

definition TrimSpace :: "string \<Rightarrow> string" where
  "TrimSpace s = rev (dropWhile is_space (rev (dropWhile is_space s)))"

text \<open>\<open>strings.ReplaceAll\<close> for a one-byte \<open>old\<close>, the only way the source calls it.\<close>

definition ReplaceAll :: "string \<Rightarrow> char \<Rightarrow> string \<Rightarrow> string" where
  "ReplaceAll s old new = concat (map (\<lambda>c. if c = old then new else [c]) s)"

text \<open>\<open>strings.SplitN(s, sep, 2)\<close> and \<open>strings.Split(s, sep)\<close> for a one-byte separator.\<close>

definition SplitN2 :: "string \<Rightarrow> char \<Rightarrow> string list" where
  "SplitN2 s sep =
     (if sep \<in> set s
      then [takeWhile (\<lambda>c. c \<noteq> sep) s, tl (dropWhile (\<lambda>c. c \<noteq> sep) s)]
      else [s])"

fun Split :: "string \<Rightarrow> char \<Rightarrow> string list" where
  "Split [] sep = [[]]"
| "Split (c # cs) sep =
     (if c = sep then [] # Split cs sep
      else (case Split cs sep of [] \<Rightarrow> [[c]] | p # ps \<Rightarrow> (c # p) # ps))"

fun Join :: "string list \<Rightarrow> string \<Rightarrow> string" where
  "Join [] sep = []"
| "Join [s] sep = s"
| "Join (s # t # ss) sep = s @ sep @ Join (t # ss) sep"

definition HasPrefix :: "string \<Rightarrow> string \<Rightarrow> bool" where
  "HasPrefix s p \<longleftrightarrow> take (length p) s = p"

definition HasSuffix :: "string \<Rightarrow> string \<Rightarrow> bool" where
  "HasSuffix s q \<longleftrightarrow> HasPrefix (rev s) (rev q)"

definition TrimPrefix :: "string \<Rightarrow> string \<Rightarrow> string" where
  "TrimPrefix s p = (if HasPrefix s p then drop (length p) s else s)"

definition ContainsByte :: "string \<Rightarrow> char \<Rightarrow> bool" where
  "ContainsByte s c \<longleftrightarrow> c \<in> set s"

definition TrimRightByte :: "string \<Rightarrow> char \<Rightarrow> string" where
  "TrimRightByte s c = rev (dropWhile (\<lambda>x. x = c) (rev s))"

definition EqualFold :: "string \<Rightarrow> string \<Rightarrow> bool" where
  "EqualFold s t \<longleftrightarrow> ToLower s = ToLower t"

text \<open>\<open>strings.Fields\<close>: the maximal runs of non-space bytes.\<close>

function Fields :: "string \<Rightarrow> string list" where
  "Fields s =
     (case dropWhile is_space s of
        [] \<Rightarrow> []
      | c # cs \<Rightarrow>
          (c # takeWhile (\<lambda>x. \<not> is_space x) cs)
            # Fields (dropWhile (\<lambda>x. \<not> is_space x) cs))"
  by pat_completeness auto
termination
proof (relation "measure length")
  fix s c cs
  assume "dropWhile is_space s = c # cs"
  then have "length (c # cs) \<le> length s"
    by (metis length_dropWhile_le)
  moreover have "length (dropWhile (\<lambda>x. \<not> is_space x) cs) \<le> length cs"
    by (rule length_dropWhile_le)
  ultimately show "(dropWhile (\<lambda>x. \<not> is_space x) cs, s) \<in> measure length"
    by simp
qed simp

declare Fields.simps [simp del]

section \<open>Package strconv\<close>

definition ErrSyntax :: goerror where "ErrSyntax = Sentinel ''invalid syntax''"
definition ErrRange :: goerror where "ErrRange = Sentinel ''value out of range''"

text \<open>The value of a digit: \<open>0-9\<close>, then letters of either case from 10.\<close>

definition digit_val :: "char \<Rightarrow> int option" where
  "digit_val c =
     (if is_digit c then Some (code c - 48)
      else if is_lower c then Some (code c - 87)
      else if is_upper c then Some (code c - 55)
      else None)"

definition digit_char :: "int \<Rightarrow> char" where
  "digit_char d = char_of (d + 48)"

text \<open>\<open>strconv.FormatInt(n, 10)\<close> and \<open>big.Int.String\<close>: decimal digits, minus sign first.\<close>

function dec_digits :: "int \<Rightarrow> string" where
  "dec_digits n =
     (if n < 10 then [digit_char n] else dec_digits (n div 10) @ [digit_char (n mod 10)])"
  by pat_completeness auto
termination
  by (relation "measure nat") auto

declare dec_digits.simps [simp del]

definition FormatInt :: "int \<Rightarrow> string" where
  "FormatInt n = (if n < 0 then CHR ''-'' # dec_digits (- n) else dec_digits n)"

text \<open>
  \<open>strconv.ParseUint(s, base, 64)\<close>: the accumulator loop, with its two errors in the
  order the source meets them.
\<close>

fun uint_loop :: "int \<Rightarrow> int \<Rightarrow> string \<Rightarrow> int result" where
  "uint_loop base n [] = Inr n"
| "uint_loop base n (c # cs) =
     (case digit_val c of
        None \<Rightarrow> Inl ErrSyntax
      | Some d \<Rightarrow>
          if base \<le> d then Inl ErrSyntax
          else if 18446744073709551615 < n * base + d then Inl ErrRange
          else uint_loop base (n * base + d) cs)"

definition ParseUint :: "string \<Rightarrow> int \<Rightarrow> int result" where
  "ParseUint s base = (if s = [] then Inl ErrSyntax else uint_loop base 0 s)"

definition ParseInt :: "string \<Rightarrow> int \<Rightarrow> int64 result" where
  "ParseInt s base =
     (case s of
        [] \<Rightarrow> Inl ErrSyntax
      | c # cs \<Rightarrow>
          (let neg = (c = CHR ''-'');
               ds = (if c = CHR ''-'' \<or> c = CHR ''+'' then cs else s)
           in case ParseUint ds base of
                Inl e \<Rightarrow> Inl e
              | Inr un \<Rightarrow>
                  if \<not> neg \<and> 9223372036854775808 \<le> un then Inl ErrRange
                  else if neg \<and> 9223372036854775808 < un then Inl ErrRange
                  else Inr (if neg then - un else un)))"

text \<open>\<open>strconv.ParseBool\<close>.\<close>

definition ParseBool :: "string \<Rightarrow> bool result" where
  "ParseBool s =
     (if s \<in> {''1'', ''t'', ''T'', ''true'', ''TRUE'', ''True''} then Inr True
      else if s \<in> {''0'', ''f'', ''F'', ''false'', ''FALSE'', ''False''} then Inr False
      else Inl ErrSyntax)"

section \<open>Package math/big\<close>

text \<open>\<open>big.Int.SetString(s, base)\<close>: an optional sign and at least one digit, unbounded.\<close>

fun big_loop :: "int \<Rightarrow> int \<Rightarrow> string \<Rightarrow> int option" where
  "big_loop base n [] = Some n"
| "big_loop base n (c # cs) =
     (case digit_val c of
        None \<Rightarrow> None
      | Some d \<Rightarrow> if base \<le> d then None else big_loop base (n * base + d) cs)"

definition big_SetString :: "string \<Rightarrow> int \<Rightarrow> int option" where
  "big_SetString s base =
     (case s of
        [] \<Rightarrow> None
      | c # cs \<Rightarrow>
          (if c = CHR ''-'' then (if cs = [] then None else map_option uminus (big_loop base 0 cs))
           else if c = CHR ''+'' then (if cs = [] then None else big_loop base 0 cs)
           else big_loop base 0 s))"

section \<open>Characters: facts\<close>

lemma code_mod [simp]: "code c mod 256 = code c"
  by (simp add: code_def)

lemma code_nonneg [simp]: "0 \<le> code c"
  using pos_mod_sign [of 256 "code c"] by simp

lemma code_less [simp]: "code c < 256"
  using pos_mod_bound [of 256 "code c"] by simp

lemma code_char_of [simp]: "0 \<le> n \<Longrightarrow> n < 256 \<Longrightarrow> code (char_of n) = n"
  by (simp add: code_def)

lemma code_inject [simp]: "code c = code d \<longleftrightarrow> c = d"
  by (simp add: code_def)

lemma upper_char_idem [simp]: "upper_char (upper_char c) = upper_char c"
  by (auto simp: upper_char_def is_lower_def)

lemma lower_char_idem [simp]: "lower_char (lower_char c) = lower_char c"
  by (auto simp: lower_char_def is_upper_def)

lemma upper_char_not_lower [simp]: "\<not> is_lower (upper_char c)"
  by (auto simp: upper_char_def is_lower_def)

lemma upper_char_fixed: "\<not> is_lower c \<Longrightarrow> upper_char c = c"
  by (simp add: upper_char_def)

lemma upper_lower_char: "\<not> is_lower c \<Longrightarrow> upper_char (lower_char c) = c"
  by (auto simp: upper_char_def lower_char_def is_lower_def is_upper_def code_def)

lemma upper_char_space [simp]: "is_space (upper_char c) = is_space c"
  by (auto simp: upper_char_def is_lower_def is_space_def)

lemma upper_char_eq_nonletter:
  "\<not> is_upper d \<Longrightarrow> upper_char c = d \<Longrightarrow> c = d"
  by (auto simp: upper_char_def is_lower_def is_upper_def split: if_splits)

section \<open>Strings: facts\<close>

lemma ToUpper_idem [simp]: "ToUpper (ToUpper s) = ToUpper s"
  by (simp add: ToUpper_def)

lemma ToLower_idem [simp]: "ToLower (ToLower s) = ToLower s"
  by (simp add: ToLower_def)

lemma ToUpper_ToLower: "list_all (\<lambda>c. \<not> is_lower c) s \<Longrightarrow> ToUpper (ToLower s) = s"
  by (induction s) (simp_all add: ToUpper_def ToLower_def upper_lower_char)

lemma ToUpper_fixed: "list_all (\<lambda>c. \<not> is_lower c) s \<Longrightarrow> ToUpper s = s"
  by (induction s) (simp_all add: ToUpper_def upper_char_fixed)

lemma EqualFold_refl [simp]: "EqualFold s s"
  by (simp add: EqualFold_def)

lemma ReplaceAll_byte: "ReplaceAll s a [b] = map (\<lambda>c. if c = a then b else c) s"
  by (induction s) (auto simp: ReplaceAll_def)

lemma ReplaceAll_absent: "a \<notin> set s \<Longrightarrow> ReplaceAll s a t = s"
  by (induction s) (auto simp: ReplaceAll_def)

lemma ReplaceAll_gone: "a \<notin> set t \<Longrightarrow> a \<notin> set (ReplaceAll s a t)"
  by (auto simp: ReplaceAll_def split: if_splits)

lemma TrimSpace_no_space_ends:
  "TrimSpace s \<noteq> [] \<Longrightarrow> \<not> is_space (hd (TrimSpace s)) \<and> \<not> is_space (last (TrimSpace s))"
proof -
  assume ne: "TrimSpace s \<noteq> []"
  let ?l = "dropWhile is_space s"
  let ?r = "dropWhile is_space (rev ?l)"
  have r: "?r \<noteq> []" using ne by (simp add: TrimSpace_def)
  then have "\<not> is_space (hd ?r)" by (rule hd_dropWhile)
  moreover have "?l \<noteq> []" using r by (metis dropWhile.simps(1) rev.simps(1))
  then have "\<not> is_space (hd ?l)" by (rule hd_dropWhile)
  moreover have "last ?r = last (rev ?l)"
    using r by (metis last_appendR takeWhile_dropWhile_id)
  ultimately show ?thesis
    using r \<open>?l \<noteq> []\<close> by (simp add: TrimSpace_def hd_rev last_rev)
qed

lemma TrimSpace_fixed:
  "s = [] \<or> (\<not> is_space (hd s) \<and> \<not> is_space (last s)) \<Longrightarrow> TrimSpace s = s"
proof (cases "s = []")
  case False
  moreover assume "s = [] \<or> (\<not> is_space (hd s) \<and> \<not> is_space (last s))"
  ultimately have "dropWhile is_space s = s" "dropWhile is_space (rev s) = rev s"
    by (auto simp: dropWhile_eq_self_iff hd_rev)
  then show ?thesis by (simp add: TrimSpace_def)
qed (simp add: TrimSpace_def)

lemma TrimSpace_idem [simp]: "TrimSpace (TrimSpace s) = TrimSpace s"
  by (rule TrimSpace_fixed) (metis TrimSpace_no_space_ends)

lemma set_TrimSpace: "set (TrimSpace s) \<subseteq> set s"
  by (metis TrimSpace_def set_dropWhileD set_rev subsetI)

lemma TrimSpace_map:
  "(\<And>c. is_space (f c) = is_space c) \<Longrightarrow> TrimSpace (map f s) = map f (TrimSpace s)"
  by (simp add: TrimSpace_def dropWhile_map rev_map comp_def)

lemma SplitN2_join:
  assumes sep: "sep \<in> set s"
  shows "\<exists>a b. SplitN2 s sep = [a, b] \<and> s = a @ sep # b \<and> sep \<notin> set a"
proof -
  from split_list_first [OF sep] obtain a b where "s = a @ sep # b" "sep \<notin> set a"
    by blast
  then show ?thesis by (auto simp: SplitN2_def takeWhile_append dropWhile_append)
qed

lemma SplitN2_none: "sep \<notin> set s \<Longrightarrow> SplitN2 s sep = [s]"
  by (simp add: SplitN2_def)

lemma SplitN2_append [simp]: "sep \<notin> set a \<Longrightarrow> SplitN2 (a @ sep # b) sep = [a, b]"
  by (simp add: SplitN2_def takeWhile_append dropWhile_append)

lemma HasSuffix_iff: "HasSuffix s q \<longleftrightarrow> (\<exists>p. s = p @ q)"
proof
  assume "HasSuffix s q"
  then have "rev s = rev q @ drop (length q) (rev s)"
    by (metis HasPrefix_def HasSuffix_def append_take_drop_id length_rev)
  then have "s = rev (drop (length q) (rev s)) @ q"
    by (metis rev_append rev_rev_ident)
  then show "\<exists>p. s = p @ q" ..
qed (auto simp: HasSuffix_def HasPrefix_def)

section \<open>Decimal round trip\<close>

lemma digit_val_digit_char [simp]: "0 \<le> d \<Longrightarrow> d < 10 \<Longrightarrow> digit_val (digit_char d) = Some d"
  by (simp add: digit_val_def digit_char_def is_digit_def)

lemma is_digit_digit_char [simp]: "0 \<le> d \<Longrightarrow> d < 10 \<Longrightarrow> is_digit (digit_char d)"
  by (simp add: digit_char_def is_digit_def)

lemma uint_loop_append:
  "uint_loop b n (xs @ ys) = (case uint_loop b n xs of Inl e \<Rightarrow> Inl e | Inr m \<Rightarrow> uint_loop b m ys)"
  by (induction b n xs rule: uint_loop.induct) (auto split: option.splits)

lemma big_loop_append:
  "big_loop b n (xs @ ys) = (case big_loop b n xs of None \<Rightarrow> None | Some m \<Rightarrow> big_loop b m ys)"
  by (induction b n xs rule: big_loop.induct) (auto split: option.splits)

lemma dec_digits_nonempty [simp]: "dec_digits n \<noteq> []"
  by (subst dec_digits.simps) simp

lemma dec_digits_digits: "0 \<le> n \<Longrightarrow> list_all is_digit (dec_digits n)"
proof (induction n rule: dec_digits.induct)
  case (1 n)
  then show ?case by (subst dec_digits.simps) auto
qed

lemma uint_loop_dec_digits:
  "0 \<le> n \<Longrightarrow> n \<le> 18446744073709551615 \<Longrightarrow> uint_loop 10 0 (dec_digits n) = Inr n"
proof (induction n rule: dec_digits.induct)
  case (1 n)
  show ?case
  proof (cases "n < 10")
    case True
    then show ?thesis using "1.prems" by (subst dec_digits.simps) simp
  next
    case False
    have "n div 10 \<le> 18446744073709551615" using "1.prems" by linarith
    with False "1.IH" "1.prems" have "uint_loop 10 0 (dec_digits (n div 10)) = Inr (n div 10)"
      by simp
    with False "1.prems" show ?thesis
      by (subst dec_digits.simps) (simp add: uint_loop_append)
  qed
qed

lemma big_loop_dec_digits: "0 \<le> n \<Longrightarrow> big_loop 10 0 (dec_digits n) = Some n"
proof (induction n rule: dec_digits.induct)
  case (1 n)
  then show ?case by (subst dec_digits.simps) (auto simp: big_loop_append)
qed

lemma hd_dec_digits: "0 \<le> n \<Longrightarrow> is_digit (hd (dec_digits n))"
  using dec_digits_digits [of n] by (cases "dec_digits n") auto

lemma not_digit_sign [simp]: "\<not> is_digit CHR ''-''" "\<not> is_digit CHR ''+''"
  by (simp_all add: is_digit_def code_def)

lemma ParseInt_FormatInt: "in_int64 n \<Longrightarrow> ParseInt (FormatInt n) 10 = Inr n"
proof (cases "n < 0")
  case True
  assume "in_int64 n"
  then have "uint_loop 10 0 (dec_digits (- n)) = Inr (- n)"
    using True by (intro uint_loop_dec_digits) (auto simp: in_int64_def)
  with True \<open>in_int64 n\<close> show ?thesis
    by (auto simp: FormatInt_def ParseInt_def ParseUint_def in_int64_def)
next
  case False
  assume *: "in_int64 n"
  then have "uint_loop 10 0 (dec_digits n) = Inr n"
    using False by (intro uint_loop_dec_digits) (auto simp: in_int64_def)
  moreover have "is_digit (hd (dec_digits n))" using False by (simp add: hd_dec_digits)
  ultimately show ?thesis
    using False * by (cases "dec_digits n")
      (auto simp: FormatInt_def ParseInt_def ParseUint_def in_int64_def Let_def
        simp del: uint_loop.simps)
qed

lemma FormatInt_inj: "in_int64 m \<Longrightarrow> in_int64 n \<Longrightarrow> FormatInt m = FormatInt n \<Longrightarrow> m = n"
  using ParseInt_FormatInt by (metis sum.inject(2))

lemma big_SetString_FormatInt: "big_SetString (FormatInt n) 10 = Some n"
proof (cases "n < 0")
  case True
  then show ?thesis
    by (simp add: FormatInt_def big_SetString_def big_loop_dec_digits)
next
  case False
  then have "is_digit (hd (dec_digits n))" by (simp add: hd_dec_digits)
  then show ?thesis
    using False big_loop_dec_digits [of n]
    by (cases "dec_digits n") (auto simp: FormatInt_def big_SetString_def)
qed

lemma uint_loop_range: "0 \<le> b \<Longrightarrow> 0 \<le> n \<Longrightarrow> uint_loop b n s = Inr m \<Longrightarrow> 0 \<le> m"
proof (induction b n s rule: uint_loop.induct)
  case (2 base n c cs)
  then show ?case
    by (auto simp: digit_val_def is_digit_def is_lower_def is_upper_def split: option.splits if_splits)
qed simp

lemma ParseInt_range: "0 \<le> b \<Longrightarrow> ParseInt s b = Inr n \<Longrightarrow> in_int64 n"
  by (auto simp: ParseInt_def ParseUint_def Let_def in_int64_def
      split: list.splits if_splits sum.splits dest: uint_loop_range simp del: uint_loop.simps)

end
