(* ===== verification/GoFloat.thy ===== *)
theory GoFloat
  imports GoStrings
begin

text \<open>
  Go's \<open>float64\<close> values and \<open>strconv.ParseFloat\<close>. A finite value is a sign, a
  mantissa and a binary exponent in canonical form (53 significant bits, or the
  subnormal exponent), so that two equal bit patterns are equal HOL values. Decimal
  and hexadecimal literals are read exactly as a ratio of integers and then rounded
  once, to nearest with ties to even; an overflow yields an infinity together with
  \<open>ErrRange\<close>, as the library function does.
\<close>

section \<open>Values\<close>

datatype float64 =
    FNaN
  | FInf bool           \<comment> \<open>negative?\<close>
  | FFin bool int int   \<comment> \<open>negative?, mantissa, exponent: \<open>(-1)^s * m * 2^e\<close>\<close>

definition f_zero :: "bool \<Rightarrow> float64" where
  "f_zero neg = FFin neg 0 (- 1074)"

definition float_wf :: "float64 \<Rightarrow> bool" where
  "float_wf f \<longleftrightarrow>
     (case f of
        FNaN \<Rightarrow> True
      | FInf _ \<Rightarrow> True
      | FFin _ m e \<Rightarrow>
          - 1074 \<le> e \<and> e \<le> 971 \<and> 0 \<le> m \<and> m < 9007199254740992 \<and>
          (e = - 1074 \<or> 4503599627370496 \<le> m))"

section \<open>Rounding a positive ratio\<close>

function bit_len :: "int \<Rightarrow> int" where
  "bit_len n = (if n \<le> 0 then 0 else 1 + bit_len (drop_bit 1 n))"
  by pat_completeness auto
termination
  by (relation "measure nat") (auto simp: drop_bit_eq_div)

declare bit_len.simps [simp del]

text \<open>Powers with an integer exponent, by squaring, so that they evaluate fast.\<close>

function ipow :: "int \<Rightarrow> int \<Rightarrow> int" where
  "ipow b e =
     (if e \<le> 0 then 1
      else if e mod 2 = 0 then ipow (b * b) (e div 2)
      else b * ipow (b * b) (e div 2))"
  by pat_completeness auto
termination
  by (relation "measure (\<lambda>(b, e). nat e)") auto

declare ipow.simps [simp del]

lemma ipow_power: "ipow b e = b ^ nat e"
proof (induction b e rule: ipow.induct)
  case (1 b e)
  show ?case
  proof (cases "e \<le> 0")
    case True
    then show ?thesis by (subst ipow.simps) simp
  next
    case False
    then have e: "nat e = 2 * nat (e div 2) + nat (e mod 2)"
      by (metis (no_types) div_mult_mod_eq mult.commute nat_add_distrib nat_mult_distrib
          nat_numeral not_le order_less_imp_le pos_imp_zdiv_nonneg_iff pos_mod_sign
          zero_le_mult_iff zero_less_numeral)
    show ?thesis
      using 1 False e by (subst ipow.simps) (auto simp: power_mult power2_eq_square power_add)
  qed
qed

text \<open>\<open>n / (d * 2^e)\<close> as a fraction of integers.\<close>

definition scale :: "int \<Rightarrow> int \<Rightarrow> int \<Rightarrow> int \<times> int" where
  "scale n d e = (if 0 \<le> e then (n, d * ipow 2 e) else (n * ipow 2 (- e), d))"

definition round_half_even :: "int \<Rightarrow> int \<Rightarrow> int" where
  "round_half_even n d =
     (let q = n div d; r = n mod d
      in if d < 2 * r \<or> (2 * r = d \<and> odd q) then q + 1 else q)"

text \<open>
  A ratio of \<open>2^1025\<close> or more overflows whatever its digits are; otherwise the
  exponent that leaves 53 bits is found from the bit lengths.
\<close>

definition round_ratio :: "bool \<Rightarrow> int \<Rightarrow> int \<Rightarrow> float64" where
  "round_ratio neg n d =
     (if 1025 < bit_len n - bit_len d then FInf neg
      else
      let e1 = max (- 1074) (bit_len n - bit_len d - 53);
          (n1, d1) = scale n d e1;
          e = (if 9007199254740992 \<le> n1 div d1 then e1 + 1 else e1);
          (n2, d2) = scale n d e;
          m = round_half_even n2 d2;
          (m', e') = (if m = 9007199254740992 then (4503599627370496, e + 1) else (m, e))
      in if 971 < e' then FInf neg else FFin neg m' e')"

section \<open>Reading a literal\<close>

text \<open>
  \<open>strconv.underscoreOK\<close>: underscores only between digits, or between a base prefix
  and a digit. \<open>saw\<close> is the class of the previous byte.
\<close>

datatype saw = SawStart | SawDigit | SawUnderscore | SawOther

fun underscore_loop :: "bool \<Rightarrow> saw \<Rightarrow> string \<Rightarrow> bool" where
  "underscore_loop hex saw [] \<longleftrightarrow> saw \<noteq> SawUnderscore"
| "underscore_loop hex saw (c # cs) \<longleftrightarrow>
     (if is_digit c \<or> (hex \<and> 97 \<le> code (lower_char c) \<and> code (lower_char c) \<le> 102)
      then underscore_loop hex SawDigit cs
      else if c = CHR ''_'' then saw = SawDigit \<and> underscore_loop hex SawUnderscore cs
      else saw \<noteq> SawUnderscore \<and> underscore_loop hex SawOther cs)"

definition drop_sign :: "string \<Rightarrow> string" where
  "drop_sign s =
     (case s of [] \<Rightarrow> [] | c # cs \<Rightarrow> if c = CHR ''-'' \<or> c = CHR ''+'' then cs else s)"

definition underscoreOK :: "string \<Rightarrow> bool" where
  "underscoreOK s =
     (case drop_sign s of
        a # b # cs \<Rightarrow>
          (if a = CHR ''0'' \<and> lower_char b \<in> {CHR ''b'', CHR ''o'', CHR ''x''}
           then underscore_loop (lower_char b = CHR ''x'') SawDigit cs
           else underscore_loop False SawStart (drop_sign s))
      | t \<Rightarrow> underscore_loop False SawStart t)"

text \<open>
  The mantissa loop of \<open>readFloat\<close>: digits accumulate, one point is allowed,
  underscores are skipped; the loop stops at the first other byte. The result is the
  digit value, the number of digits after the point, whether a point and whether a
  digit was seen, and the rest.
\<close>

fun mant_loop :: "bool \<Rightarrow> int \<Rightarrow> int \<Rightarrow> bool \<Rightarrow> bool \<Rightarrow> string \<Rightarrow> int \<times> int \<times> bool \<times> string" where
  "mant_loop hex m fr dot digs [] = (m, fr, digs, [])"
| "mant_loop hex m fr dot digs (c # cs) =
     (if c = CHR ''_'' then mant_loop hex m fr dot digs cs
      else if c = CHR ''.'' then
        (if dot then (m, fr, digs, c # cs) else mant_loop hex m fr True digs cs)
      else case digit_val c of
             None \<Rightarrow> (m, fr, digs, c # cs)
           | Some d \<Rightarrow>
               if d < (if hex then 16 else 10)
               then mant_loop hex (m * (if hex then 16 else 10) + d) (if dot then fr + 1 else fr)
                      dot True cs
               else (m, fr, digs, c # cs))"

text \<open>The exponent digits; the accumulator stops growing at 10000.\<close>

fun exp_loop :: "int \<Rightarrow> string \<Rightarrow> int \<times> string" where
  "exp_loop e [] = (e, [])"
| "exp_loop e (c # cs) =
     (if c = CHR ''_'' then exp_loop e cs
      else if is_digit c then exp_loop (if e < 10000 then e * 10 + (code c - 48) else e) cs
      else (e, c # cs))"

text \<open>The optional exponent after \<open>e\<close> (decimal) or the mandatory one after \<open>p\<close> (hex).\<close>

definition read_exp :: "bool \<Rightarrow> string \<Rightarrow> (int \<times> string) option" where
  "read_exp hex s =
     (case s of
        [] \<Rightarrow> if hex then None else Some (0, [])
      | c # cs \<Rightarrow>
          if lower_char c = (if hex then CHR ''p'' else CHR ''e'') then
            (let neg = (case cs of [] \<Rightarrow> False | c' # _ \<Rightarrow> c' = CHR ''-'');
                 ds = drop_sign cs
             in case ds of
                  [] \<Rightarrow> None
                | d # _ \<Rightarrow>
                    if \<not> is_digit d then None
                    else (let (e, rest) = exp_loop 0 ds in Some (if neg then - e else e, rest)))
          else if hex then None else Some (0, s))"

text \<open>
  \<open>readFloat\<close> on a whole string: sign, whether the base is 16, mantissa and the
  exponent of the base (10, or 2 for hexadecimal).
\<close>

definition read_float :: "string \<Rightarrow> (bool \<times> bool \<times> int \<times> int) option" where
  "read_float s =
     (let neg = (case s of [] \<Rightarrow> False | c # _ \<Rightarrow> c = CHR ''-'');
          t = drop_sign s;
          hex = (case t of a # b # _ # _ \<Rightarrow> a = CHR ''0'' \<and> lower_char b = CHR ''x'' | _ \<Rightarrow> False);
          body = (if hex then drop 2 t else t);
          (m, fr, digs, rest) = mant_loop hex 0 0 False False body
      in if \<not> digs then None
         else case read_exp hex rest of
                None \<Rightarrow> None
              | Some (e, rest') \<Rightarrow>
                  if rest' \<noteq> [] then None
                  else if CHR ''_'' \<in> set s \<and> \<not> underscoreOK s then None
                  else Some (neg, hex, m, if hex then e - 4 * fr else e - fr))"

text \<open>The special values: \<open>inf\<close>, \<open>infinity\<close> with an optional sign, \<open>nan\<close> without.\<close>

definition special_float :: "string \<Rightarrow> float64 option" where
  "special_float s =
     (let t = ToLower s; u = drop_sign t;
          neg = (case s of [] \<Rightarrow> False | c # _ \<Rightarrow> c = CHR ''-'')
      in if u = ''inf'' \<or> u = ''infinity'' then Some (FInf neg)
         else if t = ''nan'' then Some FNaN
         else None)"

text \<open>
  The value of a literal. As in the library's decimal conversion, an exponent beyond 310
  is an overflow without further arithmetic.
\<close>

definition ratio_float :: "bool \<Rightarrow> bool \<Rightarrow> int \<Rightarrow> int \<Rightarrow> float64" where
  "ratio_float neg hex m k =
     (let b = (if hex then 2 else 10)
      in if m = 0 then f_zero neg
         else if \<not> hex \<and> 310 < k then FInf neg
         else if 0 \<le> k then round_ratio neg (m * ipow b k) 1
         else round_ratio neg m (ipow b (- k)))"

text \<open>\<open>strconv.ParseFloat(s, 64)\<close>: both results, since a range error comes with an infinity.\<close>

definition ParseFloat :: "string \<Rightarrow> float64 \<times> goerror option" where
  "ParseFloat s =
     (case special_float s of
        Some f \<Rightarrow> (f, None)
      | None \<Rightarrow>
          (case read_float s of
             None \<Rightarrow> (f_zero False, Some ErrSyntax)
           | Some (neg, hex, m, k) \<Rightarrow>
               (let f = ratio_float neg hex m k
                in case f of FInf _ \<Rightarrow> (f, Some ErrRange) | _ \<Rightarrow> (f, None))))"

end
