(* ===== verification/GoTime.thy ===== *)
theory GoTime
  imports GoStrings
begin

text \<open>
  The part of Go's \<open>time\<close> package the ingestion tier uses: instants, \<open>UnixMicro\<close>,
  and \<open>time.Parse(time.RFC3339Nano, s)\<close>. An instant is the number of nanoseconds
  since the epoch. The parser follows the layout \<open>2006-01-02T15:04:05.999999999Z07:00\<close>
  chunk by chunk: two-digit fields except the hour, which may have one digit; a
  fraction introduced by a point or a comma; a zone \<open>Z\<close> or a signed offset.
\<close>

type_synonym gotime = int

definition UnixMicro :: "gotime \<Rightarrow> int64" where
  "UnixMicro t = wrap64 (t div 1000)"

section \<open>Calendar\<close>

definition is_leap :: "int \<Rightarrow> bool" where
  "is_leap y \<longleftrightarrow> y mod 4 = 0 \<and> (y mod 100 \<noteq> 0 \<or> y mod 400 = 0)"

definition days_in :: "int \<Rightarrow> int \<Rightarrow> int" where
  "days_in month year =
     (if month = 2 then (if is_leap year then 29 else 28)
      else if month = 4 \<or> month = 6 \<or> month = 9 \<or> month = 11 then 30
      else 31)"

text \<open>Days from 1 January of year 0 to 1 January of year \<open>y\<close> (proleptic Gregorian).\<close>

definition days_to_year :: "int \<Rightarrow> int" where
  "days_to_year y = 365 * y + (y + 3) div 4 - (y + 99) div 100 + (y + 399) div 400"

definition days_to_month :: "int \<Rightarrow> int \<Rightarrow> int" where
  "days_to_month month year =
     (if month \<le> 1 then 0 else if month = 2 then 31 else
        (if month = 3 then 59 else if month = 4 then 90 else if month = 5 then 120
         else if month = 6 then 151 else if month = 7 then 181 else if month = 8 then 212
         else if month = 9 then 243 else if month = 10 then 273 else if month = 11 then 304
         else 334) + (if is_leap year then 1 else 0))"

definition unix_days :: "int \<Rightarrow> int \<Rightarrow> int \<Rightarrow> int" where
  "unix_days year month day = days_to_year year + days_to_month month year + (day - 1) - 719528"

text \<open>
  The calendar agrees with counting: each month starts when the previous one ends, and
  day 0 is the first of January 1970.
\<close>

lemma days_to_month_succ:
  assumes "1 \<le> m" and "m < 12"
  shows "days_to_month (m + 1) y = days_to_month m y + days_in m y"
proof -
  have "m = 1 \<or> m = 2 \<or> m = 3 \<or> m = 4 \<or> m = 5 \<or> m = 6 \<or> m = 7 \<or> m = 8 \<or> m = 9 \<or> m = 10 \<or> m = 11"
    using assms by presburger
  then show ?thesis by (elim disjE) (simp_all add: days_to_month_def days_in_def)
qed

lemma unix_days_epoch: "unix_days 1970 1 1 = 0"
  by (simp add: unix_days_def days_to_year_def days_to_month_def)

section \<open>Parsing\<close>

text \<open>\<open>getnum\<close>: one or two digits, or exactly two when \<open>fixed\<close>.\<close>

definition getnum :: "bool \<Rightarrow> string \<Rightarrow> (int \<times> string) option" where
  "getnum fixed s =
     (case s of
        a # b # rest \<Rightarrow>
          if \<not> is_digit a then None
          else if is_digit b then Some ((code a - 48) * 10 + (code b - 48), rest)
          else if fixed then None
          else Some (code a - 48, b # rest)
      | [a] \<Rightarrow> if is_digit a \<and> \<not> fixed then Some (code a - 48, []) else None
      | [] \<Rightarrow> None)"

definition expect :: "char \<Rightarrow> string \<Rightarrow> string option" where
  "expect c s = (case s of [] \<Rightarrow> None | x # xs \<Rightarrow> if x = c then Some xs else None)"

definition parse_year :: "string \<Rightarrow> (int \<times> string) option" where
  "parse_year s =
     (case s of
        a # b # c # d # rest \<Rightarrow>
          if is_digit a \<and> is_digit b \<and> is_digit c \<and> is_digit d
          then Some ((code a - 48) * 1000 + (code b - 48) * 100 + (code c - 48) * 10 + (code d - 48), rest)
          else None
      | _ \<Rightarrow> None)"

fun digits_value :: "int \<Rightarrow> string \<Rightarrow> int" where
  "digits_value n [] = n"
| "digits_value n (c # cs) = digits_value (n * 10 + (code c - 48)) cs"

text \<open>
  The optional fraction: any number of digits, of which the first nine count,
  scaled to nanoseconds.
\<close>

definition parse_frac :: "string \<Rightarrow> int \<times> string" where
  "parse_frac s =
     (case s of
        p # d # rest \<Rightarrow>
          if (p = CHR ''.'' \<or> p = CHR '','') \<and> is_digit d then
            (let ds = takeWhile is_digit (d # rest); ns = take 9 ds
             in (digits_value 0 ns * 10 ^ (9 - length ns), dropWhile is_digit (d # rest)))
          else (0, s)
      | _ \<Rightarrow> (0, s))"

text \<open>The zone: \<open>Z\<close>, or a sign, two digits, a colon and two digits; the rest must be empty.\<close>

definition parse_zone :: "string \<Rightarrow> int option" where
  "parse_zone s =
     (if s = ''Z'' then Some 0
      else case s of
        [sg, h1, h2, colon, m1, m2] \<Rightarrow>
          (case (getnum True [h1, h2], getnum True [m1, m2]) of
             (Some (hr, _), Some (mm, _)) \<Rightarrow>
               if colon \<noteq> CHR '':'' \<or> 24 < hr \<or> 60 < mm then None
               else if sg = CHR ''+'' then Some ((hr * 60 + mm) * 60)
               else if sg = CHR ''-'' then Some (- ((hr * 60 + mm) * 60))
               else None
           | _ \<Rightarrow> None)
      | _ \<Rightarrow> None)"

definition obind :: "'a option \<Rightarrow> ('a \<Rightarrow> 'b option) \<Rightarrow> 'b option" where
  "obind x f = (case x of None \<Rightarrow> None | Some v \<Rightarrow> f v)"

text \<open>\<open>time.Parse(time.RFC3339Nano, s)\<close>; \<open>None\<close> is any parse error.\<close>

definition parse_rfc3339 :: "string \<Rightarrow> gotime option" where
  "parse_rfc3339 s =
     obind (parse_year s) (\<lambda>(year, s).
     obind (expect CHR ''-'' s) (\<lambda>s.
     obind (getnum True s) (\<lambda>(month, s).
     obind (expect CHR ''-'' s) (\<lambda>s.
     obind (getnum True s) (\<lambda>(day, s).
     obind (expect CHR ''T'' s) (\<lambda>s.
     obind (getnum False s) (\<lambda>(hour, s).
     obind (expect CHR '':'' s) (\<lambda>s.
     obind (getnum True s) (\<lambda>(minute, s).
     obind (expect CHR '':'' s) (\<lambda>s.
     obind (getnum True s) (\<lambda>(sec, s).
       (let (nsec, s) = parse_frac s in
        obind (parse_zone s) (\<lambda>offset.
          if month < 1 \<or> 12 < month \<or> day < 1 \<or> days_in month year < day
             \<or> 24 \<le> hour \<or> 60 \<le> minute \<or> 60 \<le> sec
          then None
          else Some ((unix_days year month day * 86400 + hour * 3600 + minute * 60 + sec - offset)
                     * 1000000000 + nsec))))))))))))))"

end
