(* ===== verification/Model.thy ===== *)
theory Model
  imports GoFloat GoTime
begin

text \<open>
  The canonical, venue-independent market data types of \<open>internal/model/model.go\<close>:
  the payload records, the tagged union \<open>Event\<close> that moves through the pipeline,
  \<open>Payload\<close> and \<open>NormalizeSide\<close>. A Go pointer field is an \<open>option\<close>; the
  \<open>any\<close> that \<open>Payload\<close> returns keeps the difference between a nil interface and an
  interface that holds a nil pointer, because the pipeline tests for the former.
\<close>

section \<open>Constants\<close>

type_synonym Kind = string

definition KindTrade :: Kind where "KindTrade = ''trade''"
definition KindBookDelta :: Kind where "KindBookDelta = ''book_delta''"
definition KindChainTransfer :: Kind where "KindChainTransfer = ''chain_transfer''"

definition SideBuy :: string where "SideBuy = ''BUY''"
definition SideSell :: string where "SideSell = ''SELL''"
definition SideUnknown :: string where "SideUnknown = ''UNKNOWN''"

definition NoSequence :: int64 where "NoSequence = - 1"

section \<open>Records\<close>

record Level =
  Level_Price :: float64
  Level_Size :: float64

record Trade =
  Trade_Venue :: string
  Trade_Symbol :: string
  Trade_TradeID :: string
  Trade_Price :: float64
  Trade_Size :: float64
  Trade_Side :: string
  Trade_EventTimeUS :: int64
  Trade_IngestTimeUS :: int64
  Trade_Sequence :: int64

text \<open>Version 2 of the trade schema repeats the nine fields and adds two.\<close>

record TradeV2 = Trade +
  Trade_MakerOrderID :: "string option"
  Trade_Liquidity :: string

record BookDelta =
  Book_Venue :: string
  Book_Symbol :: string
  Book_IsSnapshot :: bool
  Book_Bids :: "Level list"
  Book_Asks :: "Level list"
  Book_EventTimeUS :: int64
  Book_IngestTimeUS :: int64
  Book_Sequence :: int64

record ChainTransfer =
  Chain_Chain :: string
  Chain_Token :: string
  Chain_Symbol :: string
  Chain_FromAddr :: string
  Chain_ToAddr :: string
  Chain_AmountRaw :: string
  Chain_Decimals :: int
  Chain_BlockNumber :: int64
  Chain_LogIndex :: int
  Chain_TxHash :: string
  Chain_EventTimeUS :: int64
  Chain_IngestTimeUS :: int64

record Event =
  Event_Kind :: Kind
  Event_Venue :: string
  Event_Symbol :: string
  Event_Sequence :: int64
  Event_Trade :: "Trade option"
  Event_Book :: "BookDelta option"
  Event_Chain :: "ChainTransfer option"

section \<open>Operations\<close>

datatype payload =
    PNil                            \<comment> \<open>the nil interface\<close>
  | PTrade "Trade option"           \<comment> \<open>an interface holding a \<open>*Trade\<close>, nil or not\<close>
  | PBook "BookDelta option"
  | PChain "ChainTransfer option"

definition Payload :: "Event \<Rightarrow> payload" where
  "Payload e =
     (if Event_Kind e = KindTrade then PTrade (Event_Trade e)
      else if Event_Kind e = KindBookDelta then PBook (Event_Book e)
      else if Event_Kind e = KindChainTransfer then PChain (Event_Chain e)
      else PNil)"

definition Micros :: "gotime \<Rightarrow> int64" where
  "Micros t = UnixMicro t"

definition NormalizeSide :: "string \<Rightarrow> string" where
  "NormalizeSide s =
     (if s \<in> {''b'', ''B'', ''buy'', ''BUY'', ''Buy'', ''bid'', ''BID''} then SideBuy
      else if s \<in> {''s'', ''S'', ''sell'', ''SELL'', ''Sell'', ''ask'', ''ASK'', ''offer'', ''OFFER''}
      then SideSell
      else SideUnknown)"

section \<open>The invariant of the tagged union\<close>

text \<open>
  \<open>Exactly one of the pointer fields is non-nil, matching Kind\<close>, and the envelope
  repeats the venue, symbol and sequence of the record it carries (a chain transfer
  has a chain for a venue and no sequence of its own).
\<close>

definition event_wf :: "Event \<Rightarrow> bool" where
  "event_wf e \<longleftrightarrow>
     (case (Event_Trade e, Event_Book e, Event_Chain e) of
        (Some t, None, None) \<Rightarrow>
          Event_Kind e = KindTrade \<and> Trade_Venue t = Event_Venue e \<and>
          Trade_Symbol t = Event_Symbol e \<and> Trade_Sequence t = Event_Sequence e
      | (None, Some b, None) \<Rightarrow>
          Event_Kind e = KindBookDelta \<and> Book_Venue b = Event_Venue e \<and>
          Book_Symbol b = Event_Symbol e \<and> Book_Sequence b = Event_Sequence e
      | (None, None, Some c) \<Rightarrow>
          Event_Kind e = KindChainTransfer \<and> Chain_Chain c = Event_Venue e \<and>
          Chain_Symbol c = Event_Symbol e
      | _ \<Rightarrow> False)"

lemma kinds_distinct [simp]:
  "KindTrade \<noteq> KindBookDelta" "KindTrade \<noteq> KindChainTransfer" "KindBookDelta \<noteq> KindChainTransfer"
  "KindBookDelta \<noteq> KindTrade" "KindChainTransfer \<noteq> KindTrade" "KindChainTransfer \<noteq> KindBookDelta"
  by (simp_all add: KindTrade_def KindBookDelta_def KindChainTransfer_def)

lemma sides_distinct [simp]:
  "SideBuy \<noteq> SideSell" "SideBuy \<noteq> SideUnknown" "SideSell \<noteq> SideUnknown"
  "SideSell \<noteq> SideBuy" "SideUnknown \<noteq> SideBuy" "SideUnknown \<noteq> SideSell"
  by (simp_all add: SideBuy_def SideSell_def SideUnknown_def)

lemma event_wf_cases:
  assumes "event_wf e"
  obtains
    (trade) t where "Event_Kind e = KindTrade" "Event_Trade e = Some t" "Event_Book e = None"
      "Event_Chain e = None" "Payload e = PTrade (Some t)"
  | (book) b where "Event_Kind e = KindBookDelta" "Event_Trade e = None" "Event_Book e = Some b"
      "Event_Chain e = None" "Payload e = PBook (Some b)"
  | (chain) c where "Event_Kind e = KindChainTransfer" "Event_Trade e = None" "Event_Book e = None"
      "Event_Chain e = Some c" "Payload e = PChain (Some c)"
  using assms by (auto simp: event_wf_def Payload_def split: option.splits)

lemma NormalizeSide_range: "NormalizeSide s \<in> {SideBuy, SideSell, SideUnknown}"
  by (simp add: NormalizeSide_def)

end
