(* ===== verification/GoJson.thy ===== *)
theory GoJson
  imports GoFloat
begin

text \<open>
  Go's \<open>encoding/json\<close>, as far as the decoders use it: the syntax check and parse of
  a byte string, and \<open>Unmarshal\<close> into a struct. The number literals stay literals in
  the tree, because \<open>Unmarshal\<close> parses them according to the destination's type.
  A \<open>json.RawMessage\<close> field holds the sub-tree (\<open>None\<close> for the empty byte slice a
  missing key leaves behind); decoding it again is decoding that tree.
\<close>

section \<open>Values\<close>

datatype json =
    JNull
  | JBool bool
  | JNum string
  | JStr string
  | JArr "json list"
  | JObj "(string \<times> json) list"

section \<open>UTF-8\<close>

definition is_cont :: "char \<Rightarrow> bool" where
  "is_cont c \<longleftrightarrow> 128 \<le> code c \<and> code c \<le> 191"

text \<open>\<open>utf8.EncodeRune\<close> for a code point that is no surrogate and at most \<open>0x10FFFF\<close>.\<close>

definition utf8_encode :: "int \<Rightarrow> string" where
  "utf8_encode r =
     (if r < 128 then [char_of r]
      else if r < 2048 then [char_of (192 + r div 64), char_of (128 + r mod 64)]
      else if r < 65536 then
        [char_of (224 + r div 4096), char_of (128 + r div 64 mod 64), char_of (128 + r mod 64)]
      else
        [char_of (240 + r div 262144), char_of (128 + r div 4096 mod 64),
         char_of (128 + r div 64 mod 64), char_of (128 + r mod 64)])"

definition replacement_char :: string where
  "replacement_char = utf8_encode 65533"

text \<open>The length of the valid multi-byte sequence a string starts with, 0 if there is none.\<close>

definition utf8_len :: "string \<Rightarrow> nat" where
  "utf8_len s =
     (case s of
        a # b # rest \<Rightarrow>
          if 194 \<le> code a \<and> code a \<le> 223 \<and> is_cont b then 2
          else (case rest of
             c # rest' \<Rightarrow>
               if is_cont b \<and> is_cont c \<and> 224 \<le> code a \<and> code a \<le> 239
                  \<and> (code a = 224 \<longrightarrow> 160 \<le> code b) \<and> (code a = 237 \<longrightarrow> code b \<le> 159) then 3
               else (case rest' of
                  d # _ \<Rightarrow>
                    if is_cont b \<and> is_cont c \<and> is_cont d \<and> 240 \<le> code a \<and> code a \<le> 244
                       \<and> (code a = 240 \<longrightarrow> 144 \<le> code b) \<and> (code a = 244 \<longrightarrow> code b \<le> 143) then 4
                    else 0
                | [] \<Rightarrow> 0)
           | [] \<Rightarrow> 0)
      | _ \<Rightarrow> 0)"

section \<open>Lexing\<close>

definition hex4 :: "string \<Rightarrow> int option" where
  "hex4 s =
     (case s of
        a # b # c # d # _ \<Rightarrow> (case big_loop 16 0 [a, b, c, d] of None \<Rightarrow> None | Some r \<Rightarrow> Some r)
      | _ \<Rightarrow> None)"

definition is_surrogate :: "int \<Rightarrow> bool" where
  "is_surrogate r \<longleftrightarrow> 55296 \<le> r \<and> r < 57344"

text \<open>
  The escape after \<open>\u\<close> and four hex digits: a valid surrogate pair is one code
  point (and consumes the second escape), a lone surrogate is the replacement
  character.
\<close>

definition unicode_escape :: "int \<Rightarrow> string \<Rightarrow> string \<times> string" where
  "unicode_escape r s =
     (if \<not> is_surrogate r then (utf8_encode r, s)
      else case s of
        b # u # t \<Rightarrow>
          if b = CHR 0x5C \<and> u = CHR ''u'' then
            (case hex4 t of
               Some r2 \<Rightarrow>
                 if r < 56320 \<and> 56320 \<le> r2 \<and> r2 < 57344
                 then (utf8_encode ((r - 55296) * 1024 + (r2 - 56320) + 65536), drop 4 t)
                 else (replacement_char, s)
             | None \<Rightarrow> (replacement_char, s))
          else (replacement_char, s)
      | _ \<Rightarrow> (replacement_char, s))"

lemma unicode_escape_length: "length (snd (unicode_escape r s)) \<le> length s"
  by (auto simp: unicode_escape_def split: list.splits option.splits)

lemma unicode_escape_le:
  "unicode_escape r s = (x, rest) \<Longrightarrow> length rest \<le> length s"
  using unicode_escape_length [of r s] by simp

definition simple_escape :: "char \<Rightarrow> char option" where
  "simple_escape e =
     (if e = CHR 0x22 \<or> e = CHR 0x5C \<or> e = CHR ''/'' then Some e
      else if e = CHR ''b'' then Some (char_of (8::int))
      else if e = CHR ''f'' then Some (char_of (12::int))
      else if e = CHR ''n'' then Some (char_of (10::int))
      else if e = CHR ''r'' then Some (char_of (13::int))
      else if e = CHR ''t'' then Some (char_of (9::int))
      else None)"

text \<open>
  One element of a string body other than the closing quote: the bytes it stands for
  and the rest. Control bytes are a syntax error; an invalid UTF-8 byte becomes the
  replacement character.
\<close>

definition lex_char :: "string \<Rightarrow> (string \<times> string) option" where
  "lex_char s =
     (case s of
        [] \<Rightarrow> None
      | c # cs \<Rightarrow>
          if code c < 32 then None
          else if c = CHR 0x5C then
            (case cs of
               [] \<Rightarrow> None
             | e # es \<Rightarrow>
                 if e = CHR ''u''
                 then map_option (\<lambda>r. unicode_escape r (drop 4 es)) (hex4 es)
                 else map_option (\<lambda>x. ([x], es)) (simple_escape e))
          else if code c < 128 then Some ([c], cs)
          else if utf8_len s = 0 then Some (replacement_char, cs)
          else Some (take (utf8_len s) s, drop (utf8_len s) s))"

lemma lex_char_length: "lex_char s = Some (x, rest) \<Longrightarrow> length rest < length s"
  by (auto simp: lex_char_def split: list.splits if_splits dest!: unicode_escape_le)

text \<open>The body of a string after its opening quote: the decoded bytes and the rest.\<close>

function lex_string :: "string \<Rightarrow> (string \<times> string) option" where
  "lex_string s =
     (if s \<noteq> [] \<and> hd s = CHR 0x22 then Some ([], tl s)
      else case lex_char s of
             None \<Rightarrow> None
           | Some (x, rest) \<Rightarrow>
               (case lex_string rest of
                  None \<Rightarrow> None
                | Some (t, rest') \<Rightarrow> Some (x @ t, rest')))"
  by pat_completeness auto
termination
  by (relation "measure length") (auto dest: lex_char_length)

declare lex_string.simps [simp del]

lemma lex_string_length: "lex_string s = Some (t, rest) \<Longrightarrow> length rest < length s"
proof (induction s arbitrary: t rest rule: lex_string.induct)
  case (1 s)
  show ?case
  proof (cases "s \<noteq> [] \<and> hd s = CHR 0x22")
    case True
    with "1.prems" show ?thesis by (subst (asm) lex_string.simps) auto
  next
    case False
    with "1.prems" obtain x r t' where
      x: "lex_char s = Some (x, r)" and r: "lex_string r = Some (t', rest)"
      by (subst (asm) lex_string.simps) (auto split: option.splits)
    have "length rest < length r" using "1.IH" False x r by blast
    with lex_char_length [OF x] show ?thesis by simp
  qed
qed

text \<open>A number literal: optional minus, integer part without leading zeros, fraction, exponent.\<close>

definition lex_digits :: "string \<Rightarrow> (string \<times> string) option" where
  "lex_digits s =
     (if takeWhile is_digit s = [] then None else Some (takeWhile is_digit s, dropWhile is_digit s))"

definition lex_int :: "string \<Rightarrow> (string \<times> string) option" where
  "lex_int s =
     (case s of [] \<Rightarrow> None | c # cs \<Rightarrow> if c = CHR ''0'' then Some ([c], cs) else lex_digits s)"

definition lex_frac :: "string \<Rightarrow> (string \<times> string) option" where
  "lex_frac s =
     (case s of
        [] \<Rightarrow> Some ([], s)
      | c # cs \<Rightarrow>
          if c = CHR ''.'' then map_option (\<lambda>(d, r). (c # d, r)) (lex_digits cs) else Some ([], s))"

definition lex_exp :: "string \<Rightarrow> (string \<times> string) option" where
  "lex_exp s =
     (case s of
        [] \<Rightarrow> Some ([], s)
      | c # cs \<Rightarrow>
          if c = CHR ''e'' \<or> c = CHR ''E'' then
            (case cs of
               [] \<Rightarrow> None
             | d # ds \<Rightarrow>
                 if d = CHR ''+'' \<or> d = CHR ''-''
                 then map_option (\<lambda>(x, r). (c # d # x, r)) (lex_digits ds)
                 else map_option (\<lambda>(x, r). (c # x, r)) (lex_digits cs))
          else Some ([], s))"

definition lex_number :: "string \<Rightarrow> (string \<times> string) option" where
  "lex_number s =
     (let (sg, t) = (case s of [] \<Rightarrow> ([], s) | c # cs \<Rightarrow> if c = CHR ''-'' then ([c], cs) else ([], s))
      in case lex_int t of
           None \<Rightarrow> None
         | Some (i, t1) \<Rightarrow>
             (case lex_frac t1 of
                None \<Rightarrow> None
              | Some (f, t2) \<Rightarrow>
                  (case lex_exp t2 of
                     None \<Rightarrow> None
                   | Some (e, t3) \<Rightarrow> Some (sg @ i @ f @ e, t3))))"

lemma lex_digits_length: "lex_digits s = Some (d, r) \<Longrightarrow> length r < length s"
  by (cases s) (auto simp: lex_digits_def le_imp_less_Suc length_dropWhile_le split: if_splits)

lemma lex_int_length: "lex_int s = Some (d, r) \<Longrightarrow> length r < length s"
  by (auto simp: lex_int_def split: list.splits if_splits dest: lex_digits_length)

lemma lex_frac_length: "lex_frac s = Some (d, r) \<Longrightarrow> length r \<le> length s"
  by (auto simp: lex_frac_def split: list.splits if_splits dest: lex_digits_length)

lemma lex_exp_length: "lex_exp s = Some (d, r) \<Longrightarrow> length r \<le> length s"
  by (auto simp: lex_exp_def split: list.splits if_splits dest: lex_digits_length)

lemma lex_number_length: "lex_number s = Some (n, rest) \<Longrightarrow> length rest < length s"
  by (auto simp: lex_number_def Let_def split: list.splits if_splits option.splits
      dest!: lex_int_length lex_frac_length lex_exp_length)

datatype token =
    TBeginObj | TEndObj | TBeginArr | TEndArr | TColon | TComma
  | TStr string
  | TVal json

definition json_space :: "char \<Rightarrow> bool" where
  "json_space c \<longleftrightarrow> code c = 32 \<or> code c = 9 \<or> code c = 10 \<or> code c = 13"

definition punct :: "char \<Rightarrow> token option" where
  "punct c =
     (if c = CHR ''{'' then Some TBeginObj else if c = CHR ''}'' then Some TEndObj
      else if c = CHR ''['' then Some TBeginArr else if c = CHR '']'' then Some TEndArr
      else if c = CHR '':'' then Some TColon else if c = CHR '','' then Some TComma
      else None)"

text \<open>One token, and the rest of the input.\<close>

definition lex_token :: "string \<Rightarrow> (token \<times> string) option" where
  "lex_token s =
     (case s of
        [] \<Rightarrow> None
      | c # cs \<Rightarrow>
          (case punct c of
             Some t \<Rightarrow> Some (t, cs)
           | None \<Rightarrow>
               if c = CHR 0x22 then map_option (\<lambda>(t, r). (TStr t, r)) (lex_string cs)
               else if HasPrefix s ''null'' then Some (TVal JNull, drop 4 s)
               else if HasPrefix s ''true'' then Some (TVal (JBool True), drop 4 s)
               else if HasPrefix s ''false'' then Some (TVal (JBool False), drop 5 s)
               else map_option (\<lambda>(n, r). (TVal (JNum n), r)) (lex_number s)))"

lemma lex_token_length: "lex_token s = Some (t, rest) \<Longrightarrow> length rest < length s"
  by (auto simp: lex_token_def split: list.splits option.splits if_splits
      dest: lex_string_length lex_number_length)

function lex_tokens :: "string \<Rightarrow> token list option" where
  "lex_tokens s =
     (case dropWhile json_space s of
        [] \<Rightarrow> Some []
      | c # cs \<Rightarrow>
          (case lex_token (c # cs) of
             None \<Rightarrow> None
           | Some (t, rest) \<Rightarrow> map_option (\<lambda>ts. t # ts) (lex_tokens rest)))"
  by pat_completeness auto
termination
proof (relation "measure length", goal_cases)
  case (2 s c cs p t rest)
  then have "length rest < length (c # cs)" by (auto dest: lex_token_length)
  moreover have "length (c # cs) \<le> length s"
    using 2 by (metis length_dropWhile_le)
  ultimately show ?case by simp
qed simp

declare lex_tokens.simps [simp del]

section \<open>Parsing\<close>

text \<open>
  The scanner is a pushdown automaton: a stack of open arrays and objects and what may
  come next. It reads one token at a time, as Go's scanner reads one byte at a time,
  and refuses to nest deeper than 10000 levels.
\<close>

datatype frame =
    FrArr "json list"                    \<comment> \<open>elements so far, last first\<close>
  | FrObj "(string \<times> json) list"
  | FrKey "(string \<times> json) list" string \<comment> \<open>a key whose value is being read\<close>

datatype mode =
    MValue | MArrStart | MObjStart | MKey | MColon | MNext | MDone json

definition complete :: "json \<Rightarrow> frame list \<Rightarrow> (mode \<times> frame list) option" where
  "complete v st =
     (case st of
        [] \<Rightarrow> Some (MDone v, [])
      | FrArr vs # fs \<Rightarrow> Some (MNext, FrArr (v # vs) # fs)
      | FrKey kvs k # fs \<Rightarrow> Some (MNext, FrObj ((k, v) # kvs) # fs)
      | FrObj kvs # fs \<Rightarrow> None)"

definition push :: "mode \<Rightarrow> frame \<Rightarrow> frame list \<Rightarrow> (mode \<times> frame list) option" where
  "push m f st = (if 10000 \<le> length st then None else Some (m, f # st))"

definition value_step :: "token \<Rightarrow> frame list \<Rightarrow> (mode \<times> frame list) option" where
  "value_step t st =
     (case t of
        TBeginObj \<Rightarrow> push MObjStart (FrObj []) st
      | TBeginArr \<Rightarrow> push MArrStart (FrArr []) st
      | TStr s \<Rightarrow> complete (JStr s) st
      | TVal v \<Rightarrow> complete v st
      | _ \<Rightarrow> None)"

definition key_step :: "token \<Rightarrow> frame list \<Rightarrow> (mode \<times> frame list) option" where
  "key_step t st =
     (case (t, st) of
        (TStr k, FrObj kvs # fs) \<Rightarrow> Some (MColon, FrKey kvs k # fs)
      | _ \<Rightarrow> None)"

definition next_step :: "token \<Rightarrow> frame list \<Rightarrow> (mode \<times> frame list) option" where
  "next_step t st =
     (case (t, st) of
        (TComma, FrArr vs # fs) \<Rightarrow> Some (MValue, st)
      | (TComma, FrObj kvs # fs) \<Rightarrow> Some (MKey, st)
      | (TEndArr, FrArr vs # fs) \<Rightarrow> complete (JArr (rev vs)) fs
      | (TEndObj, FrObj kvs # fs) \<Rightarrow> complete (JObj (rev kvs)) fs
      | _ \<Rightarrow> None)"

definition parse_step :: "token \<Rightarrow> mode \<Rightarrow> frame list \<Rightarrow> (mode \<times> frame list) option" where
  "parse_step t m st =
     (case m of
        MValue \<Rightarrow> value_step t st
      | MArrStart \<Rightarrow> if t = TEndArr then next_step t st else value_step t st
      | MObjStart \<Rightarrow> if t = TEndObj then next_step t st else key_step t st
      | MKey \<Rightarrow> key_step t st
      | MColon \<Rightarrow> if t = TColon then Some (MValue, st) else None
      | MNext \<Rightarrow> next_step t st
      | MDone v \<Rightarrow> None)"

fun parse_tokens :: "token list \<Rightarrow> mode \<Rightarrow> frame list \<Rightarrow> json option" where
  "parse_tokens [] m st = (case m of MDone v \<Rightarrow> Some v | _ \<Rightarrow> None)"
| "parse_tokens (t # ts) m st =
     (case parse_step t m st of None \<Rightarrow> None | Some (m', st') \<Rightarrow> parse_tokens ts m' st')"

definition json_parse :: "string \<Rightarrow> json option" where
  "json_parse s =
     (case lex_tokens s of None \<Rightarrow> None | Some ts \<Rightarrow> parse_tokens ts MValue [])"

section \<open>Unmarshal\<close>

text \<open>
  A decoder for a destination of type \<open>'a\<close> takes a value and what the destination
  holds, and returns what it holds afterwards and whether no type error was met.
  Go goes on after a type error and reports the first one at the end.
\<close>

type_synonym 'a dec = "json \<Rightarrow> 'a \<Rightarrow> 'a \<times> bool"

definition dec_string :: "string dec" where
  "dec_string j old = (case j of JStr s \<Rightarrow> (s, True) | JNull \<Rightarrow> (old, True) | _ \<Rightarrow> (old, False))"

definition dec_bool :: "bool dec" where
  "dec_bool j old = (case j of JBool b \<Rightarrow> (b, True) | JNull \<Rightarrow> (old, True) | _ \<Rightarrow> (old, False))"

definition dec_int64 :: "int64 dec" where
  "dec_int64 j old =
     (case j of
        JNum lit \<Rightarrow> (case ParseInt lit 10 of Inl _ \<Rightarrow> (old, False) | Inr n \<Rightarrow> (n, True))
      | JNull \<Rightarrow> (old, True)
      | _ \<Rightarrow> (old, False))"

definition dec_uint32 :: "int dec" where
  "dec_uint32 j old =
     (case j of
        JNum lit \<Rightarrow>
          (case ParseUint lit 10 of
             Inl _ \<Rightarrow> (old, False)
           | Inr n \<Rightarrow> if 4294967295 < n then (old, False) else (n, True))
      | JNull \<Rightarrow> (old, True)
      | _ \<Rightarrow> (old, False))"

definition dec_float64 :: "float64 dec" where
  "dec_float64 j old =
     (case j of
        JNum lit \<Rightarrow> (case ParseFloat lit of (f, None) \<Rightarrow> (f, True) | (f, Some _) \<Rightarrow> (old, False))
      | JNull \<Rightarrow> (old, True)
      | _ \<Rightarrow> (old, False))"

definition dec_raw :: "json option dec" where
  "dec_raw j old = (Some j, True)"

text \<open>A pointer: \<open>null\<close> stores nil, anything else decodes into the pointee, allocated if need be.\<close>

definition dec_ptr :: "'a \<Rightarrow> 'a dec \<Rightarrow> 'a option dec" where
  "dec_ptr zero d j old =
     (if j = JNull then (None, True)
      else (let (v, ok) = d j (case old of None \<Rightarrow> zero | Some v \<Rightarrow> v) in (Some v, ok)))"

text \<open>A slice: elements decode over what the slice already holds, then into zero values.\<close>

fun dec_elems :: "'a \<Rightarrow> 'a dec \<Rightarrow> json list \<Rightarrow> 'a list \<Rightarrow> 'a list \<times> bool" where
  "dec_elems zero d [] olds = ([], True)"
| "dec_elems zero d (j # js) olds =
     (let (v, ok) = d j (case olds of [] \<Rightarrow> zero | x # _ \<Rightarrow> x);
          (vs, oks) = dec_elems zero d js (tl olds)
      in (v # vs, ok \<and> oks))"

definition dec_slice :: "'a \<Rightarrow> 'a dec \<Rightarrow> 'a list dec" where
  "dec_slice zero d j old =
     (case j of
        JArr js \<Rightarrow> dec_elems zero d js old
      | JNull \<Rightarrow> ([], True)
      | _ \<Rightarrow> (old, False))"

text \<open>A \<open>map[string]json.RawMessage\<close>: keys match exactly, a later duplicate wins.\<close>

definition dec_raw_map :: "(string \<rightharpoonup> json) dec" where
  "dec_raw_map j old =
     (case j of
        JObj kvs \<Rightarrow> (fold (\<lambda>(k, v) m. m(k \<mapsto> v)) kvs old, True)
      | JNull \<Rightarrow> (Map.empty, True)
      | _ \<Rightarrow> (old, False))"

text \<open>
  Struct keys. A key selects the field whose name it equals, or else the first field
  whose name it equals up to case. Case folding is Go's \<open>foldName\<close> on ASCII; the two
  non-ASCII runes that fold to an ASCII letter, the long s and the Kelvin sign, fold
  here too.
\<close>

function fold_name :: "string \<Rightarrow> string" where
  "fold_name s =
     (case s of
        [] \<Rightarrow> []
      | c # cs \<Rightarrow>
          if HasPrefix s [CHR 0xC5, CHR 0xBF] then CHR ''S'' # fold_name (drop 2 s)
          else if HasPrefix s [CHR 0xE2, CHR 0x84, CHR 0xAA] then CHR ''K'' # fold_name (drop 3 s)
          else upper_char c # fold_name cs)"
  by pat_completeness auto
termination
  by (relation "measure length") auto

declare fold_name.simps [simp del]

definition match_field :: "(string \<times> 'f) list \<Rightarrow> string \<Rightarrow> 'f option" where
  "match_field fs k =
     (case map_of fs k of
        Some f \<Rightarrow> Some f
      | None \<Rightarrow> map_option snd (find (\<lambda>nf. fold_name (fst nf) = fold_name k) fs))"

type_synonym 'r fields = "(string \<times> 'r dec) list"

fun dec_members :: "'r fields \<Rightarrow> (string \<times> json) list \<Rightarrow> 'r \<Rightarrow> 'r \<times> bool" where
  "dec_members fs [] r = (r, True)"
| "dec_members fs ((k, v) # kvs) r =
     (case match_field fs k of
        None \<Rightarrow> dec_members fs kvs r
      | Some d \<Rightarrow>
          (let (r1, ok) = d v r; (r2, ok') = dec_members fs kvs r1 in (r2, ok \<and> ok')))"

definition dec_struct :: "'r fields \<Rightarrow> 'r dec" where
  "dec_struct fs j r =
     (case j of
        JObj kvs \<Rightarrow> dec_members fs kvs r
      | JNull \<Rightarrow> (r, True)
      | _ \<Rightarrow> (r, False))"

text \<open>A record field as a destination: its selector and its update function.\<close>

definition into :: "('r \<Rightarrow> 'a) \<Rightarrow> (('a \<Rightarrow> 'a) \<Rightarrow> 'r \<Rightarrow> 'r) \<Rightarrow> 'a dec \<Rightarrow> 'r dec" where
  "into get upd d j r = (let (v, ok) = d j (get r) in (upd (\<lambda>_. v) r, ok))"

definition ErrJsonSyntax :: goerror where "ErrJsonSyntax = Sentinel ''json: syntax error''"
definition ErrJsonType :: goerror where "ErrJsonType = Sentinel ''json: cannot unmarshal''"

definition UnmarshalRaw :: "'a dec \<Rightarrow> 'a \<Rightarrow> json option \<Rightarrow> 'a result" where
  "UnmarshalRaw d zero raw =
     (case raw of
        None \<Rightarrow> Inl ErrJsonSyntax
      | Some j \<Rightarrow> (let (v, ok) = d j zero in if ok then Inr v else Inl ErrJsonType))"

text \<open>\<open>json.Unmarshal(raw, &v)\<close> for a byte slice.\<close>

definition Unmarshal :: "'a dec \<Rightarrow> 'a \<Rightarrow> string \<Rightarrow> 'a result" where
  "Unmarshal d zero raw = UnmarshalRaw d zero (json_parse raw)"

end
