(* ===== verification/Venue.thy ===== *)
theory Venue
  imports Model GoJson
begin

text \<open>
  What the exchange adapters of \<open>internal/venue\<close> share: the parsing helpers of
  \<open>venue.go\<close>, and the read loop of \<open>Runner.session\<close> that feeds frames to a
  decoder. The \<open>Decoder\<close> interface is the locale \<open>venue_decoder\<close>: its laws are
  what the rest of the system relies on, every adapter theory interprets it, and the
  read loop's guarantees are proved once, here.
\<close>

section \<open>Helpers\<close>

definition ChannelTrades :: string where "ChannelTrades = ''trades''"
definition ChannelBook :: string where "ChannelBook = ''book''"

definition parseFloat :: "string \<Rightarrow> float64 \<times> goerror option" where
  "parseFloat s = (if s = '''' then (f_zero False, None) else ParseFloat s)"

definition mustFloat :: "string \<Rightarrow> float64" where
  "mustFloat s = fst (parseFloat s)"

definition parseRFC3339Micros :: "string \<Rightarrow> gotime \<Rightarrow> int64" where
  "parseRFC3339Micros s fallback =
     (if s = '''' then UnixMicro fallback
      else case parse_rfc3339 s of
             None \<Rightarrow> UnixMicro fallback
           | Some t \<Rightarrow> UnixMicro t)"

definition canonicalPair :: "string \<Rightarrow> string" where
  "canonicalPair s =
     (let s1 = ToUpper (TrimSpace s);
          s2 = ReplaceAll s1 CHR ''/'' ''-''
      in ReplaceAll s2 CHR ''_'' ''-'')"

section \<open>The read loop of a session\<close>

text \<open>
  \<open>for \<close>-loop of \<open>Runner.session\<close> over the frames a connection delivers: a frame that
  does not decode is skipped, the events of one that does are sent in order. Each frame
  comes with the clock reading the loop takes for it.
\<close>

fun pump ::
  "('s \<Rightarrow> string \<Rightarrow> gotime \<Rightarrow> 's \<times> Event list result) \<Rightarrow> 's \<Rightarrow> (string \<times> gotime) list \<Rightarrow>
   's \<times> Event list"
where
  "pump decode s [] = (s, [])"
| "pump decode s ((raw, now) # frames) =
     (case decode s raw now of
        (s1, Inl err) \<Rightarrow> pump decode s1 frames
      | (s1, Inr events) \<Rightarrow> (let (s2, rest) = pump decode s1 frames in (s2, events @ rest)))"

section \<open>The decoder interface\<close>

locale venue_decoder =
  fixes decode :: "'s \<Rightarrow> string \<Rightarrow> gotime \<Rightarrow> 's \<times> Event list result"
    and venue :: "'s \<Rightarrow> string"
  assumes decode_wf: "decode s raw now = (s', Inr evs) \<Longrightarrow> e \<in> set evs \<Longrightarrow> event_wf e"
    and decode_venue: "decode s raw now = (s', Inr evs) \<Longrightarrow> e \<in> set evs \<Longrightarrow> Event_Venue e = venue s"
    and decode_keeps_venue: "decode s raw now = (s', r) \<Longrightarrow> venue s' = venue s"
begin

lemma pump_events:
  "e \<in> set (snd (pump decode s frames)) \<Longrightarrow> event_wf e \<and> Event_Venue e = venue s"
proof (induction frames arbitrary: s)
  case (Cons f frames)
  obtain raw now s1 r where f: "f = (raw, now)" and d: "decode s raw now = (s1, r)"
    by (metis surj_pair)
  have v: "venue s1 = venue s" using d by (rule decode_keeps_venue)
  show ?case
  proof (cases r)
    case (Inl err)
    with Cons f d v show ?thesis by simp
  next
    case (Inr evs)
    with Cons.prems f d have "e \<in> set evs \<or> e \<in> set (snd (pump decode s1 frames))"
      by (simp add: split_beta)
    with Cons.IH [of s1] v Inr d decode_wf [of s raw now s1 evs e]
      decode_venue [of s raw now s1 evs e] show ?thesis by auto
  qed
qed simp

end

lemma pump_append:
  "pump decode s (xs @ ys) =
     (let (s1, es) = pump decode s xs; (s2, es') = pump decode s1 ys in (s2, es @ es'))"
  by (induction decode s xs rule: pump.induct) (auto split: prod.splits sum.splits)

section \<open>Facts about canonical pairs\<close>

definition canon_char :: "char \<Rightarrow> char" where
  "canon_char c =
     (let u = upper_char c in if u = CHR ''/'' \<or> u = CHR ''_'' then CHR ''-'' else u)"

lemma canonicalPair_map: "canonicalPair s = map canon_char (TrimSpace s)"
  by (auto simp: canonicalPair_def canon_char_def Let_def ReplaceAll_byte ToUpper_def)

lemma canon_char_space [simp]: "is_space (canon_char c) = is_space c"
  using upper_char_space [of c] by (auto simp: canon_char_def Let_def is_space_def code_def)

lemma canon_char_idem [simp]: "canon_char (canon_char c) = canon_char c"
  by (auto simp: canon_char_def Let_def upper_char_fixed is_lower_def code_def)

lemma canon_char_alphabet:
  "CHR ''/'' \<noteq> canon_char c" "CHR ''_'' \<noteq> canon_char c" "\<not> is_lower (canon_char c)"
proof -
  have "\<not> is_lower CHR ''-''" by (simp add: is_lower_def code_def)
  then show "CHR ''/'' \<noteq> canon_char c" "CHR ''_'' \<noteq> canon_char c" "\<not> is_lower (canon_char c)"
    using upper_char_not_lower [of c] by (auto simp: canon_char_def Let_def)
qed

lemma canonicalPair_idem [simp]: "canonicalPair (canonicalPair s) = canonicalPair s"
  by (simp add: canonicalPair_map TrimSpace_map comp_def)

lemma canonicalPair_canonical_spaces: "TrimSpace (canonicalPair s) = canonicalPair s"
  by (simp add: canonicalPair_map TrimSpace_map)

lemma canonicalPair_no_slash: "CHR ''/'' \<notin> set (canonicalPair s)"
  using canon_char_alphabet(1) by (auto simp: canonicalPair_map)

lemma canonicalPair_upper: "list_all (\<lambda>c. \<not> is_lower c) (canonicalPair s)"
  using canon_char_alphabet(3) by (auto simp: canonicalPair_map list_all_iff)

lemma ToUpper_canonicalPair [simp]: "ToUpper (canonicalPair s) = canonicalPair s"
  using canon_char_alphabet(3) by (simp add: canonicalPair_map ToUpper_def upper_char_fixed)

section \<open>Properties\<close>

text \<open>
  Symbol normalisation is idempotent and leaves neither a separator other
  than the dash nor a lower-case letter nor outer white space: two spellings of a pair
  have one canonical form, and a canonical symbol is its own.
\<close>

theorem canonicalPair_canonical:
  "canonicalPair (canonicalPair s) = canonicalPair s
   \<and> CHR ''/'' \<notin> set (canonicalPair s) \<and> CHR ''_'' \<notin> set (canonicalPair s)
   \<and> list_all (\<lambda>c. \<not> is_lower c) (canonicalPair s)
   \<and> TrimSpace (canonicalPair s) = canonicalPair s"
  using canon_char_alphabet
  by (auto simp: canonicalPair_map TrimSpace_map list_all_iff comp_def)

text \<open>
  \<open>mustFloat\<close> does not always fall back to zero: a literal beyond the
  float64 range yields an infinity, since \<open>ParseFloat\<close> returns one with its range error.
\<close>

theorem mustFloat_overflow_is_infinite:
  "mustFloat ''1e400'' = FInf False \<and> snd (parseFloat ''1e400'') = Some ErrRange
   \<and> mustFloat ''abc'' = f_zero False"
  by code_simp

end
