(* ===== verification/Coinbase.thy ===== *)
theory Coinbase
  imports Venue
begin

text \<open>
  The Coinbase Advanced Trade adapter, \<open>internal/venue/coinbase.go\<close>: the wire
  structs, \<open>Subscriptions\<close>, and \<open>Decode\<close> with its two payload decoders. The
  envelope's \<open>sequence_num\<close> counts the connection, so only the first event of a
  frame may carry it; the properties pin that down.
\<close>

section \<open>Wire types\<close>

definition VenueCoinbase :: string where "VenueCoinbase = ''coinbase''"

record Coinbase =
  cb_symbols :: "string list"

record coinbaseSubscribe =
  cbs_Type :: string
  cbs_ProductIDs :: "string list"
  cbs_Channel :: string

record coinbaseEnvelope =
  cbe_Channel :: string
  cbe_Timestamp :: string
  cbe_SequenceNum :: int64
  cbe_Events :: "json option"
  cbe_Type :: string
  cbe_Message :: string

record coinbaseTrade =
  cbt_TradeID :: string
  cbt_ProductID :: string
  cbt_Price :: string
  cbt_Size :: string
  cbt_Side :: string
  cbt_Time :: string

record coinbaseTradeEvent =
  cbte_Type :: string
  cbte_Trades :: "coinbaseTrade list"

record coinbaseUpdate =
  cbu_Side :: string
  cbu_EventTime :: string
  cbu_PriceLevel :: string
  cbu_NewQuantity :: string

record coinbaseL2Event =
  cbl_Type :: string
  cbl_ProductID :: string
  cbl_Updates :: "coinbaseUpdate list"

definition coinbaseEnvelope_zero :: coinbaseEnvelope where
  "coinbaseEnvelope_zero =
     \<lparr>cbe_Channel = [], cbe_Timestamp = [], cbe_SequenceNum = 0, cbe_Events = None,
      cbe_Type = [], cbe_Message = []\<rparr>"

definition dec_coinbaseEnvelope :: "coinbaseEnvelope dec" where
  "dec_coinbaseEnvelope = dec_struct
     [(''channel'', into cbe_Channel cbe_Channel_update dec_string),
      (''timestamp'', into cbe_Timestamp cbe_Timestamp_update dec_string),
      (''sequence_num'', into cbe_SequenceNum cbe_SequenceNum_update dec_int64),
      (''events'', into cbe_Events cbe_Events_update dec_raw),
      (''type'', into cbe_Type cbe_Type_update dec_string),
      (''message'', into cbe_Message cbe_Message_update dec_string)]"

definition dec_coinbaseTrade :: "coinbaseTrade dec" where
  "dec_coinbaseTrade = dec_struct
     [(''trade_id'', into cbt_TradeID cbt_TradeID_update dec_string),
      (''product_id'', into cbt_ProductID cbt_ProductID_update dec_string),
      (''price'', into cbt_Price cbt_Price_update dec_string),
      (''size'', into cbt_Size cbt_Size_update dec_string),
      (''side'', into cbt_Side cbt_Side_update dec_string),
      (''time'', into cbt_Time cbt_Time_update dec_string)]"

definition dec_coinbaseTradeEvents :: "coinbaseTradeEvent list dec" where
  "dec_coinbaseTradeEvents = dec_slice \<lparr>cbte_Type = [], cbte_Trades = []\<rparr> (dec_struct
     [(''type'', into cbte_Type cbte_Type_update dec_string),
      (''trades'', into cbte_Trades cbte_Trades_update
         (dec_slice \<lparr>cbt_TradeID = [], cbt_ProductID = [], cbt_Price = [], cbt_Size = [],
                     cbt_Side = [], cbt_Time = []\<rparr> dec_coinbaseTrade))])"

definition dec_coinbaseUpdate :: "coinbaseUpdate dec" where
  "dec_coinbaseUpdate = dec_struct
     [(''side'', into cbu_Side cbu_Side_update dec_string),
      (''event_time'', into cbu_EventTime cbu_EventTime_update dec_string),
      (''price_level'', into cbu_PriceLevel cbu_PriceLevel_update dec_string),
      (''new_quantity'', into cbu_NewQuantity cbu_NewQuantity_update dec_string)]"

definition dec_coinbaseL2Events :: "coinbaseL2Event list dec" where
  "dec_coinbaseL2Events =
     dec_slice \<lparr>cbl_Type = [], cbl_ProductID = [], cbl_Updates = []\<rparr> (dec_struct
     [(''type'', into cbl_Type cbl_Type_update dec_string),
      (''product_id'', into cbl_ProductID cbl_ProductID_update dec_string),
      (''updates'', into cbl_Updates cbl_Updates_update
         (dec_slice \<lparr>cbu_Side = [], cbu_EventTime = [], cbu_PriceLevel = [], cbu_NewQuantity = []\<rparr>
            dec_coinbaseUpdate))])"

section \<open>Operations\<close>

definition NewCoinbase :: "string list \<Rightarrow> Coinbase" where
  "NewCoinbase symbols = \<lparr>cb_symbols = symbols\<rparr>"

definition Coinbase_Name :: "Coinbase \<Rightarrow> string" where
  "Coinbase_Name c = VenueCoinbase"

definition Coinbase_URL :: "Coinbase \<Rightarrow> string" where
  "Coinbase_URL c = ''wss://advanced-trade-ws.coinbase.com''"

definition Coinbase_Subscriptions :: "Coinbase \<Rightarrow> string list \<Rightarrow> Coinbase \<times> coinbaseSubscribe list" where
  "Coinbase_Subscriptions c symbols =
     (let c' = (if symbols \<noteq> [] then c\<lparr>cb_symbols := symbols\<rparr> else c);
          products = map canonicalPair (cb_symbols c')
      in (c',
          [\<lparr>cbs_Type = ''subscribe'', cbs_ProductIDs = products, cbs_Channel = ''market_trades''\<rparr>,
           \<lparr>cbs_Type = ''subscribe'', cbs_ProductIDs = products, cbs_Channel = ''level2''\<rparr>]))"

text \<open>
  The body of the trades loop. The two nested range loops run over the trades of all
  events in order, so the model ranges over their concatenation; \<open>firstOfFrame\<close> is
  threaded through, and the first malformed number aborts the whole frame.
\<close>

definition cb_trade_event :: "coinbaseEnvelope \<Rightarrow> gotime \<Rightarrow> bool \<Rightarrow> coinbaseTrade \<Rightarrow> Event result" where
  "cb_trade_event env now firstOfFrame t =
     (let sym = canonicalPair (cbt_ProductID t)
      in case parseFloat (cbt_Price t) of
           (_, Some err) \<Rightarrow> Inl (Errorf ''coinbase trade price %q: %w'' [cbt_Price t] (Some err))
         | (price, None) \<Rightarrow>
             (case parseFloat (cbt_Size t) of
                (_, Some err) \<Rightarrow> Inl (Errorf ''coinbase trade size %q: %w'' [cbt_Size t] (Some err))
              | (sz, None) \<Rightarrow>
                  (let seq = (if firstOfFrame then cbe_SequenceNum env else NoSequence)
                   in Inr \<lparr>Event_Kind = KindTrade, Event_Venue = VenueCoinbase, Event_Symbol = sym,
                        Event_Sequence = seq,
                        Event_Trade = Some \<lparr>Trade_Venue = VenueCoinbase, Trade_Symbol = sym,
                          Trade_TradeID = cbt_TradeID t, Trade_Price = price, Trade_Size = sz,
                          Trade_Side = NormalizeSide (cbt_Side t),
                          Trade_EventTimeUS = parseRFC3339Micros (cbt_Time t) now,
                          Trade_IngestTimeUS = UnixMicro now, Trade_Sequence = seq\<rparr>,
                        Event_Book = None, Event_Chain = None\<rparr>)))"

fun cb_trades_loop :: "coinbaseEnvelope \<Rightarrow> gotime \<Rightarrow> bool \<Rightarrow> coinbaseTrade list \<Rightarrow> Event list result" where
  "cb_trades_loop env now first [] = Inr []"
| "cb_trades_loop env now first (t # ts) =
     (case cb_trade_event env now first t of
        Inl err \<Rightarrow> Inl err
      | Inr e \<Rightarrow>
          (case cb_trades_loop env now False ts of Inl err \<Rightarrow> Inl err | Inr es \<Rightarrow> Inr (e # es)))"

definition cb_decodeTrades :: "coinbaseEnvelope \<Rightarrow> gotime \<Rightarrow> Event list result" where
  "cb_decodeTrades env now =
     (case UnmarshalRaw dec_coinbaseTradeEvents [] (cbe_Events env) of
        Inl err \<Rightarrow> Inl (Errorf ''coinbase market_trades: %w'' [] (Some err))
      | Inr events \<Rightarrow> cb_trades_loop env now True (concat (map cbte_Trades events)))"

definition cb_level :: "coinbaseUpdate \<Rightarrow> Level" where
  "cb_level u = \<lparr>Level_Price = mustFloat (cbu_PriceLevel u), Level_Size = mustFloat (cbu_NewQuantity u)\<rparr>"

definition cb_is_bid :: "coinbaseUpdate \<Rightarrow> bool" where
  "cb_is_bid u \<longleftrightarrow> NormalizeSide (cbu_Side u) = SideBuy"

definition cb_l2_event :: "coinbaseEnvelope \<Rightarrow> gotime \<Rightarrow> bool \<Rightarrow> coinbaseL2Event \<Rightarrow> Event" where
  "cb_l2_event env now firstOfFrame ev =
     (let sym = canonicalPair (cbl_ProductID ev);
          seq = (if \<not> firstOfFrame then NoSequence else cbe_SequenceNum env)
      in \<lparr>Event_Kind = KindBookDelta, Event_Venue = VenueCoinbase, Event_Symbol = sym,
          Event_Sequence = seq, Event_Trade = None,
          Event_Book = Some \<lparr>Book_Venue = VenueCoinbase, Book_Symbol = sym,
            Book_IsSnapshot = (cbl_Type ev = ''snapshot''),
            Book_Bids = map cb_level (filter cb_is_bid (cbl_Updates ev)),
            Book_Asks = map cb_level (filter (\<lambda>u. \<not> cb_is_bid u) (cbl_Updates ev)),
            Book_EventTimeUS = parseRFC3339Micros (cbu_EventTime (hd (cbl_Updates ev))) now,
            Book_IngestTimeUS = UnixMicro now, Book_Sequence = seq\<rparr>,
          Event_Chain = None\<rparr>)"

fun cb_l2_loop :: "coinbaseEnvelope \<Rightarrow> gotime \<Rightarrow> bool \<Rightarrow> coinbaseL2Event list \<Rightarrow> Event list" where
  "cb_l2_loop env now first [] = []"
| "cb_l2_loop env now first (ev # evs) =
     (if cbl_Updates ev = [] then cb_l2_loop env now first evs
      else cb_l2_event env now first ev # cb_l2_loop env now False evs)"

definition cb_decodeL2 :: "coinbaseEnvelope \<Rightarrow> gotime \<Rightarrow> Event list result" where
  "cb_decodeL2 env now =
     (case UnmarshalRaw dec_coinbaseL2Events [] (cbe_Events env) of
        Inl err \<Rightarrow> Inl (Errorf ''coinbase l2_data: %w'' [] (Some err))
      | Inr events \<Rightarrow> Inr (cb_l2_loop env now True events))"

definition cb_dispatch :: "coinbaseEnvelope \<Rightarrow> gotime \<Rightarrow> Event list result" where
  "cb_dispatch env now =
     (if cbe_Channel env = ''market_trades'' then cb_decodeTrades env now
      else if cbe_Channel env = ''l2_data'' then cb_decodeL2 env now
      else if cbe_Channel env \<in> {''subscriptions'', ''heartbeats'', ''''} then
        (if cbe_Type env = ''error''
         then Inl (Errorf ''coinbase error frame: %s'' [cbe_Message env] None)
         else Inr [])
      else Inr [])"

definition Coinbase_Decode :: "Coinbase \<Rightarrow> string \<Rightarrow> gotime \<Rightarrow> Coinbase \<times> Event list result" where
  "Coinbase_Decode c raw now =
     (c, case Unmarshal dec_coinbaseEnvelope coinbaseEnvelope_zero raw of
           Inl err \<Rightarrow> Inl (Errorf ''coinbase envelope: %w'' [] (Some err))
         | Inr env \<Rightarrow> cb_dispatch env now)"

section \<open>Facts\<close>

text \<open>Every event of a frame after the first is unsequenced.\<close>

definition frame_sequenced :: "int64 \<Rightarrow> Event list \<Rightarrow> bool" where
  "frame_sequenced seq evs \<longleftrightarrow>
     (case evs of [] \<Rightarrow> True
      | e # es \<Rightarrow> Event_Sequence e = seq \<and> list_all (\<lambda>x. Event_Sequence x = NoSequence) es)"

lemma cb_trade_event_wf: "cb_trade_event env now first t = Inr e \<Longrightarrow> event_wf e"
  by (auto simp: cb_trade_event_def event_wf_def Let_def split: prod.splits option.splits)

lemma cb_trade_event_fields:
  "cb_trade_event env now first t = Inr e \<Longrightarrow>
     Event_Venue e = VenueCoinbase \<and> Event_Kind e = KindTrade \<and>
     Event_Sequence e = (if first then cbe_SequenceNum env else NoSequence) \<and>
     Event_Symbol e = canonicalPair (cbt_ProductID t) \<and>
     map_option Trade_TradeID (Event_Trade e) = Some (cbt_TradeID t)"
  by (auto simp: cb_trade_event_def Let_def split: prod.splits option.splits)

lemma cb_l2_event_wf: "event_wf (cb_l2_event env now first ev)"
  by (simp add: cb_l2_event_def event_wf_def Let_def)

lemma cb_l2_event_fields [simp]:
  "Event_Venue (cb_l2_event env now first ev) = VenueCoinbase"
  "Event_Sequence (cb_l2_event env now first ev) = (if first then cbe_SequenceNum env else NoSequence)"
  "Event_Symbol (cb_l2_event env now first ev) = canonicalPair (cbl_ProductID ev)"
  by (simp_all add: cb_l2_event_def Let_def)

lemma cb_trades_loop_all:
  "cb_trades_loop env now first ts = Inr es \<Longrightarrow>
     list_all2 (\<lambda>t e. event_wf e \<and> Event_Venue e = VenueCoinbase \<and> Event_Kind e = KindTrade \<and>
        Event_Symbol e = canonicalPair (cbt_ProductID t) \<and>
        map_option Trade_TradeID (Event_Trade e) = Some (cbt_TradeID t)) ts es"
proof (induction ts arbitrary: first es)
  case (Cons t ts)
  then obtain e es' where e: "cb_trade_event env now first t = Inr e"
    and es: "cb_trades_loop env now False ts = Inr es'" "es = e # es'"
    by (auto split: sum.splits)
  show ?case
    using Cons.IH [OF es(1)] cb_trade_event_wf [OF e] cb_trade_event_fields [OF e] es(2) by simp
qed simp

lemma cb_trades_loop_rest:
  "cb_trades_loop env now False ts = Inr es \<Longrightarrow> list_all (\<lambda>e. Event_Sequence e = NoSequence) es"
  by (induction ts arbitrary: es) (auto split: sum.splits dest: cb_trade_event_fields)

lemma cb_trades_loop_seq:
  "cb_trades_loop env now True ts = Inr es \<Longrightarrow> frame_sequenced (cbe_SequenceNum env) es"
proof (cases ts)
  case (Cons t ts')
  assume "cb_trades_loop env now True ts = Inr es"
  with Cons obtain e es' where "cb_trade_event env now True t = Inr e"
    and "cb_trades_loop env now False ts' = Inr es'" and "es = e # es'"
    by (auto split: sum.splits)
  then show ?thesis
    using cb_trade_event_fields [of env now True t e] cb_trades_loop_rest [of env now ts' es']
    by (simp add: frame_sequenced_def)
qed (simp add: frame_sequenced_def)

lemma cb_l2_loop_all:
  "e \<in> set (cb_l2_loop env now first evs) \<Longrightarrow> event_wf e \<and> Event_Venue e = VenueCoinbase"
  by (induction env now first evs rule: cb_l2_loop.induct) (auto split: if_splits simp: cb_l2_event_wf)

lemma cb_l2_loop_rest: "list_all (\<lambda>e. Event_Sequence e = NoSequence) (cb_l2_loop env now False evs)"
  by (induction evs) auto

lemma cb_l2_loop_seq: "frame_sequenced (cbe_SequenceNum env) (cb_l2_loop env now True evs)"
proof (induction evs)
  case (Cons ev evs)
  then show ?case using cb_l2_loop_rest by (auto simp: frame_sequenced_def)
qed (simp add: frame_sequenced_def)

lemma cb_dispatch_cases:
  assumes "cb_dispatch env now = Inr evs"
  shows "evs = [] \<or> (\<exists>ts. cb_trades_loop env now True ts = Inr evs)
       \<or> (\<exists>l2. evs = cb_l2_loop env now True l2)"
proof -
  have "\<exists>ts. cb_trades_loop env now True ts = Inr evs" if "cb_decodeTrades env now = Inr evs"
    using that by (auto simp: cb_decodeTrades_def split: sum.splits)
  moreover have "\<exists>l2. evs = cb_l2_loop env now True l2" if "cb_decodeL2 env now = Inr evs"
    using that by (auto simp: cb_decodeL2_def split: sum.splits)
  ultimately show ?thesis using assms unfolding cb_dispatch_def by (metis sum.simps(4) sum.inject(2))
qed

lemma cb_dispatch_events:
  assumes "cb_dispatch env now = Inr evs" and "e \<in> set evs"
  shows "event_wf e \<and> Event_Venue e = VenueCoinbase"
proof -
  from cb_dispatch_cases [OF assms(1)] assms(2)
  consider ts where "cb_trades_loop env now True ts = Inr evs"
    | l2 where "evs = cb_l2_loop env now True l2"
    by auto
  then show ?thesis
  proof cases
    case 1
    from cb_trades_loop_all [OF this] assms(2) show ?thesis
      by (auto simp: list_all2_conv_all_nth in_set_conv_nth)
  next
    case 2
    with assms(2) show ?thesis by (auto dest: cb_l2_loop_all)
  qed
qed

lemma cb_dispatch_sequenced:
  "cb_dispatch env now = Inr evs \<Longrightarrow> frame_sequenced (cbe_SequenceNum env) evs"
  using cb_dispatch_cases [of env now evs] cb_trades_loop_seq cb_l2_loop_seq
  by (auto simp: frame_sequenced_def [of _ "[]"])

interpretation coinbase: venue_decoder Coinbase_Decode Coinbase_Name
  by unfold_locales
     (auto simp: Coinbase_Decode_def Coinbase_Name_def split: sum.splits dest: cb_dispatch_events)

section \<open>A concrete frame\<close>

definition coinbase_sample :: string where
  \<open>coinbase_sample = ''{"channel":"market_trades","timestamp":"2024-01-01T00:00:00Z","sequence_num":7,"events":[{"type":"update","trades":[{"trade_id":"11","product_id":"BTC-USD","price":"42000.5","size":"0.25","side":"BUY","time":"2024-01-01T00:00:00Z"},{"trade_id":"12","product_id":"eth-usd","price":"2200","size":"1","side":"SELL","time":"2024-01-01T00:00:00Z"}]}]}''\<close>

definition coinbase_sample_env :: coinbaseEnvelope where
  "coinbase_sample_env =
     (case Unmarshal dec_coinbaseEnvelope coinbaseEnvelope_zero coinbase_sample of
        Inr env \<Rightarrow> env | Inl _ \<Rightarrow> coinbaseEnvelope_zero)"

text \<open>The frame is parsed and decoded once; the witnesses read the facts off.\<close>

lemma coinbase_sample_run:
  "case Unmarshal dec_coinbaseEnvelope coinbaseEnvelope_zero coinbase_sample of
     Inl _ \<Rightarrow> False
   | Inr env \<Rightarrow>
       cbe_SequenceNum env = 7 \<and> is_ok (UnmarshalRaw dec_coinbaseTradeEvents [] (cbe_Events env)) \<and>
       (case cb_dispatch env 0 of Inr evs \<Rightarrow> length evs = 2 | Inl _ \<Rightarrow> False) \<and> is_ok (cb_decodeTrades env 0)"
  by code_simp

lemma coinbase_sample_facts:
  "Unmarshal dec_coinbaseEnvelope coinbaseEnvelope_zero coinbase_sample = Inr coinbase_sample_env"
  "cbe_SequenceNum coinbase_sample_env = 7"
  "\<exists>events. UnmarshalRaw dec_coinbaseTradeEvents [] (cbe_Events coinbase_sample_env) = Inr events"
  "\<exists>evs. cb_dispatch coinbase_sample_env 0 = Inr evs \<and> length evs = 2"
  "\<exists>evs. cb_decodeTrades coinbase_sample_env 0 = Inr evs"
  using coinbase_sample_run by (auto simp: coinbase_sample_env_def is_ok_iff split: sum.splits)

lemma coinbase_sample_dispatch: "\<exists>e es. cb_dispatch coinbase_sample_env 0 = Inr (e # es)"
  using coinbase_sample_facts(4) by (auto simp: numeral_2_eq_2 length_Suc_conv)

lemma coinbase_sample_sequence: "cbe_SequenceNum coinbase_sample_env = 7"
  by (rule coinbase_sample_facts(2))

section \<open>Properties\<close>

text \<open>
  C24. Whatever a Coinbase frame carries, at most its first event has a sequence
  number, and that is the envelope's: the rest are unsequenced, so none of them can be
  taken for a repetition of the first.
\<close>

theorem coinbase_frame_sequenced_once:
  assumes "Unmarshal dec_coinbaseEnvelope coinbaseEnvelope_zero raw = Inr env"
    and "snd (Coinbase_Decode c raw now) = Inr evs"
  shows "frame_sequenced (cbe_SequenceNum env) evs"
  using assms by (auto simp: Coinbase_Decode_def intro: cb_dispatch_sequenced)

theorem coinbase_frame_sequenced_once_witness:
  "\<exists>env evs. Unmarshal dec_coinbaseEnvelope coinbaseEnvelope_zero coinbase_sample = Inr env
     \<and> snd (Coinbase_Decode (NewCoinbase []) coinbase_sample 0) = Inr evs \<and> length evs = 2
     \<and> frame_sequenced (cbe_SequenceNum env) evs"
proof -
  note env = coinbase_sample_facts(1)
  obtain evs where evs: "snd (Coinbase_Decode (NewCoinbase []) coinbase_sample 0) = Inr evs" "length evs = 2"
    using coinbase_sample_facts(1,4) by (auto simp: Coinbase_Decode_def)
  from env evs coinbase_frame_sequenced_once [OF env evs(1)] show ?thesis by blast
qed

text \<open>
  A trades frame that decodes yields exactly one event per trade, in the
  order of the frame, each carrying its own trade id and canonical symbol.
\<close>

theorem coinbase_trades_complete:
  assumes "UnmarshalRaw dec_coinbaseTradeEvents [] (cbe_Events env) = Inr events"
    and "cb_decodeTrades env now = Inr evs"
  shows "map (\<lambda>e. map_option Trade_TradeID (Event_Trade e)) evs =
           map (\<lambda>t. Some (cbt_TradeID t)) (concat (map cbte_Trades events))
       \<and> map Event_Symbol evs =
           map (\<lambda>t. canonicalPair (cbt_ProductID t)) (concat (map cbte_Trades events))"
proof -
  from assms have "cb_trades_loop env now True (concat (map cbte_Trades events)) = Inr evs"
    by (simp add: cb_decodeTrades_def)
  from cb_trades_loop_all [OF this] show ?thesis
    by (auto simp: list_all2_conv_all_nth list_eq_iff_nth_eq)
qed

theorem coinbase_trades_complete_witness:
  "\<exists>events evs. UnmarshalRaw dec_coinbaseTradeEvents [] (cbe_Events coinbase_sample_env) = Inr events
     \<and> cb_decodeTrades coinbase_sample_env 0 = Inr evs
     \<and> map Event_Symbol evs =
         map (\<lambda>t. canonicalPair (cbt_ProductID t)) (concat (map cbte_Trades events))"
proof -
  obtain events where
    events: "UnmarshalRaw dec_coinbaseTradeEvents [] (cbe_Events coinbase_sample_env) = Inr events"
    using coinbase_sample_facts(3) by blast
  obtain evs where evs: "cb_decodeTrades coinbase_sample_env 0 = Inr evs" using coinbase_sample_facts(5) by blast
  from events evs coinbase_trades_complete [OF events evs] show ?thesis by blast
qed

text \<open>
  Each level of a book update lands on exactly one side and none is lost,
  deletions (size zero) included.
\<close>

theorem coinbase_book_levels_partition:
  "\<exists>b. Event_Book (cb_l2_event env now first ev) = Some b
     \<and> length (Book_Bids b) + length (Book_Asks b) = length (cbl_Updates ev)
     \<and> set (Book_Bids b) \<union> set (Book_Asks b) = cb_level ` set (cbl_Updates ev)"
  by (auto simp: cb_l2_event_def Let_def sum_length_filter_compl)

end
