(* ===== verification/Kraken.thy ===== *)
theory Kraken
  imports Venue
begin

text \<open>
  The Kraken WebSocket v2 adapter, \<open>internal/venue/kraken.go\<close>: pairs are written
  with a slash on the wire, trades carry a per-symbol trade id that serves as their
  sequence, books carry a checksum and are marked unsequenced.
\<close>

section \<open>Wire types\<close>

definition VenueKraken :: string where "VenueKraken = ''kraken''"

record Kraken =
  kr_symbols :: "string list"
  kr_depth :: int64

record krakenSubParams =
  krp_Channel :: string
  krp_Symbol :: "string list"
  krp_Depth :: int64
  krp_Snapshot :: "bool option"

record krakenSubscribe =
  krs_Method :: string
  krs_Params :: krakenSubParams
  krs_ReqID :: int64

record krakenEnvelope =
  kre_Channel :: string
  kre_Type :: string
  kre_Data :: "json option"
  kre_Method :: string
  kre_Success :: "bool option"
  kre_Error :: string

record krakenTrade =
  krt_Symbol :: string
  krt_Side :: string
  krt_Price :: float64
  krt_Qty :: float64
  krt_OrdType :: string
  krt_TradeID :: int64
  krt_Timestamp :: string

record krakenBookLevel =
  krl_Price :: float64
  krl_Qty :: float64

record krakenBook =
  krb_Symbol :: string
  krb_Bids :: "krakenBookLevel list"
  krb_Asks :: "krakenBookLevel list"
  krb_Checksum :: int
  krb_Timestamp :: string

definition krakenEnvelope_zero :: krakenEnvelope where
  "krakenEnvelope_zero =
     \<lparr>kre_Channel = [], kre_Type = [], kre_Data = None, kre_Method = [], kre_Success = None,
      kre_Error = []\<rparr>"

definition dec_krakenEnvelope :: "krakenEnvelope dec" where
  "dec_krakenEnvelope = dec_struct
     [(''channel'', into kre_Channel kre_Channel_update dec_string),
      (''type'', into kre_Type kre_Type_update dec_string),
      (''data'', into kre_Data kre_Data_update dec_raw),
      (''method'', into kre_Method kre_Method_update dec_string),
      (''success'', into kre_Success kre_Success_update (dec_ptr False dec_bool)),
      (''error'', into kre_Error kre_Error_update dec_string)]"

definition dec_krakenTrades :: "krakenTrade list dec" where
  "dec_krakenTrades =
     dec_slice \<lparr>krt_Symbol = [], krt_Side = [], krt_Price = f_zero False, krt_Qty = f_zero False,
                krt_OrdType = [], krt_TradeID = 0, krt_Timestamp = []\<rparr> (dec_struct
     [(''symbol'', into krt_Symbol krt_Symbol_update dec_string),
      (''side'', into krt_Side krt_Side_update dec_string),
      (''price'', into krt_Price krt_Price_update dec_float64),
      (''qty'', into krt_Qty krt_Qty_update dec_float64),
      (''ord_type'', into krt_OrdType krt_OrdType_update dec_string),
      (''trade_id'', into krt_TradeID krt_TradeID_update dec_int64),
      (''timestamp'', into krt_Timestamp krt_Timestamp_update dec_string)])"

definition dec_krakenLevels :: "krakenBookLevel list dec" where
  "dec_krakenLevels =
     dec_slice \<lparr>krl_Price = f_zero False, krl_Qty = f_zero False\<rparr> (dec_struct
     [(''price'', into krl_Price krl_Price_update dec_float64),
      (''qty'', into krl_Qty krl_Qty_update dec_float64)])"

definition dec_krakenBooks :: "krakenBook list dec" where
  "dec_krakenBooks =
     dec_slice \<lparr>krb_Symbol = [], krb_Bids = [], krb_Asks = [], krb_Checksum = 0,
                krb_Timestamp = []\<rparr> (dec_struct
     [(''symbol'', into krb_Symbol krb_Symbol_update dec_string),
      (''bids'', into krb_Bids krb_Bids_update dec_krakenLevels),
      (''asks'', into krb_Asks krb_Asks_update dec_krakenLevels),
      (''checksum'', into krb_Checksum krb_Checksum_update dec_uint32),
      (''timestamp'', into krb_Timestamp krb_Timestamp_update dec_string)])"

section \<open>Operations\<close>

definition NewKraken :: "string list \<Rightarrow> int64 \<Rightarrow> Kraken" where
  "NewKraken symbols depth =
     \<lparr>kr_symbols = symbols, kr_depth = (if depth \<le> 0 then 10 else depth)\<rparr>"

definition Kraken_Name :: "Kraken \<Rightarrow> string" where
  "Kraken_Name k = VenueKraken"

definition Kraken_URL :: "Kraken \<Rightarrow> string" where
  "Kraken_URL k = ''wss://ws.kraken.com/v2''"

definition KrakenSymbol :: "string \<Rightarrow> string" where
  "KrakenSymbol canonical = ReplaceAll (canonicalPair canonical) CHR ''-'' ''/''"

definition Kraken_Subscriptions :: "Kraken \<Rightarrow> string list \<Rightarrow> Kraken \<times> krakenSubscribe list" where
  "Kraken_Subscriptions k symbols =
     (let k' = (if symbols \<noteq> [] then k\<lparr>kr_symbols := symbols\<rparr> else k);
          pairs = map KrakenSymbol (kr_symbols k')
      in (k',
          [\<lparr>krs_Method = ''subscribe'',
            krs_Params = \<lparr>krp_Channel = ''trade'', krp_Symbol = pairs, krp_Depth = 0,
                          krp_Snapshot = Some True\<rparr>, krs_ReqID = 1\<rparr>,
           \<lparr>krs_Method = ''subscribe'',
            krs_Params = \<lparr>krp_Channel = ''book'', krp_Symbol = pairs, krp_Depth = kr_depth k',
                          krp_Snapshot = Some True\<rparr>, krs_ReqID = 2\<rparr>]))"

definition kr_trade_event :: "gotime \<Rightarrow> krakenTrade \<Rightarrow> Event" where
  "kr_trade_event now t =
     (let sym = canonicalPair (krt_Symbol t)
      in \<lparr>Event_Kind = KindTrade, Event_Venue = VenueKraken, Event_Symbol = sym,
          Event_Sequence = krt_TradeID t,
          Event_Trade = Some \<lparr>Trade_Venue = VenueKraken, Trade_Symbol = sym,
            Trade_TradeID = FormatInt (krt_TradeID t), Trade_Price = krt_Price t,
            Trade_Size = krt_Qty t, Trade_Side = NormalizeSide (krt_Side t),
            Trade_EventTimeUS = parseRFC3339Micros (krt_Timestamp t) now,
            Trade_IngestTimeUS = UnixMicro now, Trade_Sequence = krt_TradeID t\<rparr>,
          Event_Book = None, Event_Chain = None\<rparr>)"

definition kr_decodeTrades :: "krakenEnvelope \<Rightarrow> gotime \<Rightarrow> Event list result" where
  "kr_decodeTrades env now =
     (case UnmarshalRaw dec_krakenTrades [] (kre_Data env) of
        Inl err \<Rightarrow> Inl (Errorf ''kraken trade data: %w'' [] (Some err))
      | Inr trades \<Rightarrow> Inr (map (kr_trade_event now) trades))"

definition kr_level :: "krakenBookLevel \<Rightarrow> Level" where
  "kr_level l = \<lparr>Level_Price = krl_Price l, Level_Size = krl_Qty l\<rparr>"

definition kr_book_event :: "bool \<Rightarrow> gotime \<Rightarrow> krakenBook \<Rightarrow> Event" where
  "kr_book_event isSnapshot now b =
     (let sym = canonicalPair (krb_Symbol b)
      in \<lparr>Event_Kind = KindBookDelta, Event_Venue = VenueKraken, Event_Symbol = sym,
          Event_Sequence = NoSequence, Event_Trade = None,
          Event_Book = Some \<lparr>Book_Venue = VenueKraken, Book_Symbol = sym,
            Book_IsSnapshot = isSnapshot,
            Book_Bids = map kr_level (krb_Bids b), Book_Asks = map kr_level (krb_Asks b),
            Book_EventTimeUS = parseRFC3339Micros (krb_Timestamp b) now,
            Book_IngestTimeUS = UnixMicro now, Book_Sequence = NoSequence\<rparr>,
          Event_Chain = None\<rparr>)"

definition kr_decodeBook :: "krakenEnvelope \<Rightarrow> gotime \<Rightarrow> Event list result" where
  "kr_decodeBook env now =
     (case UnmarshalRaw dec_krakenBooks [] (kre_Data env) of
        Inl err \<Rightarrow> Inl (Errorf ''kraken book data: %w'' [] (Some err))
      | Inr books \<Rightarrow> Inr (map (kr_book_event (kre_Type env = ''snapshot'') now) books))"

definition kr_dispatch :: "krakenEnvelope \<Rightarrow> gotime \<Rightarrow> Event list result" where
  "kr_dispatch env now =
     (if kre_Method env \<noteq> '''' then
        (if kre_Success env = Some False
         then Inl (Errorf ''kraken %s failed: %s'' [kre_Method env, kre_Error env] None)
         else Inr [])
      else if kre_Channel env = ''trade'' then kr_decodeTrades env now
      else if kre_Channel env = ''book'' then kr_decodeBook env now
      else Inr [])"

definition Kraken_Decode :: "Kraken \<Rightarrow> string \<Rightarrow> gotime \<Rightarrow> Kraken \<times> Event list result" where
  "Kraken_Decode k raw now =
     (k, case Unmarshal dec_krakenEnvelope krakenEnvelope_zero raw of
           Inl err \<Rightarrow> Inl (Errorf ''kraken envelope: %w'' [] (Some err))
         | Inr env \<Rightarrow> kr_dispatch env now)"

section \<open>Facts\<close>

lemma kr_trade_event_facts [simp]:
  "event_wf (kr_trade_event now t)"
  "Event_Venue (kr_trade_event now t) = VenueKraken"
  "Event_Sequence (kr_trade_event now t) = krt_TradeID t"
  by (simp_all add: kr_trade_event_def event_wf_def Let_def)

lemma kr_book_event_facts [simp]:
  "event_wf (kr_book_event snap now b)"
  "Event_Venue (kr_book_event snap now b) = VenueKraken"
  "Event_Sequence (kr_book_event snap now b) = NoSequence"
  by (simp_all add: kr_book_event_def event_wf_def Let_def)

text \<open>What an entry and its event share, field by field.\<close>

lemma kr_level_fields: "(Level_Price (kr_level l), Level_Size (kr_level l)) = (krl_Price l, krl_Qty l)"
  by (simp add: kr_level_def)

lemma kr_levels_fields:
  "map (\<lambda>l. (Level_Price l, Level_Size l)) (map kr_level ls) = map (\<lambda>l. (krl_Price l, krl_Qty l)) ls"
  by (simp add: comp_def kr_level_fields)

abbreviation trade_of :: "gotime \<Rightarrow> krakenTrade \<Rightarrow> Event \<Rightarrow> bool" where
  "trade_of now t ev \<equiv>
     Event_Kind ev = KindTrade \<and> Event_Venue ev = VenueKraken
   \<and> Event_Symbol ev = canonicalPair (krt_Symbol t) \<and> Event_Sequence ev = krt_TradeID t
   \<and> Event_Book ev = None \<and> Event_Chain ev = None
   \<and> (\<exists>tr. Event_Trade ev = Some tr
        \<and> Trade_Venue tr = VenueKraken \<and> Trade_Symbol tr = canonicalPair (krt_Symbol t)
        \<and> Trade_TradeID tr = FormatInt (krt_TradeID t)
        \<and> Trade_Price tr = krt_Price t \<and> Trade_Size tr = krt_Qty t
        \<and> Trade_Side tr = NormalizeSide (krt_Side t)
        \<and> Trade_EventTimeUS tr = parseRFC3339Micros (krt_Timestamp t) now
        \<and> Trade_IngestTimeUS tr = UnixMicro now \<and> Trade_Sequence tr = krt_TradeID t)"

abbreviation book_of :: "bool \<Rightarrow> gotime \<Rightarrow> krakenBook \<Rightarrow> Event \<Rightarrow> bool" where
  "book_of snap now b ev \<equiv>
     Event_Kind ev = KindBookDelta \<and> Event_Venue ev = VenueKraken
   \<and> Event_Symbol ev = canonicalPair (krb_Symbol b) \<and> Event_Sequence ev = NoSequence
   \<and> Event_Trade ev = None \<and> Event_Chain ev = None
   \<and> (\<exists>d. Event_Book ev = Some d
        \<and> Book_Venue d = VenueKraken \<and> Book_Symbol d = canonicalPair (krb_Symbol b)
        \<and> Book_IsSnapshot d = snap
        \<and> map (\<lambda>l. (Level_Price l, Level_Size l)) (Book_Bids d) = map (\<lambda>l. (krl_Price l, krl_Qty l)) (krb_Bids b)
        \<and> map (\<lambda>l. (Level_Price l, Level_Size l)) (Book_Asks d) = map (\<lambda>l. (krl_Price l, krl_Qty l)) (krb_Asks b)
        \<and> Book_EventTimeUS d = parseRFC3339Micros (krb_Timestamp b) now
        \<and> Book_IngestTimeUS d = UnixMicro now \<and> Book_Sequence d = NoSequence)"

lemma kr_trade_event_of: "trade_of now t (kr_trade_event now t)"
  by (simp add: kr_trade_event_def Let_def)

lemma kr_book_event_of: "book_of snap now b (kr_book_event snap now b)"
  by (simp add: kr_book_event_def Let_def comp_def kr_level_fields)

lemma list_all2_mapped: "(\<And>x. P x (f x)) \<Longrightarrow> list_all2 P xs (map f xs)"
  by (induction xs) auto

text \<open>The outcomes of a frame whose decoding succeeds.\<close>

lemma kr_dispatch_elim:
  assumes "kr_dispatch env now = Inr evs"
  obtains (control) "kre_Method env \<noteq> ''''" "evs = []"
  | (trades) ts where "kre_Method env = ''''" "kre_Channel env = ''trade''"
      "UnmarshalRaw dec_krakenTrades [] (kre_Data env) = Inr ts" "evs = map (kr_trade_event now) ts"
  | (books) bs where "kre_Method env = ''''" "kre_Channel env = ''book''"
      "UnmarshalRaw dec_krakenBooks [] (kre_Data env) = Inr bs"
      "evs = map (kr_book_event (kre_Type env = ''snapshot'') now) bs"
  | (other) "kre_Method env = ''''" "kre_Channel env \<notin> {''trade'', ''book''}" "evs = []"
proof -
  consider "kre_Method env \<noteq> ''''" | "kre_Method env = ''''" "kre_Channel env = ''trade''"
    | "kre_Method env = ''''" "kre_Channel env = ''book''"
    | "kre_Method env = ''''" "kre_Channel env \<notin> {''trade'', ''book''}" by blast
  then show thesis
  proof cases
    case 1
    with assms show thesis by (intro control) (auto simp: kr_dispatch_def split: if_splits)
  next
    case 2
    with assms show thesis
      by (auto simp: kr_dispatch_def kr_decodeTrades_def split: sum.splits intro: trades)
  next
    case 3
    with assms show thesis
      by (auto simp: kr_dispatch_def kr_decodeBook_def split: sum.splits intro: books)
  next
    case 4
    with assms show thesis by (intro other) (auto simp: kr_dispatch_def)
  qed
qed

lemma kr_dispatch_events:
  "kr_dispatch env now = Inr evs \<Longrightarrow> e \<in> set evs \<Longrightarrow> event_wf e \<and> Event_Venue e = VenueKraken"
  by (erule kr_dispatch_elim) auto

interpretation kraken: venue_decoder Kraken_Decode Kraken_Name
  by unfold_locales
     (auto simp: Kraken_Decode_def Kraken_Name_def split: sum.splits dest: kr_dispatch_events)

section \<open>A concrete frame\<close>

definition kraken_sample :: string where
  \<open>kraken_sample = ''{"channel":"trade","type":"update","data":[{"symbol":"BTC/USD","side":"buy","price":42000.5,"qty":0.25,"ord_type":"market","trade_id":77,"timestamp":"2024-01-01T00:00:00Z"}]}''\<close>

definition kraken_sample_env :: krakenEnvelope where
  "kraken_sample_env =
     (case Unmarshal dec_krakenEnvelope krakenEnvelope_zero kraken_sample of
        Inr env \<Rightarrow> env | Inl _ \<Rightarrow> krakenEnvelope_zero)"

text \<open>The frame is parsed and decoded once; the witnesses read the facts off.\<close>

lemma kraken_sample_run:
  "case Unmarshal dec_krakenEnvelope krakenEnvelope_zero kraken_sample of
     Inl _ \<Rightarrow> False
   | Inr env \<Rightarrow>
       kre_Method env = '''' \<and> kre_Channel env = ''trade'' \<and>
       (case kr_dispatch env 0 of Inr evs \<Rightarrow> length evs = 1 | Inl _ \<Rightarrow> False)"
  by code_simp

lemma kraken_sample_facts:
  "kre_Method kraken_sample_env = ''''" "kre_Channel kraken_sample_env = ''trade''"
  "\<exists>evs. kr_dispatch kraken_sample_env 0 = Inr evs \<and> length evs = 1"
  "\<exists>evs. Kraken_Decode k kraken_sample 0 = (k, Inr evs) \<and> length evs = 1"
  using kraken_sample_run by (auto simp: kraken_sample_env_def Kraken_Decode_def split: sum.splits)

definition kraken_book_sample :: string where
  \<open>kraken_book_sample = ''{"channel":"book","type":"snapshot","data":[{"symbol":"BTC/USD","bids":[{"price":42000.5,"qty":0.25}],"asks":[{"price":42001.5,"qty":0.75}],"checksum":1,"timestamp":"2024-01-01T00:00:00Z"}]}''\<close>

lemma kraken_book_sample_run:
  "case Unmarshal dec_krakenEnvelope krakenEnvelope_zero kraken_book_sample of
     Inl _ \<Rightarrow> False
   | Inr env \<Rightarrow>
       kre_Method env = '''' \<and> kre_Channel env = ''book'' \<and> kre_Type env = ''snapshot'' \<and>
       (case kr_dispatch env 0 of Inr evs \<Rightarrow> length evs = 1 | Inl _ \<Rightarrow> False)"
  by code_simp

section \<open>Properties\<close>

text \<open>
  The slash form sent to Kraken comes back as the canonical pair, for any
  spelling of the symbol in the configuration.
\<close>

theorem kraken_symbol_roundtrip: "canonicalPair (KrakenSymbol s) = canonicalPair s"
proof -
  let ?slash = "\<lambda>c. if c = CHR ''-'' then CHR ''/'' else c"
  have "is_space (?slash c) = is_space c" for c by (simp add: is_space_def code_def)
  then have "TrimSpace (KrakenSymbol s) = map ?slash (canonicalPair s)"
    using canonicalPair_canonical_spaces [of s]
    by (simp add: KrakenSymbol_def ReplaceAll_byte TrimSpace_map)
  moreover have "canon_char (?slash (canon_char c)) = canon_char c" for c
    by (cases "canon_char c = CHR ''-''") (auto simp: canon_char_def [of "CHR ''/''"] upper_char_def is_lower_def code_def Let_def)
  ultimately show ?thesis by (simp add: canonicalPair_map comp_def)
qed

text \<open>
  C25. What a Kraken data frame decodes to, field by field. A trade frame gives one trade
  per entry, in order, with the entry's pair in canonical form, its price, size, side, time
  and trade id, the last also as its sequence. A book frame gives one unsequenced delta per
  book, in order, with the price and the size of every level of both sides, in order, and
  a snapshot exactly when the frame says so. A reply to a request and any other channel
  give nothing. The adapter itself never changes.
\<close>

theorem kraken_frame_complete:
  assumes "Unmarshal dec_krakenEnvelope krakenEnvelope_zero raw = Inr env"
    and "Kraken_Decode k raw now = (k', Inr evs)"
  shows "k' = k \<and>
    (if kre_Method env \<noteq> '''' then evs = []
     else if kre_Channel env = ''trade'' then
       \<exists>ts. UnmarshalRaw dec_krakenTrades [] (kre_Data env) = Inr ts \<and>
         list_all2 (\<lambda>t ev.
           Event_Kind ev = KindTrade \<and> Event_Venue ev = VenueKraken
         \<and> Event_Symbol ev = canonicalPair (krt_Symbol t) \<and> Event_Sequence ev = krt_TradeID t
         \<and> Event_Book ev = None \<and> Event_Chain ev = None
         \<and> (\<exists>tr. Event_Trade ev = Some tr
              \<and> Trade_Venue tr = VenueKraken \<and> Trade_Symbol tr = canonicalPair (krt_Symbol t)
              \<and> Trade_TradeID tr = FormatInt (krt_TradeID t)
              \<and> Trade_Price tr = krt_Price t \<and> Trade_Size tr = krt_Qty t
              \<and> Trade_Side tr = NormalizeSide (krt_Side t)
              \<and> Trade_EventTimeUS tr = parseRFC3339Micros (krt_Timestamp t) now
              \<and> Trade_IngestTimeUS tr = UnixMicro now \<and> Trade_Sequence tr = krt_TradeID t)) ts evs
     else if kre_Channel env = ''book'' then
       \<exists>bs. UnmarshalRaw dec_krakenBooks [] (kre_Data env) = Inr bs \<and>
         list_all2 (\<lambda>b ev.
           Event_Kind ev = KindBookDelta \<and> Event_Venue ev = VenueKraken
         \<and> Event_Symbol ev = canonicalPair (krb_Symbol b) \<and> Event_Sequence ev = NoSequence
         \<and> Event_Trade ev = None \<and> Event_Chain ev = None
         \<and> (\<exists>d. Event_Book ev = Some d
              \<and> Book_Venue d = VenueKraken \<and> Book_Symbol d = canonicalPair (krb_Symbol b)
              \<and> Book_IsSnapshot d = (kre_Type env = ''snapshot'')
              \<and> map (\<lambda>l. (Level_Price l, Level_Size l)) (Book_Bids d) = map (\<lambda>l. (krl_Price l, krl_Qty l)) (krb_Bids b)
              \<and> map (\<lambda>l. (Level_Price l, Level_Size l)) (Book_Asks d) = map (\<lambda>l. (krl_Price l, krl_Qty l)) (krb_Asks b)
              \<and> Book_EventTimeUS d = parseRFC3339Micros (krb_Timestamp b) now
              \<and> Book_IngestTimeUS d = UnixMicro now \<and> Book_Sequence d = NoSequence)) bs evs
     else evs = [])"
proof -
  have d: "kr_dispatch env now = Inr evs" and k: "k' = k"
    using assms by (simp_all add: Kraken_Decode_def)
  from d show ?thesis
  proof (cases rule: kr_dispatch_elim)
    case (trades ts)
    with k list_all2_mapped [of "trade_of now", OF kr_trade_event_of] show ?thesis by simp
  next
    case (books bs)
    with k list_all2_mapped [of "book_of (kre_Type env = ''snapshot'') now", OF kr_book_event_of] show ?thesis by simp
  qed (use k in simp_all)
qed

text \<open>At a snapshot: its one book arrives as one delta, marked as a snapshot, levels intact.\<close>

theorem kraken_frame_complete_witness:
  "\<exists>env evs bs. Unmarshal dec_krakenEnvelope krakenEnvelope_zero kraken_book_sample = Inr env
     \<and> Kraken_Decode (NewKraken [] 10) kraken_book_sample 0 = (NewKraken [] 10, Inr evs)
     \<and> length evs = 1 \<and> UnmarshalRaw dec_krakenBooks [] (kre_Data env) = Inr bs
     \<and> list_all2 (\<lambda>b ev. \<exists>d. Event_Book ev = Some d \<and> Book_IsSnapshot d
          \<and> map (\<lambda>l. (Level_Price l, Level_Size l)) (Book_Bids d) = map (\<lambda>l. (krl_Price l, krl_Qty l)) (krb_Bids b)) bs evs"
proof -
  let ?k = "NewKraken [] 10"
  obtain env where env: "Unmarshal dec_krakenEnvelope krakenEnvelope_zero kraken_book_sample = Inr env"
    "kre_Method env = ''''" "kre_Channel env = ''book''" "kre_Type env = ''snapshot''"
    "case kr_dispatch env 0 of Inr evs \<Rightarrow> length evs = 1 | Inl _ \<Rightarrow> False"
    using kraken_book_sample_run by (auto split: sum.splits)
  then obtain evs where evs: "Kraken_Decode ?k kraken_book_sample 0 = (?k, Inr evs)" "length evs = 1"
    by (auto simp: Kraken_Decode_def split: sum.splits)
  note * = kraken_frame_complete [OF env(1) evs(1), THEN conjunct2]
  obtain bs where bs: "UnmarshalRaw dec_krakenBooks [] (kre_Data env) = Inr bs"
    "list_all2 (book_of True 0) bs evs"
    using * env(2-4) by auto
  from bs(2) have "list_all2 (\<lambda>b ev. \<exists>d. Event_Book ev = Some d \<and> Book_IsSnapshot d
       \<and> map (\<lambda>l. (Level_Price l, Level_Size l)) (Book_Bids d) = map (\<lambda>l. (krl_Price l, krl_Qty l)) (krb_Bids b)) bs evs"
    by (rule list_all2_mono) blast
  with bs(1) env(1) evs show ?thesis by blast
qed

end
