(* ===== verification/Gap.thy ===== *)
theory Gap
  imports Model
begin

text \<open>
  Sequence continuity, \<open>internal/gap/detector.go\<close>. The detector keeps the last
  sequence number of every stream, keyed by venue, symbol and channel, and classifies
  each observation. Its mutex serialises the operations, so each is one atomic state
  change here; \<open>observe_run\<close> is any interleaving of observations on any streams.

  The lemmas show: the recorded watermarks are valid sequence numbers whatever is
  called (\<open>detector_wf\<close>); streams do not influence one another; a retransmit never
  moves a watermark; and the \<open>Missing\<close> totals account exactly for the distance a
  stream advanced.
\<close>

section \<open>Data\<close>

datatype Status =
    StatusOK | StatusFirst | StatusGap | StatusDuplicate | StatusRegression | StatusUnsequenced

definition Status_String :: "Status \<Rightarrow> string" where
  "Status_String s =
     (case s of
        StatusOK \<Rightarrow> ''ok''
      | StatusFirst \<Rightarrow> ''first''
      | StatusGap \<Rightarrow> ''gap''
      | StatusDuplicate \<Rightarrow> ''duplicate''
      | StatusRegression \<Rightarrow> ''regression''
      | StatusUnsequenced \<Rightarrow> ''unsequenced'')"

record Key =
  Key_Venue :: string
  Key_Symbol :: string
  Key_Channel :: string

definition Key_String :: "Key \<Rightarrow> string" where
  "Key_String k = Key_Venue k @ ''/'' @ Key_Symbol k @ ''/'' @ Key_Channel k"

record Result =
  Result_Key :: Key
  Result_Status :: Status
  Result_Expected :: int64
  Result_Got :: int64
  Result_Missing :: int64

definition NeedsResync :: "Result \<Rightarrow> bool" where
  "NeedsResync r \<longleftrightarrow> Result_Status r = StatusGap \<or> Result_Status r = StatusRegression"

record Detector =
  last_seq :: "Key \<rightharpoonup> int64"
  regressionTolerance :: int64

section \<open>Operations\<close>

definition NewWithTolerance :: "int64 \<Rightarrow> Detector" where
  "NewWithTolerance tolerance = \<lparr>last_seq = Map.empty, regressionTolerance = tolerance\<rparr>"

definition New :: Detector where
  "New = NewWithTolerance 1000"

definition Observe :: "Detector \<Rightarrow> Key \<Rightarrow> int64 \<Rightarrow> Result \<times> Detector" where
  "Observe d k seq =
     (if seq < 0 then
        (\<lparr>Result_Key = k, Result_Status = StatusUnsequenced, Result_Expected = 0,
          Result_Got = seq, Result_Missing = 0\<rparr>, d)
      else case last_seq d k of
        None \<Rightarrow>
          (\<lparr>Result_Key = k, Result_Status = StatusFirst, Result_Expected = seq,
            Result_Got = seq, Result_Missing = 0\<rparr>,
           d\<lparr>last_seq := (last_seq d)(k \<mapsto> seq)\<rparr>)
      | Some lst \<Rightarrow>
          (let expected = wrap64 (lst + 1) in
           if seq = expected then
             (\<lparr>Result_Key = k, Result_Status = StatusOK, Result_Expected = expected,
               Result_Got = seq, Result_Missing = 0\<rparr>,
              d\<lparr>last_seq := (last_seq d)(k \<mapsto> seq)\<rparr>)
           else if expected < seq then
             (\<lparr>Result_Key = k, Result_Status = StatusGap, Result_Expected = expected,
               Result_Got = seq, Result_Missing = wrap64 (seq - expected)\<rparr>,
              d\<lparr>last_seq := (last_seq d)(k \<mapsto> seq)\<rparr>)
           else if wrap64 (lst - seq) \<le> regressionTolerance d then
             (\<lparr>Result_Key = k, Result_Status = StatusDuplicate, Result_Expected = expected,
               Result_Got = seq, Result_Missing = 0\<rparr>, d)
           else
             (\<lparr>Result_Key = k, Result_Status = StatusRegression, Result_Expected = expected,
               Result_Got = seq, Result_Missing = 0\<rparr>,
              d\<lparr>last_seq := (last_seq d)(k \<mapsto> seq)\<rparr>)))"

definition Reset :: "Detector \<Rightarrow> Key \<Rightarrow> Detector" where
  "Reset d k = d\<lparr>last_seq := (last_seq d)(k := None)\<rparr>"

definition ResetVenue :: "Detector \<Rightarrow> string \<Rightarrow> Detector" where
  "ResetVenue d venue = d\<lparr>last_seq := map_delete_if (\<lambda>k. Key_Venue k = venue) (last_seq d)\<rparr>"

definition Last :: "Detector \<Rightarrow> Key \<Rightarrow> int64 \<times> bool" where
  "Last d k = (case last_seq d k of None \<Rightarrow> (0, False) | Some v \<Rightarrow> (v, True))"

text \<open>Observations of many goroutines in the order the mutex admits them.\<close>

fun run_with :: "('d \<Rightarrow> 'k \<Rightarrow> 's \<Rightarrow> 'r \<times> 'd) \<Rightarrow> 'd \<Rightarrow> ('k \<times> 's) list \<Rightarrow> 'r list \<times> 'd" where
  "run_with obs d [] = ([], d)"
| "run_with obs d ((k, s) # rest) =
     (let (r, d1) = obs d k s; (rs, d2) = run_with obs d1 rest in (r # rs, d2))"

abbreviation observe_run :: "Detector \<Rightarrow> (Key \<times> int64) list \<Rightarrow> Result list \<times> Detector" where
  "observe_run \<equiv> run_with Observe"

section \<open>The classification\<close>

abbreviation status_of :: "Detector \<Rightarrow> Key \<Rightarrow> int64 \<Rightarrow> Status" where
  "status_of d k s \<equiv> Result_Status (fst (Observe d k s))"

text \<open>
  What the verdict is meant to be, over unbounded integers: the distance between the
  observation and the watermark decides.
\<close>

definition verdict :: "int64 \<Rightarrow> int64 option \<Rightarrow> int64 \<Rightarrow> Status" where
  "verdict tol w s =
     (if s < 0 then StatusUnsequenced
      else case w of
        None \<Rightarrow> StatusFirst
      | Some l \<Rightarrow>
          if s = l + 1 then StatusOK
          else if l + 1 < s then StatusGap
          else if l - s \<le> tol then StatusDuplicate
          else StatusRegression)"

text \<open>Where the watermark goes: it follows the observation except on a duplicate.\<close>

definition advance :: "int64 \<Rightarrow> int64 option \<Rightarrow> int64 \<Rightarrow> int64 option" where
  "advance tol w s =
     (if verdict tol w s \<in> {StatusUnsequenced, StatusDuplicate} then w else Some s)"

definition detector_wf :: "Detector \<Rightarrow> bool" where
  "detector_wf d \<longleftrightarrow> (\<forall>k l. last_seq d k = Some l \<longrightarrow> 0 \<le> l \<and> l \<le> max_int64)"

lemma detector_wfD: "detector_wf d \<Longrightarrow> last_seq d k = Some l \<Longrightarrow> 0 \<le> l \<and> l \<le> max_int64"
  by (simp add: detector_wf_def)

text \<open>
  Below the top of the range the code computes exactly that verdict. At the top,
  \<open>last + 1\<close> wraps around and every observation of the stream looks like a gap.
\<close>

lemma Observe_spec:
  assumes wf: "detector_wf d" and s: "in_int64 s" and top: "last_seq d k \<noteq> Some max_int64"
  shows "fst (Observe d k s) =
           \<lparr>Result_Key = k, Result_Status = verdict (regressionTolerance d) (last_seq d k) s,
             Result_Expected =
               (if s < 0 then 0 else case last_seq d k of None \<Rightarrow> s | Some l \<Rightarrow> l + 1),
             Result_Got = s,
             Result_Missing =
               (if verdict (regressionTolerance d) (last_seq d k) s = StatusGap
                then s - (the (last_seq d k) + 1) else 0)\<rparr>"
    and "snd (Observe d k s) =
           d\<lparr>last_seq := (last_seq d)(k := advance (regressionTolerance d) (last_seq d k) s)\<rparr>"
proof -
  have "wrap64 (l + 1) = l + 1" "0 \<le> l" "l < max_int64"
    "0 \<le> s \<Longrightarrow> wrap64 (l - s) = l - s"
    "0 \<le> s \<Longrightarrow> wrap64 (s - (l + 1)) = s - (l + 1)" if "last_seq d k = Some l" for l
  proof -
    from detector_wfD [OF wf that] top that show l: "0 \<le> l" "l < max_int64" by auto
    then show "wrap64 (l + 1) = l + 1" by (rule wrap64_succ)
    show "wrap64 (l - s) = l - s" if "0 \<le> s"
      using l s that by (intro wrap64_id) (simp add: in_int64_def)
    show "wrap64 (s - (l + 1)) = s - (l + 1)" if "0 \<le> s"
      using l s that by (intro wrap64_id) (simp add: in_int64_def)
  qed
  then show "fst (Observe d k s) =
           \<lparr>Result_Key = k, Result_Status = verdict (regressionTolerance d) (last_seq d k) s,
             Result_Expected =
               (if s < 0 then 0 else case last_seq d k of None \<Rightarrow> s | Some l \<Rightarrow> l + 1),
             Result_Got = s,
             Result_Missing =
               (if verdict (regressionTolerance d) (last_seq d k) s = StatusGap
                then s - (the (last_seq d k) + 1) else 0)\<rparr>"
    and "snd (Observe d k s) =
           d\<lparr>last_seq := (last_seq d)(k := advance (regressionTolerance d) (last_seq d k) s)\<rparr>"
    by (auto simp: Observe_def verdict_def advance_def Let_def fun_upd_idem split: option.splits)
qed

section \<open>The invariant\<close>

lemma detector_wf_New: "detector_wf (NewWithTolerance tol)"
  by (simp add: detector_wf_def NewWithTolerance_def)

lemma detector_wf_Observe: "detector_wf d \<Longrightarrow> s \<le> max_int64 \<Longrightarrow> detector_wf (snd (Observe d k s))"
  by (auto simp: detector_wf_def Observe_def Let_def split: option.splits)

lemma detector_wf_Reset: "detector_wf d \<Longrightarrow> detector_wf (Reset d k)"
  by (simp add: detector_wf_def Reset_def)

lemma detector_wf_ResetVenue: "detector_wf d \<Longrightarrow> detector_wf (ResetVenue d v)"
  by (simp add: detector_wf_def ResetVenue_def map_delete_if_def)

lemmas detector_wf_ops =
  detector_wf_New detector_wf_Observe detector_wf_Reset detector_wf_ResetVenue

section \<open>Streams are independent\<close>

text \<open>
  What a client of a sequence tracker may rely on: an observation reads and writes the
  watermark of its own key only, and the configuration never changes.
\<close>

locale sequence_tracker =
  fixes obs :: "'d \<Rightarrow> 'k \<Rightarrow> 's \<Rightarrow> 'r \<times> 'd"
    and water :: "'d \<Rightarrow> 'k \<Rightarrow> 'w"
    and cfg :: "'d \<Rightarrow> 'c"
  assumes obs_frame: "k' \<noteq> k \<Longrightarrow> water (snd (obs d k s)) k' = water d k'"
    and obs_cfg: "cfg (snd (obs d k s)) = cfg d"
    and obs_local:
      "water d k = water e k \<Longrightarrow> cfg d = cfg e \<Longrightarrow>
       fst (obs d k s) = fst (obs e k s) \<and> water (snd (obs d k s)) k = water (snd (obs e k s)) k"
begin

lemma run_cfg: "cfg (snd (run_with obs d os)) = cfg d"
proof (induction os arbitrary: d)
  case (Cons ob os)
  then show ?case by (cases ob) (simp add: obs_cfg split_beta)
qed simp

lemma run_project:
  assumes "water d k = water e k" and "cfg d = cfg e"
  shows "map snd (filter (\<lambda>(ob, r). fst ob = k) (zip os (fst (run_with obs d os)))) =
           fst (run_with obs e (filter (\<lambda>ob. fst ob = k) os))
       \<and> water (snd (run_with obs d os)) k =
           water (snd (run_with obs e (filter (\<lambda>ob. fst ob = k) os))) k"
  using assms
proof (induction os arbitrary: d e)
  case Nil
  then show ?case by simp
next
  case (Cons ob os)
  obtain k' s where ob: "ob = (k', s)" by (cases ob)
  show ?case
  proof (cases "k' = k")
    case True
    from obs_local [OF Cons.prems, of s] Cons.IH [of "snd (obs d k s)" "snd (obs e k s)"]
    show ?thesis using True ob Cons.prems by (simp add: split_beta obs_cfg)
  next
    case False
    then have "water (snd (obs d k' s)) k = water e k" and "cfg (snd (obs d k' s)) = cfg e"
      using Cons.prems by (simp_all add: obs_frame obs_cfg)
    from Cons.IH [OF this] show ?thesis using False ob by (simp add: split_beta)
  qed
qed

end

interpretation detector: sequence_tracker Observe last_seq regressionTolerance
  by unfold_locales (auto simp: Observe_def Let_def split: option.splits)

section \<open>One stream\<close>

abbreviation on_key :: "Key \<Rightarrow> int64 list \<Rightarrow> (Key \<times> int64) list" where
  "on_key k ss \<equiv> map (Pair k) ss"

lemma run_with_Cons:
  "fst (run_with obs d ((k, s) # os)) = fst (obs d k s) # fst (run_with obs (snd (obs d k s)) os)"
  "snd (run_with obs d ((k, s) # os)) = snd (run_with obs (snd (obs d k s)) os)"
  by (simp_all add: split_beta)

text \<open>The advance of a watermark, one observation at a time.\<close>

lemma Observe_account:
  assumes wf: "detector_wf d" and l: "last_seq d k = Some l" "l < max_int64"
    and s: "0 \<le> s" "s \<le> max_int64" and nr: "status_of d k s \<noteq> StatusRegression"
  shows "\<exists>l'. last_seq (snd (Observe d k s)) k = Some l' \<and> l' \<le> max l s \<and>
           l' - l = of_bool (status_of d k s = StatusOK) + of_bool (status_of d k s = StatusGap)
                    + Result_Missing (fst (Observe d k s))"
proof -
  have top: "last_seq d k \<noteq> Some max_int64" and s64: "in_int64 s"
    using l s by (auto simp: in_int64_def)
  show ?thesis
    using nr l s unfolding Observe_spec [OF wf s64 top]
    by (auto simp: verdict_def advance_def split: if_splits)
qed

lemma run_account:
  assumes "detector_wf d" and "last_seq d k = Some l" and "l < max_int64"
    and "\<forall>s \<in> set ss. 0 \<le> s \<and> s < max_int64"
    and "\<forall>r \<in> set (fst (observe_run d (on_key k ss))). Result_Status r \<noteq> StatusRegression"
  shows "\<exists>l'. last_seq (snd (observe_run d (on_key k ss))) k = Some l' \<and>
     l' - l = (\<Sum>r \<leftarrow> fst (observe_run d (on_key k ss)).
        of_bool (Result_Status r = StatusOK) + of_bool (Result_Status r = StatusGap) + Result_Missing r)"
  using assms
proof (induction ss arbitrary: d l)
  case Nil
  then show ?case by simp
next
  case (Cons s ss)
  let ?d = "snd (Observe d k s)"
  have s: "0 \<le> s" "s < max_int64" using Cons.prems(4) by auto
  from Cons.prems(5) have nr: "status_of d k s \<noteq> StatusRegression"
    by (simp add: run_with_Cons del: run_with.simps)
  from Observe_account [OF Cons.prems(1-3) _ _ nr] s
  obtain l1 where l1: "last_seq ?d k = Some l1" "l1 \<le> max l s"
    "l1 - l = of_bool (status_of d k s = StatusOK) + of_bool (status_of d k s = StatusGap)
                    + Result_Missing (fst (Observe d k s))"
    by auto
  have "l1 < max_int64" using l1(2) Cons.prems(3) s by simp
  moreover have "detector_wf ?d" using Cons.prems(1) s by (simp add: detector_wf_Observe)
  ultimately obtain l2 where "last_seq (snd (observe_run ?d (on_key k ss))) k = Some l2"
    "l2 - l1 = (\<Sum>r \<leftarrow> fst (observe_run ?d (on_key k ss)).
        of_bool (Result_Status r = StatusOK) + of_bool (Result_Status r = StatusGap) + Result_Missing r)"
    using Cons.IH [of ?d l1] Cons.prems(4,5) l1(1)
    by (auto simp: run_with_Cons simp del: run_with.simps)
  with l1(3) show ?case
    by (auto simp: run_with_Cons simp del: run_with.simps)
qed

lemma Observe_duplicate:
  assumes "detector_wf d" and "last_seq d k = Some l" and "l < max_int64"
    and "0 \<le> s" "s \<le> l" "l - s \<le> regressionTolerance d"
  shows "Result_Status (fst (Observe d k s)) = StatusDuplicate \<and> snd (Observe d k s) = d"
proof -
  have top: "last_seq d k \<noteq> Some max_int64" and s64: "in_int64 s"
    using assms by (auto simp: in_int64_def)
  show ?thesis
    using assms unfolding Observe_spec [OF assms(1) s64 top]
    by (auto simp: verdict_def advance_def fun_upd_idem)
qed

lemma Observe_next:
  assumes "detector_wf d" and "last_seq d k = Some l" and "l < max_int64"
  shows "fst (Observe d k (l + 1)) =
           \<lparr>Result_Key = k, Result_Status = StatusOK, Result_Expected = l + 1,
             Result_Got = l + 1, Result_Missing = 0\<rparr>
       \<and> last_seq (snd (Observe d k (l + 1))) k = Some (l + 1)"
proof -
  have top: "last_seq d k \<noteq> Some max_int64" and s64: "in_int64 (l + 1)"
    using assms detector_wfD [OF assms(1,2)] by (auto simp: in_int64_def)
  show ?thesis
    using assms detector_wfD [OF assms(1,2)] unfolding Observe_spec [OF assms(1) s64 top]
    by (auto simp: verdict_def advance_def)
qed

section \<open>A concrete detector\<close>

definition example_key :: Key where
  "example_key = \<lparr>Key_Venue = ''kraken'', Key_Symbol = ''BTC-USD'', Key_Channel = ''trades''\<rparr>"

definition example_detector :: Detector where
  "example_detector = \<lparr>last_seq = [example_key \<mapsto> 5], regressionTolerance = 1000\<rparr>"

lemma example_detector_simps [simp]:
  "detector_wf example_detector" "last_seq example_detector example_key = Some 5"
  "regressionTolerance example_detector = 1000"
  by (simp_all add: detector_wf_def example_detector_def)

section \<open>Properties\<close>

text \<open>
  C11. Streams are independent: in any interleaving of observations on any
  keys, the verdicts of one stream are those it would get alone.
\<close>

theorem streams_independent:
  "map snd (filter (\<lambda>(ob, r). fst ob = k) (zip obs (fst (observe_run d obs)))) =
     fst (observe_run d (filter (\<lambda>ob. fst ob = k) obs))"
  using detector.run_project [of d k d obs] by simp

text \<open>
  C10. From a watermark \<open>l\<close>, a run of observations without a counter reset
  moves the watermark by exactly the number of in-order and gapped observations plus the
  reported \<open>Missing\<close> totals: no skipped sequence number is left out and none is
  counted twice.
\<close>

theorem missing_accounts_for_advance:
  assumes "detector_wf d" and "last_seq d k = Some l" and "l < max_int64"
    and "\<forall>s \<in> set ss. 0 \<le> s \<and> s < max_int64"
    and "\<forall>r \<in> set (fst (observe_run d (on_key k ss))). Result_Status r \<noteq> StatusRegression"
  shows "\<exists>l'. last_seq (snd (observe_run d (on_key k ss))) k = Some l' \<and>
     l' - l = (\<Sum>r \<leftarrow> fst (observe_run d (on_key k ss)).
        of_bool (Result_Status r = StatusOK) + of_bool (Result_Status r = StatusGap) + Result_Missing r)"
  using assms by (rule run_account)

theorem missing_accounts_for_advance_witness:
  "\<exists>l'. last_seq (snd (observe_run example_detector (on_key example_key [6, 9, 7]))) example_key = Some l' \<and>
     l' - 5 = (\<Sum>r \<leftarrow> fst (observe_run example_detector (on_key example_key [6, 9, 7])).
        of_bool (Result_Status r = StatusOK) + of_bool (Result_Status r = StatusGap) + Result_Missing r)"
  by (rule missing_accounts_for_advance)
     (simp_all add: Observe_def example_detector_def detector_wf_def wrap64_def Let_def)

text \<open>
  A burst of retransmits that reaches at most the regression tolerance
  below the watermark is classified as duplicates one by one, leaves the detector as it
  was, and the next in-order sequence number is accepted without a gap.
\<close>

theorem retransmits_never_rewind:
  assumes "detector_wf d" and "last_seq d k = Some l" and "l < max_int64"
    and "\<forall>s \<in> set ss. 0 \<le> s \<and> s \<le> l \<and> l - s \<le> regressionTolerance d"
  shows "map Result_Status (fst (observe_run d (on_key k (ss @ [l + 1])))) =
           replicate (length ss) StatusDuplicate @ [StatusOK]
       \<and> last_seq (snd (observe_run d (on_key k (ss @ [l + 1])))) k = Some (l + 1)"
  using assms(4)
proof (induction ss)
  case Nil
  then show ?case using Observe_next [OF assms(1-3)] by (simp add: split_beta)
next
  case (Cons s ss)
  then have "Result_Status (fst (Observe d k s)) = StatusDuplicate \<and> snd (Observe d k s) = d"
    using assms by (intro Observe_duplicate) auto
  with Cons show ?case by (simp add: run_with_Cons del: run_with.simps)
qed

theorem retransmits_never_rewind_witness:
  "map Result_Status (fst (observe_run example_detector (on_key example_key ([3, 5] @ [5 + 1])))) =
     replicate (length [3, 5 :: int]) StatusDuplicate @ [StatusOK]
   \<and> last_seq (snd (observe_run example_detector (on_key example_key ([3, 5] @ [5 + 1])))) example_key
       = Some (5 + 1)"
  by (rule retransmits_never_rewind) simp_all

text \<open>
  At the top of the int64 range \<open>last + 1\<close> wraps: a retransmit of the last
  sequence number is then reported as a gap, with a \<open>Missing\<close> of minus one.
\<close>

theorem gap_at_int64_top:
  assumes "last_seq d k = Some max_int64"
  shows "fst (Observe d k max_int64) =
           \<lparr>Result_Key = k, Result_Status = StatusGap, Result_Expected = min_int64,
             Result_Got = max_int64, Result_Missing = - 1\<rparr>"
  using assms by (simp add: Observe_def wrap64_def Let_def)

end
