(* ===== verification/Binance.thy ===== *)
theory Binance
  imports Venue Gap
begin

text \<open>
  The Binance combined-stream adapter, \<open>internal/venue/binance.go\<close>. Unlike the
  other adapters it carries state: the table from venue symbols back to canonical pairs,
  and a cursor per symbol that turns Binance's \<open>[U, u]\<close> update-id ranges into the
  dense counter the gap detector expects. A cursor is a pointer in the source, updated in
  place; here the map holds its value and is updated.
\<close>

section \<open>State\<close>

definition VenueBinance :: string where "VenueBinance = ''binance''"

definition binanceQuoteAliases :: "string \<rightharpoonup> string" where
  "binanceQuoteAliases = [''USD'' \<mapsto> ''USDT'']"

definition binanceKnownQuotes :: "string list" where
  "binanceKnownQuotes =
     [''USDT'', ''USDC'', ''TUSD'', ''FDUSD'', ''BUSD'', ''USD'', ''BTC'', ''ETH'', ''BNB'']"

record binanceBookCursor =
  lastFinalUpdateID :: int64
  dense :: int64
  initialized :: bool

record Binance =
  toCanon :: "string \<rightharpoonup> string"
  bn_symbols :: "string list"
  depthMS :: int64
  bookSeq :: "string \<rightharpoonup> binanceBookCursor"

section \<open>Wire types\<close>

record binanceError =
  bnerr_Code :: int64
  bnerr_Msg :: string

record binanceEnvelope =
  bne_Stream :: string
  bne_Data :: "json option"
  bne_Error :: "binanceError option"

record binanceTrade =
  bnt_EventType :: string
  bnt_EventTimeMS :: int64
  bnt_Symbol :: string
  bnt_TradeID :: int64
  bnt_Price :: string
  bnt_Quantity :: string
  bnt_TradeTimeMS :: int64
  bnt_BuyerIsMaker :: bool
  bnt_Ignore :: bool

record binanceDepth =
  bnd_EventType :: string
  bnd_EventTimeMS :: int64
  bnd_Symbol :: string
  bnd_FirstUpdateID :: int64
  bnd_FinalUpdateID :: int64
  bnd_Bids :: "string list list"
  bnd_Asks :: "string list list"

definition binanceEnvelope_zero :: binanceEnvelope where
  "binanceEnvelope_zero = \<lparr>bne_Stream = [], bne_Data = None, bne_Error = None\<rparr>"

definition dec_binanceEnvelope :: "binanceEnvelope dec" where
  "dec_binanceEnvelope = dec_struct
     [(''stream'', into bne_Stream bne_Stream_update dec_string),
      (''data'', into bne_Data bne_Data_update dec_raw),
      (''error'', into bne_Error bne_Error_update
         (dec_ptr \<lparr>bnerr_Code = 0, bnerr_Msg = []\<rparr> (dec_struct
            [(''code'', into bnerr_Code bnerr_Code_update dec_int64),
             (''msg'', into bnerr_Msg bnerr_Msg_update dec_string)])))]"

definition binanceTrade_zero :: binanceTrade where
  "binanceTrade_zero =
     \<lparr>bnt_EventType = [], bnt_EventTimeMS = 0, bnt_Symbol = [], bnt_TradeID = 0, bnt_Price = [],
      bnt_Quantity = [], bnt_TradeTimeMS = 0, bnt_BuyerIsMaker = False, bnt_Ignore = False\<rparr>"

definition binanceTrade_fields :: "binanceTrade fields" where
  "binanceTrade_fields =
     [(''e'', into bnt_EventType bnt_EventType_update dec_string),
      (''E'', into bnt_EventTimeMS bnt_EventTimeMS_update dec_int64),
      (''s'', into bnt_Symbol bnt_Symbol_update dec_string),
      (''t'', into bnt_TradeID bnt_TradeID_update dec_int64),
      (''p'', into bnt_Price bnt_Price_update dec_string),
      (''q'', into bnt_Quantity bnt_Quantity_update dec_string),
      (''T'', into bnt_TradeTimeMS bnt_TradeTimeMS_update dec_int64),
      (''m'', into bnt_BuyerIsMaker bnt_BuyerIsMaker_update dec_bool),
      (''M'', into bnt_Ignore bnt_Ignore_update dec_bool)]"

definition dec_binanceTrade :: "binanceTrade dec" where
  "dec_binanceTrade = dec_struct binanceTrade_fields"

definition binanceDepth_zero :: binanceDepth where
  "binanceDepth_zero =
     \<lparr>bnd_EventType = [], bnd_EventTimeMS = 0, bnd_Symbol = [], bnd_FirstUpdateID = 0,
      bnd_FinalUpdateID = 0, bnd_Bids = [], bnd_Asks = []\<rparr>"

definition dec_binanceDepth :: "binanceDepth dec" where
  "dec_binanceDepth = dec_struct
     [(''e'', into bnd_EventType bnd_EventType_update dec_string),
      (''E'', into bnd_EventTimeMS bnd_EventTimeMS_update dec_int64),
      (''s'', into bnd_Symbol bnd_Symbol_update dec_string),
      (''U'', into bnd_FirstUpdateID bnd_FirstUpdateID_update dec_int64),
      (''u'', into bnd_FinalUpdateID bnd_FinalUpdateID_update dec_int64),
      (''b'', into bnd_Bids bnd_Bids_update (dec_slice [] (dec_slice [] dec_string))),
      (''a'', into bnd_Asks bnd_Asks_update (dec_slice [] (dec_slice [] dec_string)))]"

section \<open>Symbols and subscription\<close>

definition BinanceSymbol :: "string \<Rightarrow> string" where
  "BinanceSymbol canonical =
     (case SplitN2 (canonicalPair canonical) CHR ''-'' of
        [base, quote] \<Rightarrow>
          base @ (case binanceQuoteAliases quote of Some alias \<Rightarrow> alias | None \<Rightarrow> quote)
      | _ \<Rightarrow> ReplaceAll (canonicalPair canonical) CHR ''-'' '''')"

definition setSymbols :: "Binance \<Rightarrow> string list \<Rightarrow> Binance" where
  "setSymbols b symbols =
     b\<lparr>bn_symbols := symbols,
       toCanon := fold (\<lambda>s m. m(BinanceSymbol s \<mapsto> canonicalPair s)) symbols (toCanon b)\<rparr>"

definition NewBinance :: "string list \<Rightarrow> int64 \<Rightarrow> Binance" where
  "NewBinance symbols depth =
     setSymbols \<lparr>toCanon = Map.empty, bn_symbols = [],
                 depthMS = (if depth \<noteq> 1000 then 100 else depth), bookSeq = Map.empty\<rparr> symbols"

definition Binance_Name :: "Binance \<Rightarrow> string" where
  "Binance_Name b = VenueBinance"

definition canonFor :: "Binance \<Rightarrow> string \<Rightarrow> string" where
  "canonFor b venueSymbol =
     (let up = ToUpper venueSymbol
      in case toCanon b up of
           Some canon \<Rightarrow> canon
         | None \<Rightarrow>
             (case find (\<lambda>q. HasSuffix up q \<and> length q < length up) binanceKnownQuotes of
                Some q \<Rightarrow>
                  take (length up - length q) up @ ''-'' @ (if q = ''USDT'' then ''USD'' else q)
              | None \<Rightarrow> up))"

definition Binance_URL :: "Binance \<Rightarrow> string" where
  "Binance_URL b =
     ''wss://stream.binance.com:9443/stream?streams='' @
     Join (concat (map (\<lambda>s. let v = ToLower (BinanceSymbol s)
                            in [v @ ''@trade'', v @ ''@depth@'' @ FormatInt (depthMS b) @ ''ms''])
                       (bn_symbols b))) ''/''"

text \<open>\<open>Subscriptions\<close> sends nothing (the URL carries the stream list) and updates the symbols.\<close>

definition Binance_Subscriptions :: "Binance \<Rightarrow> string list \<Rightarrow> Binance" where
  "Binance_Subscriptions b symbols = (if symbols \<noteq> [] then setSymbols b symbols else b)"

section \<open>Dense sequence\<close>

definition max64 :: "int64 \<Rightarrow> int64 \<Rightarrow> int64" where
  "max64 a b = (if b < a then a else b)"

definition binanceBookCursor_zero :: binanceBookCursor where
  "binanceBookCursor_zero = \<lparr>lastFinalUpdateID = 0, dense = 0, initialized = False\<rparr>"

text \<open>One step of a cursor; \<open>denseSequence\<close> stores it and returns its counter.\<close>

definition cursor_step :: "binanceBookCursor \<Rightarrow> int64 \<Rightarrow> int64 \<Rightarrow> binanceBookCursor" where
  "cursor_step cur firstUpdateID finalUpdateID =
     (if \<not> initialized cur then
        cur\<lparr>initialized := True, dense := 0, lastFinalUpdateID := finalUpdateID\<rparr>
      else if firstUpdateID = wrap64 (lastFinalUpdateID cur + 1) then
        cur\<lparr>dense := wrap64 (dense cur + 1), lastFinalUpdateID := finalUpdateID\<rparr>
      else if firstUpdateID \<le> lastFinalUpdateID cur then
        cur\<lparr>lastFinalUpdateID := max64 (lastFinalUpdateID cur) finalUpdateID\<rparr>
      else
        (let missing0 = wrap64 (firstUpdateID - lastFinalUpdateID cur - 1);
             missing = (if missing0 < 1 then 1 else missing0)
         in cur\<lparr>dense := wrap64 (dense cur + missing + 1), lastFinalUpdateID := finalUpdateID\<rparr>))"

definition denseSequence :: "Binance \<Rightarrow> string \<Rightarrow> int64 \<Rightarrow> int64 \<Rightarrow> int64 \<times> Binance" where
  "denseSequence b symbol firstUpdateID finalUpdateID =
     (let cur = (case bookSeq b symbol of Some c \<Rightarrow> c | None \<Rightarrow> binanceBookCursor_zero);
          cur' = cursor_step cur firstUpdateID finalUpdateID
      in (dense cur', b\<lparr>bookSeq := (bookSeq b)(symbol \<mapsto> cur')\<rparr>))"

definition ResetBooks :: "Binance \<Rightarrow> Binance" where
  "ResetBooks b = b\<lparr>bookSeq := Map.empty\<rparr>"

section \<open>Decoding\<close>

definition bn_decodeTrade :: "Binance \<Rightarrow> json option \<Rightarrow> gotime \<Rightarrow> Event list result" where
  "bn_decodeTrade b data now =
     (case UnmarshalRaw dec_binanceTrade binanceTrade_zero data of
        Inl err \<Rightarrow> Inl (Errorf ''binance trade: %w'' [] (Some err))
      | Inr t \<Rightarrow>
          (case parseFloat (bnt_Price t) of
             (_, Some err) \<Rightarrow> Inl (Errorf ''binance trade price %q: %w'' [bnt_Price t] (Some err))
           | (price, None) \<Rightarrow>
               (case parseFloat (bnt_Quantity t) of
                  (_, Some err) \<Rightarrow> Inl (Errorf ''binance trade qty %q: %w'' [bnt_Quantity t] (Some err))
                | (qty, None) \<Rightarrow>
                    (let side = (if bnt_BuyerIsMaker t then SideSell else SideBuy);
                         sym = canonFor b (bnt_Symbol t);
                         eventTimeUS =
                           (if bnt_TradeTimeMS t = 0 then wrap64 (bnt_EventTimeMS t * 1000)
                            else wrap64 (bnt_TradeTimeMS t * 1000))
                     in Inr [\<lparr>Event_Kind = KindTrade, Event_Venue = VenueBinance,
                          Event_Symbol = sym, Event_Sequence = bnt_TradeID t,
                          Event_Trade = Some \<lparr>Trade_Venue = VenueBinance, Trade_Symbol = sym,
                            Trade_TradeID = FormatInt (bnt_TradeID t), Trade_Price = price,
                            Trade_Size = qty, Trade_Side = side,
                            Trade_EventTimeUS = eventTimeUS, Trade_IngestTimeUS = UnixMicro now,
                            Trade_Sequence = bnt_TradeID t\<rparr>,
                          Event_Book = None, Event_Chain = None\<rparr>]))))"

definition bn_level :: "string \<Rightarrow> string list \<Rightarrow> Level result" where
  "bn_level fmt lvl =
     (case lvl of
        p # q # _ \<Rightarrow> Inr \<lparr>Level_Price = mustFloat p, Level_Size = mustFloat q\<rparr>
      | _ \<Rightarrow> Inl (Errorf fmt lvl None))"

text \<open>
  The cursor advances before the levels are looked at, so a frame that is rejected for a
  malformed level has still moved it.
\<close>

definition bn_decodeDepth :: "Binance \<Rightarrow> json option \<Rightarrow> gotime \<Rightarrow> Binance \<times> Event list result" where
  "bn_decodeDepth b data now =
     (case UnmarshalRaw dec_binanceDepth binanceDepth_zero data of
        Inl err \<Rightarrow> (b, Inl (Errorf ''binance depth: %w'' [] (Some err)))
      | Inr d \<Rightarrow>
          (let sym = canonFor b (bnd_Symbol d);
               (seq, b') = denseSequence b sym (bnd_FirstUpdateID d) (bnd_FinalUpdateID d)
           in (b',
               case traverse (bn_level ''binance depth: malformed bid level %v'') (bnd_Bids d) of
                 Inl err \<Rightarrow> Inl err
               | Inr bids \<Rightarrow>
                   (case traverse (bn_level ''binance depth: malformed ask level %v'') (bnd_Asks d) of
                      Inl err \<Rightarrow> Inl err
                    | Inr asks \<Rightarrow>
                        Inr [\<lparr>Event_Kind = KindBookDelta, Event_Venue = VenueBinance,
                          Event_Symbol = sym, Event_Sequence = seq, Event_Trade = None,
                          Event_Book = Some \<lparr>Book_Venue = VenueBinance, Book_Symbol = sym,
                            Book_IsSnapshot = False, Book_Bids = bids, Book_Asks = asks,
                            Book_EventTimeUS = wrap64 (bnd_EventTimeMS d * 1000),
                            Book_IngestTimeUS = UnixMicro now, Book_Sequence = seq\<rparr>,
                          Event_Chain = None\<rparr>]))))"

text \<open>The peek at the event type: an exact key, \<open>e\<close>, and not the struct matching.\<close>

definition bn_eventType :: "json option \<Rightarrow> string result" where
  "bn_eventType data =
     (case UnmarshalRaw dec_raw_map Map.empty data of
        Inl err \<Rightarrow> Inl (Errorf ''binance data probe: %w'' [] (Some err))
      | Inr probe \<Rightarrow>
          (case probe ''e'' of
             None \<Rightarrow> Inr ''''
           | Some rawType \<Rightarrow>
               (case UnmarshalRaw dec_string '''' (Some rawType) of
                  Inl err \<Rightarrow> Inl (Errorf ''binance event type: %w'' [] (Some err))
                | Inr t \<Rightarrow> Inr t)))"

definition bn_dispatch :: "Binance \<Rightarrow> binanceEnvelope \<Rightarrow> gotime \<Rightarrow> Binance \<times> Event list result" where
  "bn_dispatch b env now =
     (case bne_Error env of
        Some e \<Rightarrow>
          (b, Inl (Errorf ''binance error %d: %s'' [FormatInt (bnerr_Code e), bnerr_Msg e] None))
      | None \<Rightarrow>
          if bne_Data env = None then (b, Inr [])
          else
            (case bn_eventType (bne_Data env) of
               Inl err \<Rightarrow> (b, Inl err)
             | Inr eventType \<Rightarrow>
                 if eventType = ''trade'' then (b, bn_decodeTrade b (bne_Data env) now)
                 else if eventType = ''depthUpdate'' then bn_decodeDepth b (bne_Data env) now
                 else (b, Inr [])))"

definition Binance_Decode :: "Binance \<Rightarrow> string \<Rightarrow> gotime \<Rightarrow> Binance \<times> Event list result" where
  "Binance_Decode b raw now =
     (case Unmarshal dec_binanceEnvelope binanceEnvelope_zero raw of
        Inl err \<Rightarrow> (b, Inl (Errorf ''binance envelope: %w'' [] (Some err)))
      | Inr env \<Rightarrow> bn_dispatch b env now)"

section \<open>The decoder interface\<close>

lemma bn_decodeTrade_events:
  "bn_decodeTrade b data now = Inr evs \<Longrightarrow> e \<in> set evs \<Longrightarrow> event_wf e \<and> Event_Venue e = VenueBinance"
  by (auto simp: bn_decodeTrade_def event_wf_def Let_def split: sum.splits prod.splits option.splits)

lemma bn_decodeDepth_events:
  "bn_decodeDepth b data now = (b', Inr evs) \<Longrightarrow> e \<in> set evs \<Longrightarrow>
     event_wf e \<and> Event_Venue e = VenueBinance"
  by (auto simp: bn_decodeDepth_def event_wf_def Let_def split: sum.splits prod.splits)

lemma Binance_Decode_events:
  "Binance_Decode b raw now = (b', Inr evs) \<Longrightarrow> e \<in> set evs \<Longrightarrow>
     event_wf e \<and> Event_Venue e = VenueBinance"
  by (auto simp: Binance_Decode_def bn_dispatch_def
      split: sum.splits option.splits if_splits dest: bn_decodeTrade_events bn_decodeDepth_events)

interpretation binance: venue_decoder Binance_Decode Binance_Name
  by unfold_locales (auto simp: Binance_Name_def dest: Binance_Decode_events)

section \<open>Symbols: facts\<close>

lemma fold_toCanon_keep:
  "\<forall>s' \<in> set syms. BinanceSymbol s' = x \<longrightarrow> canonicalPair s' = v \<Longrightarrow> m x = Some v \<Longrightarrow>
     fold (\<lambda>s m. m(BinanceSymbol s \<mapsto> canonicalPair s)) syms m x = Some v"
  by (induction syms arbitrary: m) auto

lemma fold_toCanon:
  assumes "s \<in> set syms"
    and "\<forall>s' \<in> set syms. BinanceSymbol s' = BinanceSymbol s \<longrightarrow> canonicalPair s' = canonicalPair s"
  shows "fold (\<lambda>s m. m(BinanceSymbol s \<mapsto> canonicalPair s)) syms m (BinanceSymbol s)
           = Some (canonicalPair s)"
  using assms
proof (induction syms arbitrary: m)
  case (Cons t ts)
  show ?case
  proof (cases "BinanceSymbol t = BinanceSymbol s")
    case True
    with Cons.prems have "canonicalPair t = canonicalPair s" by simp
    with True Cons.prems(2) show ?thesis
      using fold_toCanon_keep [of ts "BinanceSymbol s" "canonicalPair s"
          "m(BinanceSymbol t \<mapsto> canonicalPair t)"]
      by (simp del: fun_upd_apply add: fun_upd_same)
  next
    case False
    with Cons.prems(1) have "s \<in> set ts" by auto
    moreover from Cons.prems(2) have "\<forall>s' \<in> set ts. BinanceSymbol s' = BinanceSymbol s \<longrightarrow> canonicalPair s' = canonicalPair s"
      by (meson list.set_intros(2))
    ultimately show ?thesis unfolding fold_Cons o_apply by (rule Cons.IH)
  qed
qed simp

lemma BinanceSymbol_upper: "list_all (\<lambda>c. \<not> is_lower c) (BinanceSymbol s)"
proof -
  have up: "list_all (\<lambda>c. \<not> is_lower c) (canonicalPair s)" by (rule canonicalPair_upper)
  have usdt: "list_all (\<lambda>c. \<not> is_lower c) ''USDT''" by (simp add: is_lower_def code_def)
  show ?thesis
  proof (cases "CHR ''-'' \<in> set (canonicalPair s)")
    case True
    from SplitN2_join [OF this] obtain a b where
      "SplitN2 (canonicalPair s) CHR ''-'' = [a, b]" "canonicalPair s = a @ CHR ''-'' # b"
      by blast
    with up usdt show ?thesis
      by (auto simp: BinanceSymbol_def binanceQuoteAliases_def split: option.splits if_splits)
  next
    case False
    with up show ?thesis by (simp add: BinanceSymbol_def SplitN2_none ReplaceAll_absent)
  qed
qed

section \<open>The cursor: facts\<close>

text \<open>A cursor that has seen an update and whose numbers are in range.\<close>

definition cursor_ok :: "binanceBookCursor \<Rightarrow> bool" where
  "cursor_ok cur \<longleftrightarrow>
     initialized cur \<and> 0 \<le> lastFinalUpdateID cur \<and> lastFinalUpdateID cur < max_int64 \<and>
     0 \<le> dense cur \<and> dense cur < max_int64"

lemma cursor_step_contiguous:
  assumes "cursor_ok cur" and "U = lastFinalUpdateID cur + 1"
  shows "cursor_step cur U u = cur\<lparr>dense := dense cur + 1, lastFinalUpdateID := u\<rparr>"
  using assms by (simp add: cursor_ok_def cursor_step_def wrap64_succ)

lemma cursor_step_overlap:
  assumes "cursor_ok cur" and "U \<le> lastFinalUpdateID cur"
  shows "cursor_step cur U u = cur\<lparr>lastFinalUpdateID := max (lastFinalUpdateID cur) u\<rparr>"
  using assms by (auto simp: cursor_ok_def cursor_step_def wrap64_succ max64_def)

lemma cursor_step_gap:
  assumes "cursor_ok cur" and "lastFinalUpdateID cur + 1 < U" and "U \<le> max_int64"
    and "dense cur + (U - lastFinalUpdateID cur) \<le> max_int64"
  shows "cursor_step cur U u =
           cur\<lparr>dense := dense cur + (U - lastFinalUpdateID cur), lastFinalUpdateID := u\<rparr>"
proof -
  have "wrap64 (U - lastFinalUpdateID cur - 1) = U - lastFinalUpdateID cur - 1"
    and "wrap64 (dense cur + (U - lastFinalUpdateID cur - 1) + 1) = dense cur + (U - lastFinalUpdateID cur)"
    using assms by (auto simp: cursor_ok_def in_int64_def wrap64_id)
  then show ?thesis
    using assms by (simp add: cursor_ok_def cursor_step_def wrap64_succ Let_def)
qed

section \<open>Struct keys: facts\<close>

lemma match_field_in: "match_field fs k = Some d \<Longrightarrow> \<exists>n. (n, d) \<in> set fs"
  by (auto simp: match_field_def find_Some_iff split: option.splits dest: map_of_SomeD)
     (metis nth_mem prod.collapse)

lemma dec_members_append:
  "dec_members fs (xs @ ys) r =
     (let (r1, ok1) = dec_members fs xs r; (r2, ok2) = dec_members fs ys r1 in (r2, ok1 \<and> ok2))"
  by (induction fs xs r rule: dec_members.induct) (auto split: option.splits prod.splits)

text \<open>What becomes of the maker flag depends only on what it was.\<close>

lemma maker_flag_local:
  assumes "(n, d) \<in> set binanceTrade_fields" and "bnt_BuyerIsMaker r = bnt_BuyerIsMaker r'"
  shows "bnt_BuyerIsMaker (fst (d v r)) = bnt_BuyerIsMaker (fst (d v r'))"
  using assms
  by (simp add: binanceTrade_fields_def) (elim disjE conjE; simp add: into_def split_beta Let_def)

lemma maker_flag_members:
  "bnt_BuyerIsMaker r = bnt_BuyerIsMaker r' \<Longrightarrow>
     bnt_BuyerIsMaker (fst (dec_members binanceTrade_fields kvs r)) =
     bnt_BuyerIsMaker (fst (dec_members binanceTrade_fields kvs r'))"
proof (induction kvs arbitrary: r r')
  case (Cons kv kvs)
  obtain k v where kv: "kv = (k, v)" by (cases kv)
  show ?case
  proof (cases "match_field binanceTrade_fields k")
    case None
    with Cons.IH [OF Cons.prems] kv show ?thesis by simp
  next
    case (Some d)
    from match_field_in [OF this] obtain n where "(n, d) \<in> set binanceTrade_fields" by blast
    from Cons.IH [OF maker_flag_local [OF this Cons.prems, of v]] Some kv show ?thesis
      by (simp add: split_beta Let_def)
  qed
qed simp

lemma match_field_M:
  "match_field binanceTrade_fields ''M'' = Some (into bnt_Ignore bnt_Ignore_update dec_bool)"
  by (simp add: match_field_def binanceTrade_fields_def)

section \<open>A concrete cursor\<close>

definition example_cursor :: binanceBookCursor where
  "example_cursor = \<lparr>lastFinalUpdateID = 160, dense = 5, initialized = True\<rparr>"

lemma example_cursor_simps [simp]:
  "cursor_ok example_cursor" "dense example_cursor = 5" "lastFinalUpdateID example_cursor = 160"
  by (simp_all add: cursor_ok_def example_cursor_def)

section \<open>Properties\<close>

text \<open>
  C18. The dense counter drives the gap detector as intended. From a cursor whose
  counter is the detector's watermark, a contiguous update is in order, an update that
  skips ids is a gap whose \<open>Missing\<close> is exactly the number of update ids that were
  skipped, and an overlapping update is a duplicate.
\<close>

theorem dense_sequence_drives_detector:
  assumes "cursor_ok cur" and "detector_wf d" and "last_seq d k = Some (dense cur)"
    and "0 \<le> regressionTolerance d" and "0 \<le> U" and "U \<le> max_int64"
    and "dense cur + max 1 (U - lastFinalUpdateID cur) \<le> max_int64"
  shows "let r = fst (Observe d k (dense (cursor_step cur U u))); lst = lastFinalUpdateID cur
         in Result_Status r =
              (if U = lst + 1 then StatusOK else if lst + 1 < U then StatusGap else StatusDuplicate)
          \<and> Result_Missing r = (if lst + 1 < U then U - lst - 1 else 0)"
proof -
  let ?l = "lastFinalUpdateID cur"
  have top: "last_seq d k \<noteq> Some max_int64" and nn: "0 \<le> dense cur"
    using assms by (auto simp: cursor_ok_def)
  consider "U = ?l + 1" | "?l + 1 < U" | "U \<le> ?l" by linarith
  then show ?thesis
  proof cases
    case 1
    then have "dense (cursor_step cur U u) = dense cur + 1"
      using cursor_step_contiguous [OF assms(1), of U u] by simp
    moreover have "in_int64 (dense cur + 1)" using assms nn 1 by (simp add: in_int64_def)
    ultimately show ?thesis
      using Observe_spec(1) [OF assms(2) _ top, of "dense cur + 1"] assms(3) nn 1
      by (simp add: verdict_def Let_def)
  next
    case 2
    then have "dense (cursor_step cur U u) = dense cur + (U - ?l)"
      using cursor_step_gap [OF assms(1), of U u] assms by simp
    moreover have "in_int64 (dense cur + (U - ?l))" using assms nn 2 by (simp add: in_int64_def)
    ultimately show ?thesis
      using Observe_spec(1) [OF assms(2) _ top, of "dense cur + (U - ?l)"] assms(3) nn 2
      by (simp add: verdict_def Let_def)
  next
    case 3
    then have "dense (cursor_step cur U u) = dense cur"
      using cursor_step_overlap [OF assms(1), of U u] by simp
    moreover have "in_int64 (dense cur)" using assms by (simp add: cursor_ok_def in_int64_def)
    ultimately show ?thesis
      using Observe_spec(1) [OF assms(2) _ top, of "dense cur"] assms(3,4) nn 3
      by (simp add: verdict_def Let_def)
  qed
qed

theorem dense_sequence_drives_detector_witness:
  "let r = fst (Observe example_detector example_key (dense (cursor_step example_cursor 170 180)))
   in Result_Status r = StatusGap \<and> Result_Missing r = 9"
  using dense_sequence_drives_detector [of example_cursor example_detector example_key 170 180]
  by (simp add: Let_def)

text \<open>
  C19. An update that overlaps the ids already seen but reaches beyond them is
  not only called a duplicate: the cursor moves past its new ids as well, so the next
  update in order is accepted as contiguous and the new ids are lost without a gap.
\<close>

theorem partial_overlap_lost_silently:
  assumes "cursor_ok cur" and "detector_wf d" and "last_seq d k = Some (dense cur)"
    and "0 \<le> regressionTolerance d"
    and "U \<le> lastFinalUpdateID cur" and "lastFinalUpdateID cur < u" and "u < max_int64"
  shows "let cur1 = cursor_step cur U u; cur2 = cursor_step cur1 (u + 1) v;
             (r1, d1) = Observe d k (dense cur1); (r2, d2) = Observe d1 k (dense cur2)
         in Result_Status r1 = StatusDuplicate \<and> Result_Status r2 = StatusOK"
proof -
  have c1: "cursor_step cur U u = cur\<lparr>lastFinalUpdateID := u\<rparr>"
    using cursor_step_overlap [OF assms(1,5)] assms(6) by simp
  have ok1: "cursor_ok (cur\<lparr>lastFinalUpdateID := u\<rparr>)" using assms by (simp add: cursor_ok_def)
  have c2: "dense (cursor_step (cur\<lparr>lastFinalUpdateID := u\<rparr>) (u + 1) v) = dense cur + 1"
    using cursor_step_contiguous [OF ok1, of "u + 1" v] by simp
  have lt: "dense cur < max_int64" and nn: "0 \<le> dense cur" using assms by (auto simp: cursor_ok_def)
  have "Result_Status (fst (Observe d k (dense cur))) = StatusDuplicate \<and> snd (Observe d k (dense cur)) = d"
    using Observe_duplicate [OF assms(2,3) lt nn order_refl] assms(4) by simp
  with Observe_next [OF assms(2,3) lt] show ?thesis
    by (simp add: c1 c2 Let_def split_beta)
qed

theorem partial_overlap_lost_silently_witness:
  "let cur1 = cursor_step example_cursor 158 165; cur2 = cursor_step cur1 (165 + 1) 170;
       (r1, d1) = Observe example_detector example_key (dense cur1);
       (r2, d2) = Observe d1 example_key (dense cur2)
   in Result_Status r1 = StatusDuplicate \<and> Result_Status r2 = StatusOK"
  by (rule partial_overlap_lost_silently) simp_all

text \<open>
  Every subscribed symbol round-trips: the name Binance uses for it, in the
  upper case of the payloads or the lower case of the stream names, is mapped back to the
  canonical pair, as long as no two configured pairs share a Binance name.
\<close>

theorem binance_symbol_roundtrip:
  assumes "s \<in> set symbols"
    and "\<forall>s' \<in> set symbols. BinanceSymbol s' = BinanceSymbol s \<longrightarrow> canonicalPair s' = canonicalPair s"
  shows "canonFor (NewBinance symbols depth) (BinanceSymbol s) = canonicalPair s
       \<and> canonFor (NewBinance symbols depth) (ToLower (BinanceSymbol s)) = canonicalPair s"
proof -
  have "toCanon (NewBinance symbols depth) (BinanceSymbol s) = Some (canonicalPair s)"
    using fold_toCanon [OF assms] by (simp add: NewBinance_def setSymbols_def)
  then show ?thesis
    using BinanceSymbol_upper [of s]
    by (simp add: canonFor_def Let_def ToUpper_fixed ToUpper_ToLower)
qed

theorem binance_symbol_roundtrip_witness:
  "canonFor (NewBinance [''BTC-USD'', ''eth/usd''] 100) (BinanceSymbol ''eth/usd'') = canonicalPair ''eth/usd''
   \<and> canonFor (NewBinance [''BTC-USD'', ''eth/usd''] 100) (ToLower (BinanceSymbol ''eth/usd'')) = canonicalPair ''eth/usd''"
proof (rule binance_symbol_roundtrip)
  show "\<forall>s' \<in> set [''BTC-USD'', ''eth/usd''].
      BinanceSymbol s' = BinanceSymbol ''eth/usd'' \<longrightarrow> canonicalPair s' = canonicalPair ''eth/usd''"
    by code_simp
qed simp

text \<open>
  The proviso is needed: with BTC-USD and BTC-USDT both configured, the
  substitution of USDT for USD gives them one Binance name, and every BTC-USD update is
  labelled with the pair that was configured last.
\<close>

theorem binance_alias_collision:
  "canonFor (NewBinance [''BTC-USD'', ''BTC-USDT''] 100) (BinanceSymbol ''BTC-USD'') = ''BTC-USDT''"
  by code_simp

text \<open>
  The deprecated \<open>M\<close> flag never reaches the maker flag, wherever in the
  object it stands and whatever its value is, so it cannot invert the aggressor side.
\<close>

theorem binance_M_never_maker:
  "bnt_BuyerIsMaker (fst (dec_binanceTrade (JObj (xs @ (''M'', v) # ys)) r)) =
   bnt_BuyerIsMaker (fst (dec_binanceTrade (JObj (xs @ ys)) r))"
proof -
  let ?r = "fst (dec_members binanceTrade_fields xs r)"
  have "bnt_BuyerIsMaker (fst (into bnt_Ignore bnt_Ignore_update dec_bool v ?r)) = bnt_BuyerIsMaker ?r"
    by (simp add: into_def split_beta)
  then show ?thesis
    using maker_flag_members [of "fst (into bnt_Ignore bnt_Ignore_update dec_bool v ?r)" ?r ys]
    by (simp add: dec_binanceTrade_def dec_struct_def dec_members_append match_field_M split_beta)
qed

end
