(* ===== verification/Evm.thy ===== *)
theory Evm
  imports Venue "HOL-Library.Sublist"
begin

text \<open>
  The on-chain source, \<open>internal/onchain/evm.go\<close>: ERC-20 \<open>Transfer\<close> logs over an
  Ethereum JSON-RPC socket, decoded through the same interface as the exchanges. The
  decoder keeps one piece of state, the highest block seen, so that only the first log of
  a new block carries a sequence number.
\<close>

section \<open>Data\<close>

definition TransferTopic0 :: string where
  "TransferTopic0 = ''0xddf252ad1be2c89b69c2b068fc378daa952ba7f163c4a11628f55a4df523b3ef''"

record Token =
  Token_Symbol :: string
  Token_Decimals :: int

text \<open>A Go map of tokens is the list of its entries in the order a range loop visits them.\<close>

definition DefaultTokens :: "(string \<times> Token) list" where
  "DefaultTokens =
     [(''0xa0b86991c6218b36c1d19d4a2e9eb0ce3606eb48'', \<lparr>Token_Symbol = ''USDC'', Token_Decimals = 6\<rparr>),
      (''0xdac17f958d2ee523a2206206994597c13d831ec7'', \<lparr>Token_Symbol = ''USDT'', Token_Decimals = 6\<rparr>),
      (''0xc02aaa39b223fe8d0a0e5c4f27ead9083c756cc2'', \<lparr>Token_Symbol = ''WETH'', Token_Decimals = 18\<rparr>),
      (''0x6b175474e89094c44da98b954eedeac495271d0f'', \<lparr>Token_Symbol = ''DAI'', Token_Decimals = 18\<rparr>),
      (''0x833589fcd6edb6e08f4c7c32d4f71b54bda02913'', \<lparr>Token_Symbol = ''USDC'', Token_Decimals = 6\<rparr>),
      (''0x4200000000000000000000000000000000000006'', \<lparr>Token_Symbol = ''WETH'', Token_Decimals = 18\<rparr>)]"

record EVM =
  evm_chain :: string
  evm_wsURL :: string
  evm_tokens :: "(string \<times> Token) list"
  evm_addresses :: "string list"
  evm_lastBlock :: int64

record logFilter =
  lf_Address :: "string list"
  lf_Topics :: "string list"

text \<open>\<open>Params\<close> is the pair of the subscription kind and its filter.\<close>

record rpcRequest =
  rpc_JSONRPC :: string
  rpc_ID :: int64
  rpc_Method :: string
  rpc_Params :: "string \<times> logFilter"

record evmParams =
  ep_Subscription :: string
  ep_Result :: "json option"

record evmError =
  ee_Code :: int64
  ee_Message :: string

record subscriptionEnvelope =
  se_Method :: string
  se_Params :: evmParams
  se_Error :: "evmError option"

record rawLog =
  rl_Address :: string
  rl_Topics :: "string list"
  rl_Data :: string
  rl_BlockNumber :: string
  rl_TxHash :: string
  rl_LogIndex :: string
  rl_Removed :: bool

definition subscriptionEnvelope_zero :: subscriptionEnvelope where
  "subscriptionEnvelope_zero =
     \<lparr>se_Method = [], se_Params = \<lparr>ep_Subscription = [], ep_Result = None\<rparr>, se_Error = None\<rparr>"

definition dec_subscriptionEnvelope :: "subscriptionEnvelope dec" where
  "dec_subscriptionEnvelope = dec_struct
     [(''method'', into se_Method se_Method_update dec_string),
      (''params'', into se_Params se_Params_update (dec_struct
         [(''subscription'', into ep_Subscription ep_Subscription_update dec_string),
          (''result'', into ep_Result ep_Result_update dec_raw)])),
      (''error'', into se_Error se_Error_update
         (dec_ptr \<lparr>ee_Code = 0, ee_Message = []\<rparr> (dec_struct
            [(''code'', into ee_Code ee_Code_update dec_int64),
             (''message'', into ee_Message ee_Message_update dec_string)])))]"

definition rawLog_zero :: rawLog where
  "rawLog_zero =
     \<lparr>rl_Address = [], rl_Topics = [], rl_Data = [], rl_BlockNumber = [], rl_TxHash = [],
      rl_LogIndex = [], rl_Removed = False\<rparr>"

definition dec_rawLog :: "rawLog dec" where
  "dec_rawLog = dec_struct
     [(''address'', into rl_Address rl_Address_update dec_string),
      (''topics'', into rl_Topics rl_Topics_update (dec_slice [] dec_string)),
      (''data'', into rl_Data rl_Data_update dec_string),
      (''blockNumber'', into rl_BlockNumber rl_BlockNumber_update dec_string),
      (''transactionHash'', into rl_TxHash rl_TxHash_update dec_string),
      (''logIndex'', into rl_LogIndex rl_LogIndex_update dec_string),
      (''removed'', into rl_Removed rl_Removed_update dec_bool)]"

section \<open>Operations\<close>

definition NewEVM ::
  "string \<Rightarrow> string \<Rightarrow> (string \<times> Token) list option \<Rightarrow> string list \<Rightarrow> EVM"
where
  "NewEVM chain wsURL tokens addresses =
     (let toks = (case tokens of None \<Rightarrow> DefaultTokens | Some t \<Rightarrow> t);
          addrs = (if addresses = [] then map fst toks else addresses)
      in \<lparr>evm_chain = chain, evm_wsURL = wsURL, evm_tokens = toks,
          evm_addresses = map ToLower addrs, evm_lastBlock = 0\<rparr>)"

definition EVM_Name :: "EVM \<Rightarrow> string" where
  "EVM_Name e = evm_chain e"

definition EVM_URL :: "EVM \<Rightarrow> string" where
  "EVM_URL e = evm_wsURL e"

definition EVM_Subscriptions :: "EVM \<Rightarrow> string list \<Rightarrow> rpcRequest list" where
  "EVM_Subscriptions e symbols =
     [\<lparr>rpc_JSONRPC = ''2.0'', rpc_ID = 1, rpc_Method = ''eth_subscribe'',
       rpc_Params = (''logs'', \<lparr>lf_Address = evm_addresses e, lf_Topics = [TransferTopic0]\<rparr>)\<rparr>]"

definition topicToAddress :: "string \<Rightarrow> string" where
  "topicToAddress topic =
     (let t = ToLower (TrimPrefix topic ''0x'')
      in if length t < 40 then ''0x'' @ t else ''0x'' @ drop (length t - 40) t)"

definition hexToInt64 :: "string \<Rightarrow> int64 result" where
  "hexToInt64 s =
     (let s' = TrimPrefix (TrimPrefix s ''0x'') ''0X''
      in if s' = '''' then Inr 0 else ParseInt s' 16)"

text \<open>The event of a transfer whose numbers parsed, and the block watermark after it.\<close>

definition evm_event :: "EVM \<Rightarrow> rawLog \<Rightarrow> gotime \<Rightarrow> int \<Rightarrow> int64 \<Rightarrow> int64 \<Rightarrow> EVM \<times> Event" where
  "evm_event e l now amount blockNum logIdx =
     (let addr = ToLower (rl_Address l);
          tok = map_of (evm_tokens e) addr;
          symbol = (case tok of None \<Rightarrow> addr | Some t \<Rightarrow> Token_Symbol t);
          decimals = (case tok of None \<Rightarrow> 0 | Some t \<Rightarrow> Token_Decimals t);
          transfer = \<lparr>Chain_Chain = evm_chain e, Chain_Token = addr, Chain_Symbol = symbol,
            Chain_FromAddr = topicToAddress (rl_Topics l ! 1),
            Chain_ToAddr = topicToAddress (rl_Topics l ! 2),
            Chain_AmountRaw = FormatInt amount, Chain_Decimals = decimals,
            Chain_BlockNumber = blockNum, Chain_LogIndex = wrap32 logIdx,
            Chain_TxHash = ToLower (rl_TxHash l),
            Chain_EventTimeUS = UnixMicro now, Chain_IngestTimeUS = UnixMicro now\<rparr>;
          (e', seq) = (if evm_lastBlock e < blockNum
                       then (e\<lparr>evm_lastBlock := blockNum\<rparr>, blockNum) else (e, NoSequence))
      in (e', \<lparr>Event_Kind = KindChainTransfer, Event_Venue = evm_chain e, Event_Symbol = symbol,
               Event_Sequence = seq, Event_Trade = None, Event_Book = None,
               Event_Chain = Some transfer\<rparr>))"

definition evm_log :: "EVM \<Rightarrow> rawLog \<Rightarrow> gotime \<Rightarrow> EVM \<times> Event list result" where
  "evm_log e l now =
     (if rl_Removed l then (e, Inr [])
      else if length (rl_Topics l) < 3 \<or> \<not> EqualFold (rl_Topics l ! 0) TransferTopic0 then (e, Inr [])
      else case big_SetString (TrimPrefix (rl_Data l) ''0x'') 16 of
        None \<Rightarrow> (e, Inl (Errorf ''evm transfer: undecodable amount %q'' [rl_Data l] None))
      | Some amount \<Rightarrow>
          (case hexToInt64 (rl_BlockNumber l) of
             Inl err \<Rightarrow> (e, Inl (Errorf ''evm transfer block number: %w'' [] (Some err)))
           | Inr blockNum \<Rightarrow>
               (case hexToInt64 (rl_LogIndex l) of
                  Inl err \<Rightarrow> (e, Inl (Errorf ''evm transfer log index: %w'' [] (Some err)))
                | Inr logIdx \<Rightarrow>
                    (let (e', ev) = evm_event e l now amount blockNum logIdx in (e', Inr [ev])))))"

definition EVM_Decode :: "EVM \<Rightarrow> string \<Rightarrow> gotime \<Rightarrow> EVM \<times> Event list result" where
  "EVM_Decode e raw now =
     (case Unmarshal dec_subscriptionEnvelope subscriptionEnvelope_zero raw of
        Inl err \<Rightarrow> (e, Inl (Errorf ''evm envelope: %w'' [] (Some err)))
      | Inr env \<Rightarrow>
          (case se_Error env of
             Some er \<Rightarrow> (e, Inl (Errorf ''evm rpc error %d: %s'' [FormatInt (ee_Code er), ee_Message er] None))
           | None \<Rightarrow>
               (if se_Method env \<noteq> ''eth_subscription'' then (e, Inr [])
                else case UnmarshalRaw dec_rawLog rawLog_zero (ep_Result (se_Params env)) of
                  Inl err \<Rightarrow> (e, Inl (Errorf ''evm log: %w'' [] (Some err)))
                | Inr l \<Rightarrow> evm_log e l now)))"

section \<open>Facts\<close>

lemma evm_event_facts:
  assumes "evm_event e l now amount blockNum logIdx = (e', ev)"
  shows "event_wf ev" "Event_Venue ev = evm_chain e" "evm_chain e' = evm_chain e"
    "e' = e\<lparr>evm_lastBlock := max (evm_lastBlock e) blockNum\<rparr>"
    "Event_Sequence ev = (if evm_lastBlock e < blockNum then blockNum else NoSequence)"
    "map_option Chain_BlockNumber (Event_Chain ev) = Some blockNum"
  using assms by (auto simp: evm_event_def Let_def event_wf_def split: if_splits)

text \<open>The log a frame carries, if it is a notification that parses.\<close>

definition frame_log :: "string \<Rightarrow> rawLog option" where
  "frame_log raw =
     (case Unmarshal dec_subscriptionEnvelope subscriptionEnvelope_zero raw of
        Inl _ \<Rightarrow> None
      | Inr env \<Rightarrow>
          (case UnmarshalRaw dec_rawLog rawLog_zero (ep_Result (se_Params env)) of
             Inl _ \<Rightarrow> None | Inr l \<Rightarrow> Some l))"

text \<open>What a frame does: nothing, or exactly one transfer, that of its log.\<close>

lemma EVM_Decode_cases:
  assumes "EVM_Decode e raw now = (e', r)"
  obtains (none) "e' = e" "r = Inr [] \<or> (\<exists>err. r = Inl err)"
  | (transfer) l amount blockNum logIdx ev where
      "evm_event e l now amount blockNum logIdx = (e', ev)" "r = Inr [ev]"
      "big_SetString (TrimPrefix (rl_Data l) ''0x'') 16 = Some amount"
      "hexToInt64 (rl_BlockNumber l) = Inr blockNum" "frame_log raw = Some l"
  using assms
  by (auto simp: EVM_Decode_def evm_log_def frame_log_def
      split: sum.splits option.splits if_splits prod.splits)

interpretation evm: venue_decoder EVM_Decode EVM_Name
proof
  fix s raw now s' evs e
  assume d: "EVM_Decode s raw now = (s', Inr evs)" and e: "e \<in> set evs"
  from d show "event_wf e" using e by (cases rule: EVM_Decode_cases) (auto dest: evm_event_facts)
  from d show "Event_Venue e = EVM_Name s"
    using e by (cases rule: EVM_Decode_cases) (auto simp: EVM_Name_def dest: evm_event_facts)
next
  fix s raw now s' r
  assume "EVM_Decode s raw now = (s', r)"
  then show "EVM_Name s' = EVM_Name s"
    by (cases rule: EVM_Decode_cases) (auto simp: EVM_Name_def dest: evm_event_facts)
qed

abbreviation sequenced :: "Event list \<Rightarrow> int64 list" where
  "sequenced evs \<equiv> filter (\<lambda>s. s \<noteq> NoSequence) (map Event_Sequence evs)"

lemma pump_evm_increasing:
  assumes "0 \<le> evm_lastBlock e"
  shows "sorted_wrt (<) (sequenced (snd (pump EVM_Decode e frames)))
       \<and> (\<forall>s \<in> set (sequenced (snd (pump EVM_Decode e frames))). evm_lastBlock e < s)"
  using assms
proof (induction frames arbitrary: e)
  case (Cons f frames)
  obtain raw now e' r where f: "f = (raw, now)" and d: "EVM_Decode e raw now = (e', r)"
    by (metis surj_pair)
  from d show ?case
  proof (cases rule: EVM_Decode_cases)
    case none
    with Cons f d show ?thesis by (auto simp: split_beta)
  next
    case (transfer l amount blockNum logIdx ev)
    note ev = evm_event_facts [OF transfer(1)]
    have "0 \<le> evm_lastBlock e'" "evm_lastBlock e' = max (evm_lastBlock e) blockNum"
      using Cons.prems ev(4) by simp_all
    with Cons.IH [of e'] Cons.prems ev(5) f d transfer(2) show ?thesis
      by (auto simp: split_beta NoSequence_def)
  qed
qed simp

text \<open>
  The block an event's transfer is in, and the sequence numbers of a feed with those
  blocks when \<open>seen\<close> is the highest block seen before it.
\<close>

abbreviation block_of :: "Event \<Rightarrow> int64" where
  "block_of ev \<equiv> Chain_BlockNumber (the (Event_Chain ev))"

abbreviation announced :: "int64 \<Rightarrow> int64 list \<Rightarrow> int64 list" where
  "announced seen bs \<equiv>
     map (\<lambda>i. if Max (insert seen (set (take i bs))) < bs ! i then bs ! i else NoSequence) [0..<length bs]"

lemma announced_Cons:
  "announced seen (b # bs) = (if seen < b then b else NoSequence) # announced (max seen b) bs"
  unfolding length_Cons map_upt_Suc by (simp add: conj_assoc)

lemma pump_evm_announced:
  "list_all (\<lambda>ev. Event_Chain ev \<noteq> None) (snd (pump EVM_Decode e frames))
   \<and> map Event_Sequence (snd (pump EVM_Decode e frames)) =
       announced (evm_lastBlock e) (map block_of (snd (pump EVM_Decode e frames)))
   \<and> (\<exists>ls. subseq ls (List.map_filter (frame_log \<circ> fst) frames)
        \<and> map (\<lambda>l. hexToInt64 (rl_BlockNumber l)) ls = map (Inr \<circ> block_of) (snd (pump EVM_Decode e frames)))"
proof (induction frames arbitrary: e)
  case (Cons f frames)
  obtain raw now e' r where f: "f = (raw, now)" and d: "EVM_Decode e raw now = (e', r)"
    by (metis surj_pair)
  let ?rest = "snd (pump EVM_Decode e' frames)" and ?logs = "List.map_filter (frame_log \<circ> fst) frames"
  from Cons.IH [of e'] obtain ls where IH: "list_all (\<lambda>ev. Event_Chain ev \<noteq> None) ?rest"
    "map Event_Sequence ?rest = announced (evm_lastBlock e') (map block_of ?rest)"
    "subseq ls ?logs" "map (\<lambda>l. hexToInt64 (rl_BlockNumber l)) ls = map (Inr \<circ> block_of) ?rest" by blast
  from d show ?case
  proof (cases rule: EVM_Decode_cases)
    case none
    then have p: "snd (pump EVM_Decode e (f # frames)) = ?rest" using f d by (auto simp: split_beta)
    have "subseq ls (List.map_filter (frame_log \<circ> fst) (f # frames))"
      using IH(3) by (auto simp: List.map_filter_simps intro: list_emb_Cons split: option.splits)
    with IH none(1) show ?thesis unfolding p by blast
  next
    case (transfer l amount blockNum logIdx ev)
    note ev = evm_event_facts [OF transfer(1)]
    have p: "snd (pump EVM_Decode e (f # frames)) = ev # ?rest" using f d transfer(2) by (simp add: split_beta)
    have b: "Event_Chain ev \<noteq> None" "block_of ev = blockNum" using ev(6) by auto
    have seen: "evm_lastBlock e' = max (evm_lastBlock e) (block_of ev)" using ev(4) b(2) by simp
    have "subseq (l # ls) (List.map_filter (frame_log \<circ> fst) (f # frames))"
      using IH(3) f transfer(5) by (simp add: List.map_filter_simps)
    moreover have "map (\<lambda>l. hexToInt64 (rl_BlockNumber l)) (l # ls) = map (Inr \<circ> block_of) (ev # ?rest)"
      using IH(4) transfer(4) b(2) by simp
    moreover have "map Event_Sequence (ev # ?rest) = announced (evm_lastBlock e) (map block_of (ev # ?rest))"
      unfolding list.map announced_Cons using IH(2) ev(5) b(2) seen by simp
    moreover have "list_all (\<lambda>ev. Event_Chain ev \<noteq> None) (ev # ?rest)" using IH(1) b(1) by simp
    ultimately show ?thesis unfolding p by blast
  qed
qed (simp add: List.map_filter_simps)

section \<open>Properties\<close>

text \<open>
  C21. Whatever frames arrive, in whatever order: every event of a chain's feed is a
  transfer, its block number is the one its log spells in hexadecimal, and its sequence
  number is that block number when the block is above 0 and above every block before it in
  the feed, and \<open>NoSequence\<close> otherwise. So the numbers the gap detector sees strictly
  increase and no block is announced to it twice.
\<close>

theorem evm_blocks_announced_once:
  "let evs = snd (pump EVM_Decode (NewEVM chain url tokens addresses) frames);
       blocks = map (\<lambda>ev. Chain_BlockNumber (the (Event_Chain ev))) evs
   in list_all (\<lambda>ev. Event_Chain ev \<noteq> None) evs
    \<and> (\<exists>ls. subseq ls (List.map_filter (frame_log \<circ> fst) frames)
         \<and> map (\<lambda>l. hexToInt64 (rl_BlockNumber l)) ls = map Inr blocks)
    \<and> map Event_Sequence evs =
        map (\<lambda>i. if Max (insert 0 (set (take i blocks))) < blocks ! i then blocks ! i else NoSequence)
          [0..<length blocks]
    \<and> sorted_wrt (<) (filter (\<lambda>s. s \<noteq> NoSequence) (map Event_Sequence evs))"
proof -
  let ?e = "NewEVM chain url tokens addresses"
  have seen: "evm_lastBlock ?e = 0" by (simp add: NewEVM_def Let_def)
  have "sorted_wrt (<) (sequenced (snd (pump EVM_Decode ?e frames)))"
    using pump_evm_increasing [of ?e frames] by (simp add: seen)
  then show ?thesis
    using pump_evm_announced [of ?e frames] unfolding seen Let_def list.map_comp [symmetric] by blast
qed

text \<open>
  C22. The amount is exact: read back as a decimal number, the string an event
  carries is the number the log's hex data stands for, at any size.
\<close>

theorem evm_amount_exact:
  assumes "evm_log e l now = (e', Inr [ev])"
  shows "\<exists>c. Event_Chain ev = Some c \<and>
           big_SetString (Chain_AmountRaw c) 10 = big_SetString (TrimPrefix (rl_Data l) ''0x'') 16"
  using assms
  by (auto simp: evm_log_def evm_event_def Let_def big_SetString_FormatInt
      split: if_splits option.splits sum.splits)

theorem evm_amount_exact_witness:
  "\<exists>e' ev c. evm_log (NewEVM ''ethereum'' '''' None [])
      \<lparr>rl_Address = ''0xA0b86991c6218b36c1d19d4a2e9eb0ce3606eb48'', rl_Topics = [TransferTopic0, ''0x01'', ''0x02''],
       rl_Data = ''0x1bc16d674ec80000'', rl_BlockNumber = ''0x10'', rl_TxHash = '''', rl_LogIndex = ''0x1'',
       rl_Removed = False\<rparr> 0 = (e', Inr [ev]) \<and> Event_Chain ev = Some c
    \<and> big_SetString (Chain_AmountRaw c) 10 = big_SetString (TrimPrefix ''0x1bc16d674ec80000'' ''0x'') 16"
proof -
  let ?l = "\<lparr>rl_Address = ''0xA0b86991c6218b36c1d19d4a2e9eb0ce3606eb48'',
       rl_Topics = [TransferTopic0, ''0x01'', ''0x02''],
       rl_Data = ''0x1bc16d674ec80000'', rl_BlockNumber = ''0x10'', rl_TxHash = '''', rl_LogIndex = ''0x1'',
       rl_Removed = False\<rparr>"
  let ?r = "evm_log (NewEVM ''ethereum'' '''' None []) ?l 0"
  have "case snd ?r of Inr [ev] \<Rightarrow> True | _ \<Rightarrow> False" by code_simp
  then obtain e' ev where r: "?r = (e', Inr [ev])"
    by (cases ?r) (auto split: sum.splits list.splits)
  from r evm_amount_exact [OF r] show ?thesis by auto
qed

text \<open>
  A topic that holds a left-padded 20-byte address yields that address, in
  lower case.
\<close>

theorem topicToAddress_padded:
  assumes "length addr = 40"
  shows "topicToAddress (''0x'' @ replicate 24 CHR ''0'' @ addr) = ''0x'' @ ToLower addr"
  using assms
  by (simp add: topicToAddress_def TrimPrefix_def HasPrefix_def Let_def ToLower_def)

end
