(* ===== verification/AvroWire.thy ===== *)
theory AvroWire
  imports GoStrings
begin

text \<open>
  The Confluent Avro wire format, \<open>internal/encode/avro.go\<close>: a magic byte, a
  four-byte big-endian schema id, and the Avro payload. Bytes are 8-bit words and the id
  is a 32-bit word, so the truncation in \<open>uint32(schemaID)\<close> is the truncation of the
  code. The Avro library (\<open>hamba/avro\<close>) is not part of the repository: its
  \<open>Parse\<close>, \<open>Marshal\<close>, \<open>Unmarshal\<close>, \<open>Resolve\<close> and \<open>Compatible\<close>
  are arguments of the definitions that call them, over an arbitrary type of schemas.

  The locale \<open>wire_framing\<close> is the contract between the framing and the code that
  reads frames back; it is interpreted on \<open>wire_header\<close> and \<open>SplitHeader\<close>.
\<close>

unbundle bit_operations_syntax

section \<open>Big-endian integers\<close>

text \<open>\<open>binary.BigEndian.PutUint32\<close> and \<open>binary.BigEndian.Uint32\<close>.\<close>

definition PutUint32 :: "32 word \<Rightarrow> bytes" where
  "PutUint32 v = [ucast (drop_bit 24 v), ucast (drop_bit 16 v), ucast (drop_bit 8 v), ucast v]"

definition Uint32 :: "bytes \<Rightarrow> 32 word" where
  "Uint32 b =
     ucast (b ! 3) OR push_bit 8 (ucast (b ! 2)) OR
     push_bit 16 (ucast (b ! 1)) OR push_bit 24 (ucast (b ! 0))"

section \<open>Data\<close>

definition MagicByte :: byte where "MagicByte = 0"

definition HeaderLen :: nat where "HeaderLen = 5"

definition ErrShortPayload :: goerror where
  "ErrShortPayload = Sentinel ''encode: payload shorter than wire header''"

definition ErrBadMagic :: goerror where
  "ErrBadMagic = Sentinel ''encode: bad magic byte''"

record 's Encoder =
  enc_schemaID :: int64
  enc_schema :: 's
  enc_header :: bytes

section \<open>Operations\<close>

definition hex_digit :: "nat \<Rightarrow> char" where
  "hex_digit n = ''0123456789abcdef'' ! n"

definition hex_byte :: "byte \<Rightarrow> string" where
  "hex_byte b = [hex_digit (unat b div 16), hex_digit (unat b mod 16)]"

text \<open>The header \<open>NewEncoder\<close> prepares: \<open>uint32(schemaID)\<close> keeps the low 32 bits.\<close>

definition wire_header :: "int64 \<Rightarrow> bytes" where
  "wire_header schemaID = MagicByte # PutUint32 (word_of_int schemaID)"

definition NewEncoder :: "(string \<Rightarrow> 's result) \<Rightarrow> int64 \<Rightarrow> string \<Rightarrow> 's Encoder result" where
  "NewEncoder parse schemaID schemaJSON =
     (case parse schemaJSON of
        Inl err \<Rightarrow> Inl (Errorf ''parse avro schema: %w'' [] (Some err))
      | Inr s \<Rightarrow> Inr \<lparr>enc_schemaID = schemaID, enc_schema = s, enc_header = wire_header schemaID\<rparr>)"

definition SchemaID :: "'s Encoder \<Rightarrow> int64" where
  "SchemaID e = enc_schemaID e"

definition Schema :: "'s Encoder \<Rightarrow> 's" where
  "Schema e = enc_schema e"

definition Encode ::
  "('s \<Rightarrow> 'v \<Rightarrow> bytes result) \<Rightarrow> 's Encoder \<Rightarrow> 'v \<Rightarrow> bytes result"
where
  "Encode marshal e v =
     (case marshal (enc_schema e) v of
        Inl err \<Rightarrow>
          Inl (Errorf ''avro marshal (schema id %d): %w'' [FormatInt (enc_schemaID e)] (Some err))
      | Inr payload \<Rightarrow> Inr (enc_header e @ payload))"

definition SplitHeader :: "bytes \<Rightarrow> (int64 \<times> bytes) result" where
  "SplitHeader b =
     (if length b < HeaderLen then Inl ErrShortPayload
      else if b ! 0 \<noteq> MagicByte then
        Inl (Errorf ''%w: got 0x%02x'' [hex_byte (b ! 0)] (Some ErrBadMagic))
      else Inr (uint (Uint32 (drop 1 (take HeaderLen b))), drop HeaderLen b))"

definition Decode :: "('s \<Rightarrow> bytes \<Rightarrow> 'v result) \<Rightarrow> 's \<Rightarrow> bytes \<Rightarrow> 'v result" where
  "Decode unmarshal writerSchema b =
     (case SplitHeader b of
        Inl err \<Rightarrow> Inl err
      | Inr (_, payload) \<Rightarrow> unmarshal writerSchema payload)"

definition DecodeResolved ::
  "('s \<Rightarrow> 's \<Rightarrow> 's result) \<Rightarrow> ('s \<Rightarrow> bytes \<Rightarrow> 'v result) \<Rightarrow> 's \<Rightarrow> 's \<Rightarrow> bytes \<Rightarrow> 'v result"
where
  "DecodeResolved resolve unmarshal readerSchema writerSchema b =
     (case SplitHeader b of
        Inl err \<Rightarrow> Inl err
      | Inr (_, payload) \<Rightarrow>
          (case resolve readerSchema writerSchema of
             Inl err \<Rightarrow> Inl (Errorf ''resolve reader against writer schema: %w'' [] (Some err))
           | Inr resolved \<Rightarrow> unmarshal resolved payload))"

definition Compatible :: "('s \<Rightarrow> 's \<Rightarrow> goerror option) \<Rightarrow> 's \<Rightarrow> 's \<Rightarrow> goerror option" where
  "Compatible compatible readerSchema writerSchema = compatible readerSchema writerSchema"

section \<open>Big-endian facts\<close>

lemma Uint32_PutUint32 [simp]: "Uint32 (PutUint32 v) = v"
proof (rule bit_word_eqI)
  fix n assume "n < LENGTH(32)"
  then show "bit (Uint32 (PutUint32 v)) n = bit v n"
    by (cases "24 \<le> n"; cases "16 \<le> n"; cases "8 \<le> n")
       (auto simp: Uint32_def PutUint32_def bit_simps)
qed

lemma PutUint32_Uint32: "PutUint32 (Uint32 [a, b, c, d]) = [a, b, c, d]"
proof -
  have "ucast (Uint32 [a, b, c, d]) = d"
    by (rule bit_word_eqI) (auto simp: Uint32_def bit_simps)
  moreover have "ucast (drop_bit 8 (Uint32 [a, b, c, d])) = c"
    by (rule bit_word_eqI) (auto simp: Uint32_def bit_simps dest: bit_imp_le_length)
  moreover have "ucast (drop_bit 16 (Uint32 [a, b, c, d])) = b"
    by (rule bit_word_eqI) (auto simp: Uint32_def bit_simps dest: bit_imp_le_length)
  moreover have "ucast (drop_bit 24 (Uint32 [a, b, c, d])) = a"
    by (rule bit_word_eqI) (auto simp: Uint32_def bit_simps dest: bit_imp_le_length)
  ultimately show ?thesis by (simp add: PutUint32_def)
qed

lemma PutUint32_length [simp]: "length (PutUint32 v) = 4"
  by (simp add: PutUint32_def)

lemma wire_header_length [simp]: "length (wire_header i) = HeaderLen"
  by (simp add: wire_header_def HeaderLen_def)

lemma wire_header_nth0 [simp]: "(wire_header i @ p) ! 0 = MagicByte"
  by (simp add: wire_header_def)

section \<open>The framing contract\<close>

text \<open>
  What a reader of frames relies on: splitting undoes framing, up to the ids that the
  header can represent, and accepts nothing but frames.
\<close>

locale wire_framing =
  fixes header :: "'i \<Rightarrow> bytes"
    and split :: "bytes \<Rightarrow> ('i \<times> bytes) result"
    and canon :: "'i \<Rightarrow> 'i"
  assumes split_frame: "split (header i @ p) = Inr (canon i, p)"
    and split_sound: "split b = Inr (i, p) \<Longrightarrow> canon i = i \<and> b = header i @ p"
begin

lemma split_iff: "split b = Inr (i, p) \<longleftrightarrow> canon i = i \<and> b = header i @ p"
  using split_frame [of i p] split_sound [of b i p] by auto

lemma frames_injective:
  "header i @ p = header j @ q \<Longrightarrow> canon i = canon j \<and> p = q"
  using split_frame [of i p] split_frame [of j q] by simp

end

lemma bytes5_cases:
  assumes "\<not> length b < HeaderLen"
  obtains m a0 a1 a2 a3 p where "b = m # a0 # a1 # a2 # a3 # p"
  using assms by (auto simp: HeaderLen_def not_less Suc_le_length_iff eval_nat_numeral)

lemma SplitHeader_header: "SplitHeader (wire_header i @ p) = Inr (i mod 4294967296, p)"
proof -
  have "drop 1 (take HeaderLen (wire_header i @ p)) = PutUint32 (word_of_int i)"
    by (simp add: wire_header_def HeaderLen_def)
  then show ?thesis
    by (simp add: SplitHeader_def uint_word_of_int take_bit_eq_mod del: append_take_drop_id)
qed

lemma SplitHeader_sound:
  assumes "SplitHeader b = Inr (i, p)"
  shows "i mod 4294967296 = i \<and> b = wire_header i @ p"
proof -
  from assms have "\<not> length b < HeaderLen" by (auto simp: SplitHeader_def)
  then obtain m a0 a1 a2 a3 q where b: "b = m # a0 # a1 # a2 # a3 # q" by (rule bytes5_cases)
  with assms have "m = MagicByte" "i = uint (Uint32 [a0, a1, a2, a3])" "p = q"
    by (auto simp: SplitHeader_def HeaderLen_def split: if_splits)
  moreover have "uint (Uint32 [a0, a1, a2, a3]) mod 4294967296 = uint (Uint32 [a0, a1, a2, a3])"
    using uint_lt2p [of "Uint32 [a0, a1, a2, a3]"] by simp
  ultimately show ?thesis using b by (simp add: wire_header_def PutUint32_Uint32)
qed

interpretation wire: wire_framing wire_header SplitHeader "\<lambda>i. i mod 4294967296"
  by unfold_locales (simp_all add: SplitHeader_header SplitHeader_sound)

lemma Encode_frame:
  assumes "NewEncoder parse sid js = Inr e" and "Encode marshal e v = Inr b"
  shows "\<exists>p. marshal (enc_schema e) v = Inr p \<and> b = wire_header sid @ p \<and> enc_schemaID e = sid"
  using assms by (auto simp: NewEncoder_def Encode_def split: sum.splits)

section \<open>Properties\<close>

text \<open>
  C16. \<open>SplitHeader\<close> accepts exactly the frames: it succeeds with id \<open>i\<close> and
  payload \<open>p\<close> if and only if \<open>i\<close> fits 32 bits and the input is the header of
  \<open>i\<close> followed by \<open>p\<close>.
\<close>

theorem SplitHeader_accepts_exactly_frames:
  "SplitHeader b = Inr (i, p) \<longleftrightarrow> 0 \<le> i \<and> i < 4294967296 \<and> b = wire_header i @ p"
proof -
  have "i mod 4294967296 = i \<longleftrightarrow> 0 \<le> i \<and> i < 4294967296"
    by (metis mod_pos_pos_trivial pos_mod_bound pos_mod_sign zero_less_numeral)
  then show ?thesis by (simp add: wire.split_iff)
qed

text \<open>
  The two ways to be refused: too short for a header, whatever the bytes,
  or a wrong first byte, an error that \<open>errors.Is\<close> finds \<open>ErrBadMagic\<close> in.
\<close>

theorem SplitHeader_errors:
  "(SplitHeader b = Inl ErrShortPayload \<longleftrightarrow> length b < 5)
   \<and> ((\<exists>err. SplitHeader b = Inl err \<and> errors_is err ErrBadMagic) \<longleftrightarrow>
        5 \<le> length b \<and> hd b \<noteq> 0)"
  by (cases b) (auto simp: SplitHeader_def HeaderLen_def ErrShortPayload_def ErrBadMagic_def MagicByte_def)

text \<open>
  What an encoder bound to id \<open>sid\<close> writes splits back into the
  payload \<open>avro.Marshal\<close> produced and the id modulo \<open>2^32\<close>: exactly \<open>sid\<close> for
  every non-negative 32-bit id.
\<close>

theorem Encode_SplitHeader_roundtrip:
  assumes "NewEncoder parse sid js = Inr e" and "Encode marshal e v = Inr b"
  shows "\<exists>p. marshal (Schema e) v = Inr p \<and> SplitHeader b = Inr (SchemaID e mod 2 ^ 32, p)
           \<and> length b = length p + 5"
  using Encode_frame [OF assms] by (auto simp: Schema_def SchemaID_def wire.split_frame HeaderLen_def)

theorem Encode_SplitHeader_roundtrip_witness:
  "\<exists>e b p. NewEncoder Inr 4242 ''string'' = Inr e \<and> Encode (\<lambda>s v. Inr [v]) e 7 = Inr b
     \<and> Inr [7] = Inr p \<and> SplitHeader b = Inr (4242, p) \<and> length b = length p + 5"
proof -
  obtain e where e: "NewEncoder Inr 4242 ''string'' = Inr e" by (simp add: NewEncoder_def)
  obtain b where b: "Encode (\<lambda>s v. Inr [v]) e 7 = Inr b" by (simp add: Encode_def)
  have "SchemaID e = 4242" using e by (auto simp: NewEncoder_def SchemaID_def)
  with e b Encode_SplitHeader_roundtrip [OF e b] show ?thesis by auto
qed

text \<open>
  C17. A reader that knows the writer's schema gets back the value that was
  encoded, provided the Avro library's \<open>Unmarshal\<close> inverts its \<open>Marshal\<close> on that
  schema. With a different reader schema it gets what \<open>Unmarshal\<close> makes of the same
  payload under the resolved schema.
\<close>

theorem Decode_Encode_roundtrip:
  assumes "NewEncoder parse sid js = Inr e" and "Encode marshal e v = Inr b"
    and avro_inverse: "\<forall>p. marshal (Schema e) v = Inr p \<longrightarrow> unmarshal (Schema e) p = Inr v"
  shows "Decode unmarshal (Schema e) b = Inr v
       \<and> (\<forall>r rs p. resolve r (Schema e) = Inr rs \<longrightarrow> marshal (Schema e) v = Inr p \<longrightarrow>
            DecodeResolved resolve unmarshal r (Schema e) b = unmarshal rs p)"
proof -
  from Encode_frame [OF assms(1,2)] obtain p where
    p: "marshal (Schema e) v = Inr p" "b = wire_header sid @ p" by (auto simp: Schema_def)
  with avro_inverse show ?thesis
    by (auto simp: Decode_def DecodeResolved_def wire.split_frame)
qed

theorem Decode_Encode_roundtrip_witness:
  "\<exists>e b. NewEncoder Inr 7 ''bytes'' = Inr e \<and> Encode (\<lambda>s v. Inr v) e [1, 2] = Inr b
     \<and> Decode (\<lambda>s b. Inr b) (Schema e) b = Inr [1, 2]"
proof -
  obtain e where e: "NewEncoder Inr 7 ''bytes'' = Inr e" by (simp add: NewEncoder_def)
  obtain b where b: "Encode (\<lambda>s v. Inr v) e [1, 2] = Inr b" by (simp add: Encode_def)
  from Decode_Encode_roundtrip [OF e b, of "\<lambda>s b. Inr b" "\<lambda>r w. Inr r"] e b show ?thesis by blast
qed

end
