(* ===== verification/Metrics.thy ===== *)
theory Metrics
  imports Prelude
begin

text \<open>
  The Prometheus series of \<open>internal/metrics/metrics.go\<close>. The client library is not
  part of the repository; what the program does to it is a sequence of calls on labelled
  series, so a run's effect is a list of \<open>metric_op\<close>s, oldest first, from which
  \<open>counter_total\<close> and \<open>gauge\<close> read what the client library would export.
  Histogram observations are kept in microseconds, before the conversion to float
  seconds. The table of the series (names, types, labels) is the code's; registering them
  and serving \<open>/metrics\<close> are modelled over the outcomes of the library calls.
\<close>

datatype series =
    EventsReceived | EventsPublished | PublishErrors | DecodeErrors | SequenceGaps
  | SequenceMessagesMissed | DuplicatesDropped | Reconnects | ConnectionUp | SourceLagSeconds
  | PublishLatencySeconds | PipelineQueueDepth | EventsDropped | SchemaRegistrations

datatype metric_op =
    Inc series "string list"
  | Add series "string list" int
  | SetGauge series "string list" int
  | ObserveUS series "string list" int64

type_synonym metrics_log = "metric_op list"

fun op_amount :: "series \<Rightarrow> metric_op \<Rightarrow> int" where
  "op_amount s (Inc s' _) = of_bool (s' = s)"
| "op_amount s (Add s' _ n) = (if s' = s then n else 0)"
| "op_amount s (SetGauge _ _ _) = 0"
| "op_amount s (ObserveUS _ _ _) = 0"

text \<open>A counter summed over its labels: what \<open>sum(rate(...))\<close> panels read.\<close>

definition counter_total :: "series \<Rightarrow> metrics_log \<Rightarrow> int" where
  "counter_total s ops = (\<Sum>op \<leftarrow> ops. op_amount s op)"

fun gauge :: "series \<Rightarrow> string list \<Rightarrow> metrics_log \<Rightarrow> int option" where
  "gauge s ls [] = None"
| "gauge s ls (SetGauge s' ls' v # ops) =
     (case gauge s ls ops of
        Some v' \<Rightarrow> Some v'
      | None \<Rightarrow> if s' = s \<and> ls' = ls then Some v else None)"
| "gauge s ls (_ # ops) = gauge s ls ops"

section \<open>The table of series\<close>

datatype series_type = CounterVec | GaugeVec | HistogramVec

definition namespace :: string where "namespace = ''tapeline''"
definition subsystem :: string where "subsystem = ''ingest''"

fun series_Name :: "series \<Rightarrow> string" where
  "series_Name EventsReceived = ''events_received_total''"
| "series_Name EventsPublished = ''events_published_total''"
| "series_Name PublishErrors = ''publish_errors_total''"
| "series_Name DecodeErrors = ''decode_errors_total''"
| "series_Name SequenceGaps = ''sequence_gaps_total''"
| "series_Name SequenceMessagesMissed = ''sequence_messages_missed_total''"
| "series_Name DuplicatesDropped = ''duplicates_dropped_total''"
| "series_Name Reconnects = ''reconnects_total''"
| "series_Name ConnectionUp = ''connection_up''"
| "series_Name SourceLagSeconds = ''source_lag_seconds''"
| "series_Name PublishLatencySeconds = ''publish_latency_seconds''"
| "series_Name PipelineQueueDepth = ''pipeline_queue_depth''"
| "series_Name EventsDropped = ''events_dropped_total''"
| "series_Name SchemaRegistrations = ''schema_registrations_total''"

fun series_labels :: "series \<Rightarrow> string list" where
  "series_labels EventsReceived = [''venue'', ''kind'']"
| "series_labels EventsPublished = [''venue'', ''topic'']"
| "series_labels PublishErrors = [''venue'', ''topic'']"
| "series_labels DecodeErrors = [''venue'']"
| "series_labels SequenceGaps = [''venue'', ''channel'']"
| "series_labels SequenceMessagesMissed = [''venue'', ''channel'']"
| "series_labels DuplicatesDropped = [''venue'', ''channel'']"
| "series_labels Reconnects = [''venue'', ''reason'']"
| "series_labels ConnectionUp = [''venue'']"
| "series_labels SourceLagSeconds = [''venue'', ''kind'']"
| "series_labels PublishLatencySeconds = [''topic'']"
| "series_labels PipelineQueueDepth = [''stage'']"
| "series_labels EventsDropped = []"
| "series_labels SchemaRegistrations = [''subject'']"

fun type_of_series :: "series \<Rightarrow> series_type" where
  "type_of_series ConnectionUp = GaugeVec"
| "type_of_series PipelineQueueDepth = GaugeVec"
| "type_of_series SourceLagSeconds = HistogramVec"
| "type_of_series PublishLatencySeconds = HistogramVec"
| "type_of_series _ = CounterVec"

text \<open>Bucket bounds in microseconds.\<close>

fun series_buckets :: "series \<Rightarrow> int list" where
  "series_buckets SourceLagSeconds =
     [1000, 5000, 10000, 25000, 50000, 100000, 250000, 500000, 1000000, 2500000, 5000000, 10000000]"
| "series_buckets PublishLatencySeconds =
     [500, 1000, 2500, 5000, 10000, 25000, 50000, 100000, 250000, 1000000]"
| "series_buckets _ = []"

definition fqName :: "series \<Rightarrow> string" where
  "fqName s = namespace @ ''_'' @ subsystem @ ''_'' @ series_Name s"

definition collectors :: "series list" where
  "collectors =
     [EventsReceived, EventsPublished, PublishErrors, DecodeErrors,
      SequenceGaps, SequenceMessagesMissed, DuplicatesDropped,
      Reconnects, ConnectionUp, SourceLagSeconds, PublishLatencySeconds,
      PipelineQueueDepth, SchemaRegistrations, EventsDropped]"

text \<open>
  \<open>init\<close>: every collector is registered; \<open>None\<close> is the panic of \<open>MustRegister\<close>, which
  the registry (an argument, with its state) raises when it refuses a collector.
\<close>

definition init_registry :: "('r \<Rightarrow> series \<Rightarrow> 'r option) \<Rightarrow> 'r \<Rightarrow> 'r option" where
  "init_registry register reg =
     fold (\<lambda>c r. case r of None \<Rightarrow> None | Some reg \<Rightarrow> register reg c) collectors (Some reg)"

text \<open>
  \<open>WithLabelValues\<close> panics on a wrong number of values and \<open>Counter.Add\<close> on a negative
  amount; a call that does neither, on a series of its type, is well typed.
\<close>

fun op_typed :: "metric_op \<Rightarrow> bool" where
  "op_typed (Inc s ls) \<longleftrightarrow> type_of_series s = CounterVec \<and> length ls = length (series_labels s)"
| "op_typed (Add s ls n) \<longleftrightarrow> type_of_series s = CounterVec \<and> length ls = length (series_labels s) \<and> 0 \<le> n"
| "op_typed (SetGauge s ls _) \<longleftrightarrow> type_of_series s = GaugeVec \<and> length ls = length (series_labels s)"
| "op_typed (ObserveUS s ls _) \<longleftrightarrow> type_of_series s = HistogramVec \<and> length ls = length (series_labels s)"

section \<open>Serving\<close>

text \<open>
  \<open>Serve\<close> over what the server does: \<open>ListenAndServe\<close>'s error and whether it comes before
  the context is done. On cancellation the server is shut down and the error of the listener
  goroutine awaited; a closed server is no error.
\<close>

definition http_ErrServerClosed :: goerror where
  "http_ErrServerClosed = Sentinel ''http: Server closed''"

datatype serve_effect = Listen string | Shutdown int64

definition listen_result :: "goerror option \<Rightarrow> goerror option" where
  "listen_result err =
     (case err of Some e \<Rightarrow> if errors_is e http_ErrServerClosed then None else Some e | None \<Rightarrow> None)"

definition Serve :: "string \<Rightarrow> bool \<Rightarrow> goerror option \<Rightarrow> serve_effect list \<times> goerror option" where
  "Serve addr cancelled_first listen_err =
     (if cancelled_first
      then ([Listen addr, Shutdown (5 * 1000000000)], listen_result listen_err)
      else ([Listen addr], listen_result listen_err))"

text \<open>The handler: \<open>/metrics\<close> is the registry's page, \<open>/healthz\<close> answers 200 \<open>ok\<close>.\<close>

definition metrics_handler :: "string \<Rightarrow> string \<Rightarrow> (int \<times> string) option" where
  "metrics_handler page path =
     (if path = ''/metrics'' then Some (200, page)
      else if path = ''/healthz'' then Some (200, ''ok'')
      else None)"

section \<open>Lag\<close>

text \<open>\<open>ObserveSourceLag\<close>: events without a timestamp or from the future are skipped.\<close>

definition ObserveSourceLag :: "string \<Rightarrow> string \<Rightarrow> int64 \<Rightarrow> int64 \<Rightarrow> metrics_log" where
  "ObserveSourceLag venue kind eventTimeUS ingestTimeUS =
     (if eventTimeUS \<le> 0 \<or> ingestTimeUS < eventTimeUS then []
      else [ObserveUS SourceLagSeconds [venue, kind] (wrap64 (ingestTimeUS - eventTimeUS))])"

lemma counter_total_simps [simp]:
  "counter_total s [] = 0"
  "counter_total s (op # ops) = op_amount s op + counter_total s ops"
  "counter_total s (xs @ ys) = counter_total s xs + counter_total s ys"
  by (simp_all add: counter_total_def)

lemma counter_total_lag [simp]: "counter_total s (ObserveSourceLag v k e i) = 0"
  by (simp add: ObserveSourceLag_def)

lemma counter_total_same:
  "(\<And>op. op \<in> set ops \<Longrightarrow> op_amount s op = 0) \<Longrightarrow> counter_total s ops = 0"
  by (induction ops) auto

lemma gauge_append:
  "gauge s ls (xs @ ys) = (case gauge s ls ys of Some v \<Rightarrow> Some v | None \<Rightarrow> gauge s ls xs)"
  by (induction s ls xs rule: gauge.induct) (auto split: option.splits)

lemma ObserveSourceLag_typed [simp]: "list_all op_typed (ObserveSourceLag v k e i)"
  by (simp add: ObserveSourceLag_def)

section \<open>Properties\<close>

text \<open>
  Every declared series is registered, once: initialisation covers all of them and
  does not panic on a registry that refuses only a name it already has. The exported names
  are distinct, so no dashboard panel reads two series.
\<close>

theorem registration_complete:
  assumes "\<And>names c. fqName c \<notin> names \<Longrightarrow> register names c = Some (insert (fqName c) names)"
  shows "init_registry register {} = Some (fqName ` UNIV) \<and> inj fqName \<and> set collectors = UNIV \<and> distinct collectors"
proof -
  have all: "set collectors = UNIV"
    by (auto simp: collectors_def) (metis series.exhaust)
  have dist: "distinct (map fqName collectors)" by code_simp
  then have inj: "inj fqName" unfolding all [symmetric] by (simp add: distinct_map)
  have "distinct (map fqName cs) \<Longrightarrow> names \<inter> fqName ` set cs = {} \<Longrightarrow>
      fold (\<lambda>c r. case r of None \<Rightarrow> None | Some reg \<Rightarrow> register reg c) cs (Some names) = Some (names \<union> fqName ` set cs)"
    for cs names
    using assms by (induction cs arbitrary: names) auto
  from this [OF dist, of "{}"] show ?thesis
    using inj all dist by (auto simp: init_registry_def distinct_map)
qed

theorem registration_complete_witness:
  "init_registry (\<lambda>names c. if fqName c \<in> names then None else Some (insert (fqName c) names)) {} = Some (fqName ` UNIV)"
  using registration_complete [of "\<lambda>names c. if fqName c \<in> names then None else Some (insert (fqName c) names)"] by simp

text \<open>
  The lag histogram only ever sees non-negative lags: an event is observed exactly
  when its timestamp is present and not in the future, and then with receipt time minus
  event time, which cannot overflow.
\<close>

theorem ObserveSourceLag_nonnegative:
  assumes "in_int64 eventTimeUS" and "in_int64 ingestTimeUS"
  shows "ObserveSourceLag venue kind eventTimeUS ingestTimeUS =
           (if 0 < eventTimeUS \<and> eventTimeUS \<le> ingestTimeUS
            then [ObserveUS SourceLagSeconds [venue, kind] (ingestTimeUS - eventTimeUS)] else [])"
  using assms by (auto simp: ObserveSourceLag_def in_int64_def wrap64_id)

end
