(* ===== verification/Sink.thy ===== *)
theory Sink
  imports Metrics GoTime GoStrings "HOL-Library.Sublist"
begin

text \<open>
  Publishing, \<open>internal/sink/kafka.go\<close>: the message, the producer configuration, the
  Kafka producer and the in-memory producer of the dry-run mode. The Kafka client's
  \<open>WriteMessages\<close> is an argument of \<open>Kafka_Publish\<close>.

  The \<open>Producer\<close> interface is the locale \<open>producer\<close>: a publish that returns nil
  has appended the whole batch, one that fails has appended some of it, in order.
  \<open>atomic_producer\<close> adds that a failure appends nothing. The in-memory producer is an
  atomic one, also when it fails on a script; the Kafka producer is a producer for every writer that keeps the documented
  contract of \<open>WriteMessages\<close>.
\<close>

section \<open>Data\<close>

text \<open>
  \<open>Trace\<close> is a Go map: here its entries in the order the range loop visits them, empty
  for nil.
\<close>

record Message =
  Msg_Topic :: string
  Msg_Key :: string
  Msg_Value :: bytes
  Msg_TimeUS :: int64
  Msg_Venue :: string
  Msg_Kind :: string
  Msg_Trace :: "(string \<times> string) list"

datatype RequiredAcks = RequireNone | RequireOne | RequireAll

datatype Compression = Gzip | Snappy | Lz4 | Zstd

text \<open>Durations are in nanoseconds, as \<open>time.Duration\<close> is.\<close>

record SinkConfig =
  sc_Brokers :: "string list"
  sc_RequiredAcks :: RequiredAcks
  sc_BatchSize :: int64
  sc_BatchBytes :: int64
  sc_BatchTimeout :: int64
  sc_Compression :: Compression
  sc_Async :: bool

definition DefaultConfig :: "string list \<Rightarrow> SinkConfig" where
  "DefaultConfig brokers =
     \<lparr>sc_Brokers = brokers, sc_RequiredAcks = RequireAll, sc_BatchSize = 500,
      sc_BatchBytes = 1048576, sc_BatchTimeout = 10 * 1000000, sc_Compression = Lz4,
      sc_Async = False\<rparr>"

text \<open>The fields of \<open>kafka.Writer\<close> that \<open>NewKafkaProducer\<close> sets.\<close>

datatype Balancer = Hash | RoundRobin

record KafkaWriter =
  kw_Addr :: "string list"
  kw_Topic :: string
  kw_Balancer :: Balancer
  kw_RequiredAcks :: RequiredAcks
  kw_BatchSize :: int64
  kw_BatchBytes :: int64
  kw_BatchTimeout :: int64
  kw_Compression :: Compression
  kw_Async :: bool
  kw_MaxAttempts :: int64
  kw_AllowAutoTopicCreation :: bool

definition NewKafkaProducer :: "SinkConfig \<Rightarrow> KafkaWriter" where
  "NewKafkaProducer cfg =
     \<lparr>kw_Addr = sc_Brokers cfg, kw_Topic = '''', kw_Balancer = Hash,
      kw_RequiredAcks = sc_RequiredAcks cfg, kw_BatchSize = sc_BatchSize cfg,
      kw_BatchBytes = sc_BatchBytes cfg, kw_BatchTimeout = sc_BatchTimeout cfg,
      kw_Compression = sc_Compression cfg, kw_Async = sc_Async cfg, kw_MaxAttempts = 10,
      kw_AllowAutoTopicCreation = False\<rparr>"

section \<open>The Kafka producer\<close>

record KafkaMessage =
  km_Topic :: string
  km_Key :: string
  km_Value :: bytes
  km_Time :: gotime
  km_Headers :: "(string \<times> string) list"

definition kafka_message :: "Message \<Rightarrow> KafkaMessage" where
  "kafka_message m =
     \<lparr>km_Topic = Msg_Topic m, km_Key = Msg_Key m, km_Value = Msg_Value m,
      km_Time = Msg_TimeUS m * 1000,
      km_Headers = [(''venue'', Msg_Venue m), (''kind'', Msg_Kind m)] @ Msg_Trace m\<rparr>"

text \<open>
  The writer's state \<open>'w\<close> and the metrics move together; \<open>elapsed\<close> is the duration
  measured around a write, in microseconds.
\<close>

definition publish_metrics :: "int64 \<Rightarrow> goerror option \<Rightarrow> Message \<Rightarrow> metrics_log" where
  "publish_metrics elapsed err m =
     [ObserveUS PublishLatencySeconds [Msg_Topic m] elapsed,
      (if err \<noteq> None then Inc PublishErrors [Msg_Venue m, Msg_Topic m]
       else Inc EventsPublished [Msg_Venue m, Msg_Topic m])]"

definition Kafka_Publish ::
  "('w \<Rightarrow> KafkaMessage list \<Rightarrow> 'w \<times> goerror option) \<Rightarrow> ('w \<Rightarrow> KafkaMessage list \<Rightarrow> int64) \<Rightarrow>
   'w \<times> metrics_log \<Rightarrow> Message list \<Rightarrow> ('w \<times> metrics_log) \<times> goerror option"
where
  "Kafka_Publish WriteMessages elapsed p msgs =
     (if msgs = [] then (p, None)
      else
        (let (w, ops) = p;
             kms = map kafka_message msgs;
             (w', err) = WriteMessages w kms
         in ((w', ops @ concat (map (publish_metrics (elapsed w kms) err) msgs)), err)))"

text \<open>\<open>Close\<close> flushes and closes the writer, whose own \<open>Close\<close> is the library's.\<close>

definition Kafka_Close ::
  "('w \<Rightarrow> 'w \<times> goerror option) \<Rightarrow> 'w \<times> metrics_log \<Rightarrow> ('w \<times> metrics_log) \<times> goerror option"
where
  "Kafka_Close writer_Close p = (case writer_Close (fst p) of (w, err) \<Rightarrow> ((w, snd p), err))"

section \<open>The in-memory producer\<close>

record MemoryProducer =
  mp_messages :: "Message list"
  mp_closed :: bool
  mp_failWith :: "goerror option"

definition NewMemoryProducer :: MemoryProducer where
  "NewMemoryProducer = \<lparr>mp_messages = [], mp_closed = False, mp_failWith = None\<rparr>"

definition SetFailure :: "MemoryProducer \<Rightarrow> goerror option \<Rightarrow> MemoryProducer" where
  "SetFailure m err = m\<lparr>mp_failWith := err\<rparr>"

definition Memory_Publish ::
  "MemoryProducer \<Rightarrow> Message list \<Rightarrow> MemoryProducer \<times> goerror option"
where
  "Memory_Publish m msgs =
     (if mp_closed m then (m, Some (Sentinel ''sink: producer closed''))
      else case mp_failWith m of
             Some err \<Rightarrow> (m, Some err)
           | None \<Rightarrow> (m\<lparr>mp_messages := mp_messages m @ msgs\<rparr>, None))"

definition Messages :: "MemoryProducer \<Rightarrow> Message list" where
  "Messages m = mp_messages m"

definition Memory_Len :: "MemoryProducer \<Rightarrow> nat" where
  "Memory_Len m = length (mp_messages m)"

definition Memory_Close :: "MemoryProducer \<Rightarrow> MemoryProducer \<times> goerror option" where
  "Memory_Close m = (m\<lparr>mp_closed := True\<rparr>, None)"

section \<open>The producer interface\<close>

locale producer =
  fixes publish :: "'p \<Rightarrow> Message list \<Rightarrow> 'p \<times> goerror option"
    and stored :: "'p \<Rightarrow> 'r list"
    and as_record :: "Message \<Rightarrow> 'r"
  assumes publish_ok: "publish p ms = (p', None) \<Longrightarrow> stored p' = stored p @ map as_record ms"
    and publish_err:
      "publish p ms = (p', Some err) \<Longrightarrow>
         \<exists>part. subseq part ms \<and> stored p' = stored p @ map as_record part"
begin

text \<open>Whatever the outcome, nothing that was stored is lost and nothing is invented.\<close>

lemma publish_grows:
  obtains part where "subseq part ms" "stored (fst (publish p ms)) = stored p @ map as_record part"
proof (cases "publish p ms")
  case (Pair p' err)
  show thesis
  proof (cases err)
    case None
    with Pair publish_ok [of p ms p'] show thesis by (intro that [of ms]) auto
  next
    case (Some e)
    with Pair publish_err [of p ms p' e] show thesis by (auto intro: that)
  qed
qed

end

locale atomic_producer = producer +
  assumes publish_atomic: "publish p ms = (p', Some err) \<Longrightarrow> stored p' = stored p"

interpretation memory: atomic_producer Memory_Publish Messages "\<lambda>m. m"
  by unfold_locales
     (auto simp: Memory_Publish_def Messages_def split: if_splits option.splits)

text \<open>
  An in-memory producer under outages: before each publish \<open>SetFailure\<close> installs the
  next entry of a script, an error while the broker is away and none when it is back (and
  once the script has ended). It still writes all of a batch or nothing.
\<close>

definition Outage_Publish ::
  "MemoryProducer \<times> goerror option list \<Rightarrow> Message list \<Rightarrow>
   (MemoryProducer \<times> goerror option list) \<times> goerror option"
where
  "Outage_Publish q msgs =
     (case q of (m, script) \<Rightarrow>
        case Memory_Publish (SetFailure m (case script of [] \<Rightarrow> None | f # _ \<Rightarrow> f)) msgs of
          (m', err) \<Rightarrow> ((m', tl script), err))"

interpretation outage: atomic_producer Outage_Publish "Messages \<circ> fst" "\<lambda>m. m"
  by unfold_locales
     (auto simp: Outage_Publish_def Memory_Publish_def SetFailure_def Messages_def
       split: if_splits option.splits prod.splits)

text \<open>
  The documented contract of \<open>kafka.Writer.WriteMessages\<close> with \<open>Async\<close> off: nil means
  every message was written; an error may leave some of them written.
\<close>

definition writes_documented ::
  "('w \<Rightarrow> KafkaMessage list \<Rightarrow> 'w \<times> goerror option) \<Rightarrow> ('w \<Rightarrow> KafkaMessage list) \<Rightarrow> bool"
where
  "writes_documented WriteMessages written \<longleftrightarrow>
     (\<forall>w kms. case WriteMessages w kms of
        (w', None) \<Rightarrow> written w' = written w @ kms
      | (w', Some err) \<Rightarrow> (\<exists>part. subseq part kms \<and> written w' = written w @ part))"

lemma writes_documentedD:
  "writes_documented wm written \<Longrightarrow> wm w kms = (w', None) \<Longrightarrow> written w' = written w @ kms"
  "writes_documented wm written \<Longrightarrow> wm w kms = (w', Some err) \<Longrightarrow>
     \<exists>part. subseq part kms \<and> written w' = written w @ part"
  by (auto simp: writes_documented_def split: prod.splits option.splits) fastforce+

lemma subseq_map_pre: "subseq ys (map f xs) \<Longrightarrow> \<exists>zs. subseq zs xs \<and> ys = map f zs"
proof (induction xs arbitrary: ys)
  case (Cons x xs)
  from Cons.prems consider "subseq ys (map f xs)" | y where "ys = f x # y" "subseq y (map f xs)"
    by (cases ys) (auto split: if_splits)
  then show ?case
  proof cases
    case 1
    with Cons.IH show ?thesis by (meson list_emb_Cons)
  next
    case 2
    with Cons.IH obtain zs where "subseq zs xs" "y = map f zs" by blast
    with 2 show ?thesis by (intro exI [of _ "x # zs"]) simp
  qed
qed auto

lemma Kafka_is_producer:
  assumes "writes_documented wm written"
  shows "producer (Kafka_Publish wm elapsed) (written \<circ> fst) kafka_message"
proof
  fix p ms p'
  assume "Kafka_Publish wm elapsed p ms = (p', None)"
  then show "(written \<circ> fst) p' = (written \<circ> fst) p @ map kafka_message ms"
    using writes_documentedD(1) [OF assms, of "fst p" "map kafka_message ms" "fst p'"]
    by (auto simp: Kafka_Publish_def Let_def split: if_splits prod.splits)
next
  fix p ms p' err
  assume a: "Kafka_Publish wm elapsed p ms = (p', Some err)"
  then have "wm (fst p) (map kafka_message ms) = (fst p', Some err)"
    by (auto simp: Kafka_Publish_def Let_def split: if_splits prod.splits)
  from writes_documentedD(2) [OF assms this]
  show "\<exists>part. subseq part ms \<and> (written \<circ> fst) p' = (written \<circ> fst) p @ map kafka_message part"
    using subseq_map_pre by (metis comp_apply)
qed

section \<open>Properties\<close>

lemma publish_metrics_totals:
  "counter_total EventsPublished (concat (map (publish_metrics el err) ms)) =
     (if err = None then int (length ms) else 0)"
  "counter_total PublishErrors (concat (map (publish_metrics el err) ms)) =
     (if err = None then 0 else int (length ms))"
  by (induction ms) (auto simp: publish_metrics_def)

lemma Kafka_Publish_published:
  "Kafka_Publish wm elapsed q ms = (q', err) \<Longrightarrow>
     counter_total EventsPublished (snd q') =
       counter_total EventsPublished (snd q) + (if err = None then int (length ms) else 0)"
  by (auto simp: Kafka_Publish_def Let_def publish_metrics_totals split: prod.splits if_splits)

lemma publish_metrics_typed: "list_all op_typed (publish_metrics el err m)"
  by (simp add: publish_metrics_def)

lemma Kafka_Publish_typed:
  assumes "list_all op_typed (snd q)"
  shows "list_all op_typed (snd (fst (Kafka_Publish wm elapsed q ms)))"
  using assms publish_metrics_typed
  by (auto simp: Kafka_Publish_def Let_def list_all_iff split: prod.splits)

text \<open>
  Every message handed to \<open>Publish\<close> is counted once, as published
  when the write succeeded and as an error when it failed; and what reaches the writer is
  the batch itself, message by message, in order.
\<close>

theorem Kafka_Publish_counts_every_message:
  "let ((w', ops'), err) = Kafka_Publish wm elapsed (w, ops) msgs
   in counter_total EventsPublished ops' - counter_total EventsPublished ops =
        (if err = None then int (length msgs) else 0)
    \<and> counter_total PublishErrors ops' - counter_total PublishErrors ops =
        (if err = None then 0 else int (length msgs))
    \<and> (w', err) = (if msgs = [] then (w, None) else wm w (map kafka_message msgs))"
  by (auto simp: Kafka_Publish_def Let_def publish_metrics_totals split: prod.splits)

end
