(* ===== verification/Pipeline.thy ===== *)
theory Pipeline
  imports Gap AvroWire Sink "HOL-Library.Multiset"
begin

text \<open>
  The pipeline between the venue adapters and Kafka, \<open>internal/pipeline/pipeline.go\<close>:
  sequence check, framing, batching, flushing, and the select loop of \<open>Run\<close>.

  The loop's local variables and what it shares (statistics, batch, producer, detector,
  metrics) are one record; the cases its \<open>select\<close> takes are an explicit list of
  \<open>Input\<close>s, so every interleaving of arrivals, ticks and shutdown is a list. The
  counters of \<open>Stats\<close> are 64-bit words, so their increments wrap as the code's do.
  \<open>avro.Marshal\<close>, the trace headers that \<open>InjectKafka\<close> yields for an event, and the
  producer's \<open>Publish\<close> are arguments. A nil dereference ends the run as \<open>Panicked\<close>.
  Log lines and span attributes are not modelled.
\<close>

section \<open>Configuration and state\<close>

record 's PipelineConfig =
  p_Encoders :: "Kind \<rightharpoonup> 's Encoder"
  p_Topics :: "Kind \<rightharpoonup> string"
  p_BatchSize :: int64
  p_FlushInterval :: int64
  p_OnResync :: "(string \<Rightarrow> Key \<Rightarrow> Detector \<Rightarrow> Detector) option"
  p_DropOnGap :: bool
  p_MaxPendingEvents :: int64
  p_ConnectionScopedVenues :: "string \<rightharpoonup> bool"

record Stats =
  st_Received :: "64 word"
  st_Published :: "64 word"
  st_Duplicates :: "64 word"
  st_Gaps :: "64 word"
  st_Missed :: "64 word"
  st_EncodeErrs :: "64 word"
  st_PublishFailures :: "64 word"
  st_Dropped :: "64 word"

definition Stats_zero :: Stats where
  "Stats_zero = \<lparr>st_Received = 0, st_Published = 0, st_Duplicates = 0, st_Gaps = 0, st_Missed = 0,
     st_EncodeErrs = 0, st_PublishFailures = 0, st_Dropped = 0\<rparr>"

record 'p PipeState =
  ps_stats :: Stats
  ps_batch :: "Message list"
  ps_producer :: 'p
  ps_detector :: Detector
  ps_metrics :: metrics_log

text \<open>The defaults at the head of \<open>Run\<close>: 500 events, ten milliseconds, 100000 events.\<close>

definition with_defaults :: "'s PipelineConfig \<Rightarrow> 's PipelineConfig" where
  "with_defaults p =
     p\<lparr>p_BatchSize := (if p_BatchSize p \<le> 0 then 500 else p_BatchSize p),
       p_FlushInterval := (if p_FlushInterval p \<le> 0 then 10 * 1000000 else p_FlushInterval p),
       p_MaxPendingEvents := (if p_MaxPendingEvents p \<le> 0 then 100000 else p_MaxPendingEvents p)\<rparr>"

section \<open>The sequence check\<close>

definition channelFor :: "Kind \<Rightarrow> string" where
  "channelFor k =
     (if k = KindTrade then ''trades''
      else if k = KindBookDelta then ''book''
      else if k = KindChainTransfer then ''chain''
      else ''unknown'')"

definition sequenceKey :: "'s PipelineConfig \<Rightarrow> Event \<Rightarrow> Key" where
  "sequenceKey p ev =
     (if p_ConnectionScopedVenues p (Event_Venue ev) = Some True
      then \<lparr>Key_Venue = Event_Venue ev, Key_Symbol = '''', Key_Channel = ''connection''\<rparr>
      else \<lparr>Key_Venue = Event_Venue ev, Key_Symbol = Event_Symbol ev,
            Key_Channel = channelFor (Event_Kind ev)\<rparr>)"

text \<open>The result is the drop decision with the new statistics, detector and metric calls.\<close>

definition checkSequence ::
  "'s PipelineConfig \<Rightarrow> Event \<Rightarrow> Stats \<Rightarrow> Detector \<Rightarrow> bool \<times> Stats \<times> Detector \<times> metrics_log"
where
  "checkSequence p ev st det =
     (let key = sequenceKey p ev;
          (res, det1) = Observe det key (Event_Sequence ev);
          labels = [Event_Venue ev, Key_Channel key]
      in if Result_Status res = StatusDuplicate then
           (True, st\<lparr>st_Duplicates := st_Duplicates st + 1\<rparr>, det1, [Inc DuplicatesDropped labels])
         else if Result_Status res = StatusGap \<or> Result_Status res = StatusRegression then
           (p_DropOnGap p,
            st\<lparr>st_Gaps := st_Gaps st + 1,
               st_Missed := st_Missed st + word_of_int (Result_Missing res)\<rparr>,
            (case p_OnResync p of None \<Rightarrow> det1 | Some f \<Rightarrow> f (Event_Venue ev) key det1),
            Inc SequenceGaps labels #
              (if Result_Missing res > 0
               then [Add SequenceMessagesMissed labels (Result_Missing res)] else []))
         else (False, st, det1, []))"

section \<open>Framing\<close>

text \<open>\<open>None\<close> is the panic of dereferencing a nil payload pointer.\<close>

definition timestamps :: "Event \<Rightarrow> (int64 \<times> int64) option" where
  "timestamps ev =
     (if Event_Kind ev = KindTrade then
        map_option (\<lambda>t. (Trade_EventTimeUS t, Trade_IngestTimeUS t)) (Event_Trade ev)
      else if Event_Kind ev = KindBookDelta then
        map_option (\<lambda>b. (Book_EventTimeUS b, Book_IngestTimeUS b)) (Event_Book ev)
      else if Event_Kind ev = KindChainTransfer then
        map_option (\<lambda>c. (Chain_EventTimeUS c, Chain_IngestTimeUS c)) (Event_Chain ev)
      else Some (0, 0))"

definition frame ::
  "('s \<Rightarrow> payload \<Rightarrow> bytes result) \<Rightarrow> (Event \<Rightarrow> (string \<times> string) list) \<Rightarrow>
   's PipelineConfig \<Rightarrow> Event \<Rightarrow> (metrics_log \<times> Message result) option"
where
  "frame marshal inject p ev =
     (case p_Encoders p (Event_Kind ev) of
        None \<Rightarrow> Some ([], Inl (Errorf ''no encoder registered for kind %q'' [Event_Kind ev] None))
      | Some enc \<Rightarrow>
     (case p_Topics p (Event_Kind ev) of
        None \<Rightarrow> Some ([], Inl (Errorf ''no topic configured for kind %q'' [Event_Kind ev] None))
      | Some topic \<Rightarrow>
     (if Payload ev = PNil then
        Some ([], Inl (Errorf ''event of kind %q carries no payload'' [Event_Kind ev] None))
      else case Encode marshal enc (Payload ev) of
        Inl err \<Rightarrow> Some ([], Inl err)
      | Inr value \<Rightarrow>
     (case timestamps ev of
        None \<Rightarrow> None
      | Some (eventTimeUS, ingestTimeUS) \<Rightarrow>
          Some (ObserveSourceLag (Event_Venue ev) (Event_Kind ev) eventTimeUS ingestTimeUS,
            Inr \<lparr>Msg_Topic = topic, Msg_Key = Event_Symbol ev, Msg_Value = value,
                 Msg_TimeUS = eventTimeUS, Msg_Venue = Event_Venue ev, Msg_Kind = Event_Kind ev,
                 Msg_Trace = inject ev\<rparr>)))))"

section \<open>Flushing\<close>

definition depth_gauge :: "nat \<Rightarrow> metric_op" where
  "depth_gauge n = SetGauge PipelineQueueDepth [''batch''] (int n)"

text \<open>The failure branch of \<open>flush\<close>: the batch is kept, its oldest excess dropped.\<close>

definition retain :: "'s PipelineConfig \<Rightarrow> 'p PipeState \<Rightarrow> 'p PipeState" where
  "retain p s =
     (let batch = ps_batch s;
          st = (ps_stats s)\<lparr>st_PublishFailures := st_PublishFailures (ps_stats s) + 1\<rparr>
      in if int (length batch) > p_MaxPendingEvents p then
           (let dropped = length batch - nat (p_MaxPendingEvents p)
            in s\<lparr>ps_stats := st\<lparr>st_Dropped := st_Dropped st + of_nat dropped\<rparr>,
                 ps_batch := drop dropped batch,
                 ps_metrics := ps_metrics s @
                   [Add EventsDropped [] (int dropped), depth_gauge (length (drop dropped batch))]\<rparr>)
         else
           s\<lparr>ps_stats := st, ps_metrics := ps_metrics s @ [depth_gauge (length batch)]\<rparr>)"

definition flush ::
  "('p \<Rightarrow> Message list \<Rightarrow> 'p \<times> goerror option) \<Rightarrow> 's PipelineConfig \<Rightarrow> 'p PipeState \<Rightarrow> 'p PipeState"
where
  "flush publish p s =
     (if ps_batch s = [] then s
      else case publish (ps_producer s) (ps_batch s) of
        (prd, Some err) \<Rightarrow> retain p (s\<lparr>ps_producer := prd\<rparr>)
      | (prd, None) \<Rightarrow>
          s\<lparr>ps_stats := (ps_stats s)\<lparr>st_Published := st_Published (ps_stats s) + of_nat (length (ps_batch s))\<rparr>,
            ps_batch := [], ps_producer := prd,
            ps_metrics := ps_metrics s @ [depth_gauge 0]\<rparr>)"

section \<open>The loop\<close>

text \<open>The \<open>ev, ok := <-p.In\<close> case with \<open>ok\<close> true; \<open>None\<close> is a panic in \<open>frame\<close>.\<close>

definition receive ::
  "('s \<Rightarrow> payload \<Rightarrow> bytes result) \<Rightarrow> (Event \<Rightarrow> (string \<times> string) list) \<Rightarrow>
   ('p \<Rightarrow> Message list \<Rightarrow> 'p \<times> goerror option) \<Rightarrow> 's PipelineConfig \<Rightarrow>
   'p PipeState \<Rightarrow> Event \<Rightarrow> 'p PipeState option"
where
  "receive marshal inject publish p s ev =
     (let st1 = (ps_stats s)\<lparr>st_Received := st_Received (ps_stats s) + 1\<rparr>;
          ops1 = ps_metrics s @ [Inc EventsReceived [Event_Venue ev, Event_Kind ev]];
          (drop, st2, det, ops) = checkSequence p ev st1 (ps_detector s);
          s2 = s\<lparr>ps_stats := st2, ps_detector := det, ps_metrics := ops1 @ ops\<rparr>
      in if drop then Some s2
         else case frame marshal inject p ev of
           None \<Rightarrow> None
         | Some (ops', Inl err) \<Rightarrow>
             Some (s2\<lparr>ps_stats := st2\<lparr>st_EncodeErrs := st_EncodeErrs st2 + 1\<rparr>,
                      ps_metrics := ps_metrics s2 @ ops' @ [Inc DecodeErrors [Event_Venue ev]]\<rparr>)
         | Some (ops', Inr msg) \<Rightarrow>
             (let batch = ps_batch s2 @ [msg];
                  s3 = s2\<lparr>ps_batch := batch,
                          ps_metrics := ps_metrics s2 @ ops' @ [depth_gauge (length batch)]\<rparr>
              in Some (if p_BatchSize p \<le> int (length batch) then flush publish p s3 else s3)))"

text \<open>
  The \<open>ctx.Done()\<close> case. \<open>batch\<close> is a local variable that dies with the return; the
  field \<open>ps_batch\<close> of the state it leaves holds what was never published.
\<close>

definition final_flush ::
  "('p \<Rightarrow> Message list \<Rightarrow> 'p \<times> goerror option) \<Rightarrow> 'p PipeState \<Rightarrow> 'p PipeState"
where
  "final_flush publish s =
     (case publish (ps_producer s) (ps_batch s) of
        (prd, err) \<Rightarrow>
          if err \<noteq> None \<and> ps_batch s \<noteq> [] then s\<lparr>ps_producer := prd\<rparr>
          else s\<lparr>ps_stats := (ps_stats s)\<lparr>st_Published := st_Published (ps_stats s) + of_nat (length (ps_batch s))\<rparr>,
                 ps_batch := [], ps_producer := prd\<rparr>)"

datatype Input =
    Recv Event   \<comment> \<open>an event arrives on \<open>In\<close>\<close>
  | Closed       \<comment> \<open>\<open>In\<close> is closed and drained\<close>
  | Tick         \<comment> \<open>the flush ticker fires\<close>
  | Done         \<comment> \<open>the context is cancelled\<close>

datatype 'p Outcome =
    Running "'p PipeState"    \<comment> \<open>blocked in \<open>select\<close> after these inputs\<close>
  | Returned "'p PipeState"   \<comment> \<open>\<open>Run\<close> has returned\<close>
  | Panicked

fun run_loop ::
  "('s \<Rightarrow> payload \<Rightarrow> bytes result) \<Rightarrow> (Event \<Rightarrow> (string \<times> string) list) \<Rightarrow>
   ('p \<Rightarrow> Message list \<Rightarrow> 'p \<times> goerror option) \<Rightarrow> 's PipelineConfig \<Rightarrow>
   'p PipeState \<Rightarrow> Input list \<Rightarrow> 'p Outcome"
where
  "run_loop marshal inject publish p s [] = Running s"
| "run_loop marshal inject publish p s (Done # _) = Returned (final_flush publish s)"
| "run_loop marshal inject publish p s (Closed # _) = Returned (flush publish p s)"
| "run_loop marshal inject publish p s (Tick # rest) =
     run_loop marshal inject publish p (flush publish p s) rest"
| "run_loop marshal inject publish p s (Recv ev # rest) =
     (case receive marshal inject publish p s ev of
        None \<Rightarrow> Panicked
      | Some s' \<Rightarrow> run_loop marshal inject publish p s' rest)"

definition Pipeline_init :: "Detector option \<Rightarrow> 'p \<Rightarrow> 'p PipeState" where
  "Pipeline_init det prd =
     \<lparr>ps_stats = Stats_zero, ps_batch = [], ps_producer = prd,
      ps_detector = (case det of None \<Rightarrow> New | Some d \<Rightarrow> d), ps_metrics = []\<rparr>"

definition Pipeline_Run ::
  "('s \<Rightarrow> payload \<Rightarrow> bytes result) \<Rightarrow> (Event \<Rightarrow> (string \<times> string) list) \<Rightarrow>
   ('p \<Rightarrow> Message list \<Rightarrow> 'p \<times> goerror option) \<Rightarrow> 's PipelineConfig \<Rightarrow>
   Detector option \<Rightarrow> 'p \<Rightarrow> Input list \<Rightarrow> 'p Outcome"
where
  "Pipeline_Run marshal inject publish p det prd inputs =
     run_loop marshal inject publish (with_defaults p) (Pipeline_init det prd) inputs"

section \<open>Invariants of the loop\<close>

text \<open>
  An assertion that the flush and the receive step keep holds while the loop runs; what
  the two exits establish from it holds when \<open>Run\<close> returns.
\<close>

lemma run_loop_invariant:
  assumes recv: "\<And>s ev s'. I s \<Longrightarrow> Recv ev \<in> set inputs \<Longrightarrow>
      receive marshal inject publish p s ev = Some s' \<Longrightarrow> I s'"
    and flush: "\<And>s. I s \<Longrightarrow> I (flush publish p s)"
    and exit: "\<And>s. I s \<Longrightarrow> J (flush publish p s)" "\<And>s. I s \<Longrightarrow> J (final_flush publish s)"
    and init: "I s"
  shows "case run_loop marshal inject publish p s inputs of
           Running s' \<Rightarrow> I s' | Returned s' \<Rightarrow> J s' | Panicked \<Rightarrow> True"
  using recv init
proof (induction inputs arbitrary: s)
  case (Cons i inputs)
  then show ?case
  proof (cases i)
    case (Recv ev)
    then show ?thesis
    proof (cases "receive marshal inject publish p s ev")
      case (Some s')
      moreover have "I s'" using Cons.prems Recv Some by auto
      ultimately show ?thesis using Cons.IH [of s'] Cons.prems(1) Recv by auto
    qed simp
  next
    case Tick
    then show ?thesis using Cons.IH [OF _ flush [OF Cons.prems(2)]] Cons.prems(1) by simp
  qed (simp_all add: exit)
qed simp

text \<open>The three verdicts of the sequence check.\<close>

abbreviation observed :: "'s PipelineConfig \<Rightarrow> Event \<Rightarrow> Detector \<Rightarrow> Result \<times> Detector" where
  "observed p ev det \<equiv> Observe det (sequenceKey p ev) (Event_Sequence ev)"

abbreviation gap_labels :: "'s PipelineConfig \<Rightarrow> Event \<Rightarrow> string list" where
  "gap_labels p ev \<equiv> [Event_Venue ev, Key_Channel (sequenceKey p ev)]"

lemma checkSequence_cases:
  assumes "checkSequence p ev st det = (drp, st', det', ops)"
  obtains
    (duplicate) "Result_Status (fst (observed p ev det)) = StatusDuplicate" "drp"
      "st' = st\<lparr>st_Duplicates := st_Duplicates st + 1\<rparr>" "det' = snd (observed p ev det)"
      "ops = [Inc DuplicatesDropped (gap_labels p ev)]"
  | (gap) missing where "NeedsResync (fst (observed p ev det))" "drp = p_DropOnGap p"
      "st' = st\<lparr>st_Gaps := st_Gaps st + 1, st_Missed := st_Missed st + word_of_int missing\<rparr>"
      "ops = Inc SequenceGaps (gap_labels p ev) #
         (if missing > 0 then [Add SequenceMessagesMissed (gap_labels p ev) missing] else [])"
  | (pass) "\<not> drp" "st' = st" "det' = snd (observed p ev det)" "ops = []"
      "Result_Status (fst (observed p ev det)) \<noteq> StatusDuplicate"
      "\<not> NeedsResync (fst (observed p ev det))"
proof -
  obtain res det1 where o: "observed p ev det = (res, det1)" by (cases "observed p ev det")
  consider "Result_Status res = StatusDuplicate"
    | "Result_Status res \<noteq> StatusDuplicate" "NeedsResync res"
    | "Result_Status res \<noteq> StatusDuplicate" "\<not> NeedsResync res" by blast
  then show thesis
  proof cases
    case 1
    with assms o show thesis
      by (intro duplicate) (simp_all add: checkSequence_def Let_def)
  next
    case 2
    with assms o show thesis
      by (intro gap [of "Result_Missing res"]) (simp_all add: checkSequence_def Let_def NeedsResync_def)
  next
    case 3
    with assms o show thesis
      by (intro pass) (simp_all add: checkSequence_def Let_def NeedsResync_def)
  qed
qed

lemma checkSequence_drop:
  "fst (checkSequence p ev st det) \<longleftrightarrow>
     Result_Status (fst (observed p ev det)) = StatusDuplicate \<or>
     NeedsResync (fst (observed p ev det)) \<and> p_DropOnGap p"
proof -
  obtain drp st' det' ops where c: "checkSequence p ev st det = (drp, st', det', ops)"
    by (metis prod_cases4)
  from c show ?thesis by (cases rule: checkSequence_cases) (auto simp: c NeedsResync_def)
qed

text \<open>The drop decision and the new detector do not depend on the statistics.\<close>

lemma checkSequence_stats_irrelevant:
  "fst (checkSequence p ev st det) = fst (checkSequence p ev st' det)"
  "fst (snd (snd (checkSequence p ev st det))) = fst (snd (snd (checkSequence p ev st' det)))"
  by (simp_all add: checkSequence_def Let_def split_beta)

text \<open>The three ways an event leaves the receive step.\<close>

abbreviation received_stats :: "'p PipeState \<Rightarrow> Stats" where
  "received_stats s \<equiv> (ps_stats s)\<lparr>st_Received := st_Received (ps_stats s) + 1\<rparr>"

abbreviation received_ops :: "'p PipeState \<Rightarrow> Event \<Rightarrow> metrics_log \<Rightarrow> metrics_log" where
  "received_ops s ev ops \<equiv> (ps_metrics s @ [Inc EventsReceived [Event_Venue ev, Event_Kind ev]]) @ ops"

lemma receive_cases:
  assumes "receive marshal inject publish p s ev = Some s'"
  obtains
    (dropped) st2 det ops where
      "checkSequence p ev (received_stats s) (ps_detector s) = (True, st2, det, ops)"
      "s' = s\<lparr>ps_stats := st2, ps_detector := det, ps_metrics := received_ops s ev ops\<rparr>"
  | (failed) st2 det ops ops' err where
      "checkSequence p ev (received_stats s) (ps_detector s) = (False, st2, det, ops)"
      "frame marshal inject p ev = Some (ops', Inl err)"
      "s' = s\<lparr>ps_stats := st2\<lparr>st_EncodeErrs := st_EncodeErrs st2 + 1\<rparr>, ps_detector := det,
             ps_metrics := received_ops s ev ops @ ops' @ [Inc DecodeErrors [Event_Venue ev]]\<rparr>"
  | (appended) st2 det ops ops' msg s3 where
      "checkSequence p ev (received_stats s) (ps_detector s) = (False, st2, det, ops)"
      "frame marshal inject p ev = Some (ops', Inr msg)"
      "s3 = s\<lparr>ps_stats := st2, ps_detector := det, ps_batch := ps_batch s @ [msg],
             ps_metrics := received_ops s ev ops @ ops' @ [depth_gauge (length (ps_batch s @ [msg]))]\<rparr>"
      "s' = (if p_BatchSize p \<le> int (length (ps_batch s3)) then flush publish p s3 else s3)"
proof -
  obtain drp st2 det ops where c:
    "checkSequence p ev (received_stats s) (ps_detector s) = (drp, st2, det, ops)"
    by (metis prod_cases4)
  show thesis
  proof (cases drp)
    case True
    with assms c show thesis by (intro dropped) (auto simp: receive_def)
  next
    case False
    with assms c obtain ops' r where f: "frame marshal inject p ev = Some (ops', r)"
      by (auto simp: receive_def Let_def split: option.splits)
    show thesis
    proof (cases r)
      case (Inl err)
      with False assms c f show thesis by (intro failed) (auto simp: receive_def Let_def)
    next
      case (Inr msg)
      with False assms c f show thesis
        by (intro appended [OF _ _ refl]) (auto simp: receive_def Let_def)
    qed
  qed
qed

lemma frame_ops:
  assumes "frame marshal inject p ev = Some (ops, r)"
  shows "counter_total s ops = 0" "gauge s' ls ops = None"
  using assms
  by (auto simp: frame_def ObserveSourceLag_def split: option.splits sum.splits if_splits)

section \<open>Conservation of events\<close>

text \<open>Events the sequence check refused: duplicates, and gaps if those are dropped.\<close>

definition refused :: "'s PipelineConfig \<Rightarrow> Stats \<Rightarrow> 64 word" where
  "refused p st = st_Duplicates st + (if p_DropOnGap p then st_Gaps st else 0)"

lemma refused_simps [simp]:
  "refused p (st\<lparr>st_Received := a\<rparr>) = refused p st"
  "refused p (st\<lparr>st_Published := a\<rparr>) = refused p st"
  "refused p (st\<lparr>st_EncodeErrs := a\<rparr>) = refused p st"
  "refused p (st\<lparr>st_PublishFailures := a\<rparr>) = refused p st"
  "refused p (st\<lparr>st_Dropped := a\<rparr>) = refused p st"
  by (simp_all add: refused_def)

definition conserved :: "'s PipelineConfig \<Rightarrow> 'p PipeState \<Rightarrow> bool" where
  "conserved p s \<longleftrightarrow>
     (let st = ps_stats s in
      st_Received st =
        st_Published st + refused p st + st_EncodeErrs st + st_Dropped st
        + of_nat (length (ps_batch s)))"

lemma conserved_retain: "0 \<le> p_MaxPendingEvents p \<Longrightarrow> conserved p s \<Longrightarrow> conserved p (retain p s)"
  by (auto simp: conserved_def retain_def Let_def of_nat_diff)

lemma conserved_flush: "0 \<le> p_MaxPendingEvents p \<Longrightarrow> conserved p s \<Longrightarrow> conserved p (flush publish p s)"
  using conserved_retain [of p "s\<lparr>ps_producer := fst (publish (ps_producer s) (ps_batch s))\<rparr>"]
  by (auto simp: flush_def conserved_def Let_def split: prod.splits option.splits)

lemma conserved_final: "conserved p s \<Longrightarrow> conserved p (final_flush publish s)"
  by (auto simp: final_flush_def conserved_def Let_def split: prod.splits)

lemma checkSequence_conserves:
  assumes "checkSequence p ev st det = (drp, st', det', ops)"
  shows "refused p st' = refused p st + of_bool drp"
    and "st_Received st' = st_Received st" "st_Published st' = st_Published st"
    "st_EncodeErrs st' = st_EncodeErrs st" "st_Dropped st' = st_Dropped st"
  using assms by (cases rule: checkSequence_cases; simp add: refused_def)+

lemma conserved_receive:
  assumes "0 \<le> p_MaxPendingEvents p" and "conserved p s" and "receive marshal inject publish p s ev = Some s'"
  shows "conserved p s'"
  using assms(3)
proof (cases rule: receive_cases)
  case (dropped st2 det ops)
  with assms(2) checkSequence_conserves [OF dropped(1)] show ?thesis
    by (simp add: conserved_def Let_def algebra_simps)
next
  case (failed st2 det ops ops' err)
  with assms(2) checkSequence_conserves [OF failed(1)] show ?thesis
    by (simp add: conserved_def Let_def algebra_simps)
next
  case (appended st2 det ops ops' msg s3)
  then have "conserved p s3"
    using assms(2) checkSequence_conserves [OF appended(1)]
    by (simp add: conserved_def Let_def algebra_simps)
  with appended(4) show ?thesis by (simp add: conserved_flush [OF assms(1)])
qed

section \<open>The bounds of the batch and its gauge\<close>

definition batch_bounded :: "'s PipelineConfig \<Rightarrow> 'p PipeState \<Rightarrow> bool" where
  "batch_bounded p s \<longleftrightarrow> int (length (ps_batch s)) \<le> max (p_BatchSize p - 1) (p_MaxPendingEvents p)"

lemma retain_length:
  "0 \<le> p_MaxPendingEvents p \<Longrightarrow> int (length (ps_batch (retain p s))) \<le> p_MaxPendingEvents p"
  by (auto simp: retain_def Let_def)

lemma flush_length:
  "0 \<le> p_MaxPendingEvents p \<Longrightarrow> int (length (ps_batch (flush publish p s))) \<le> p_MaxPendingEvents p"
  using retain_length [of p "s\<lparr>ps_producer := fst (publish (ps_producer s) (ps_batch s))\<rparr>"]
  by (auto simp: flush_def split: prod.splits option.splits)

lemma batch_bounded_flush: "0 \<le> p_MaxPendingEvents p \<Longrightarrow> batch_bounded p (flush publish p s)"
  using flush_length [of p publish s] by (simp add: batch_bounded_def)

lemma final_flush_length: "length (ps_batch (final_flush publish s)) \<le> length (ps_batch s)"
  by (simp add: final_flush_def split: prod.splits)

lemma batch_bounded_receive:
  assumes "0 \<le> p_MaxPendingEvents p" and "batch_bounded p s"
    and "receive marshal inject publish p s ev = Some s'"
  shows "batch_bounded p s'"
  using assms(3)
proof (cases rule: receive_cases)
  case (appended st2 det ops ops' msg s3)
  then show ?thesis using flush_length [OF assms(1), of publish s3] by (auto simp: batch_bounded_def)
qed (use assms(2) in \<open>simp_all add: batch_bounded_def\<close>)

text \<open>Every metric call has the labels and the type of its series.\<close>

lemma typed_retain: "list_all op_typed (ps_metrics s) \<Longrightarrow> list_all op_typed (ps_metrics (retain p s))"
  by (simp add: retain_def Let_def depth_gauge_def)

lemma typed_flush: "list_all op_typed (ps_metrics s) \<Longrightarrow> list_all op_typed (ps_metrics (flush publish p s))"
  by (auto simp: flush_def depth_gauge_def split: prod.splits option.splits intro: typed_retain)

lemma typed_frame: "frame marshal inject p ev = Some (ops, r) \<Longrightarrow> list_all op_typed ops"
  by (auto simp: frame_def split: option.splits sum.splits if_splits)

lemma typed_checkSequence: "checkSequence p ev st det = (drp, st', det', ops) \<Longrightarrow> list_all op_typed ops"
  by (erule checkSequence_cases) auto

lemma typed_receive:
  assumes "receive marshal inject publish p s ev = Some s'" and "list_all op_typed (ps_metrics s)"
  shows "list_all op_typed (ps_metrics s')"
  using assms(1)
proof (cases rule: receive_cases)
  case (appended st2 det ops ops' msg s3)
  then have "list_all op_typed (ps_metrics s3)"
    using assms(2) by (auto simp: depth_gauge_def dest: typed_checkSequence typed_frame)
  then show ?thesis using appended(4) typed_flush by auto
qed (use assms(2) in \<open>auto dest: typed_checkSequence typed_frame\<close>)

lemma typed_final_flush: "list_all op_typed (ps_metrics s) \<Longrightarrow> list_all op_typed (ps_metrics (final_flush publish s))"
  by (auto simp: final_flush_def split: prod.splits)

text \<open>What every publish keeps of the producer's own state, every step of the loop keeps.\<close>

lemma producer_flush:
  assumes "\<And>q ms. I q \<Longrightarrow> I (fst (publish q ms))" and "I (ps_producer s)"
  shows "I (ps_producer (flush publish p s))"
  using assms(2) assms(1) [of "ps_producer s" "ps_batch s"]
  by (auto simp: flush_def retain_def Let_def split: prod.splits option.splits)

lemma producer_final_flush:
  assumes "\<And>q ms. I q \<Longrightarrow> I (fst (publish q ms))" and "I (ps_producer s)"
  shows "I (ps_producer (final_flush publish s))"
  using assms(2) assms(1) [of "ps_producer s" "ps_batch s"]
  by (auto simp: final_flush_def split: prod.splits option.splits)

lemma producer_receive:
  assumes "\<And>q ms. I q \<Longrightarrow> I (fst (publish q ms))"
    and "receive marshal inject publish p s ev = Some s'" and "I (ps_producer s)"
  shows "I (ps_producer s')"
  using assms(2)
proof (cases rule: receive_cases)
  case (appended st2 det ops ops' msg s3)
  then have "I (ps_producer s3)" using assms(3) by auto
  then show ?thesis using appended(4) producer_flush [of I publish s3 p] assms(1) by auto
qed (use assms(3) in auto)

text \<open>The queue-depth gauge shows the length of the batch whenever the loop waits.\<close>

definition depth_shown :: "'p PipeState \<Rightarrow> bool" where
  "depth_shown s \<longleftrightarrow>
     int (length (ps_batch s)) =
       (case gauge PipelineQueueDepth [''batch''] (ps_metrics s) of None \<Rightarrow> 0 | Some v \<Rightarrow> v)"

lemma gauge_depth_snoc [simp]:
  "gauge PipelineQueueDepth [''batch''] (ops @ [depth_gauge n]) = Some (int n)"
  by (simp add: gauge_append depth_gauge_def)

lemma depth_shown_flush: "depth_shown s \<Longrightarrow> depth_shown (flush publish p s)"
proof -
  have "depth_shown (retain p s')" for s' :: "'p PipeState"
    using gauge_depth_snoc [of "ps_metrics s' @ [Add EventsDropped [] n]" for n]
    by (auto simp: depth_shown_def retain_def Let_def)
  then show "depth_shown s \<Longrightarrow> depth_shown (flush publish p s)"
    by (auto simp: flush_def split: prod.splits option.splits) (simp add: depth_shown_def)
qed

lemma checkSequence_no_gauge:
  assumes "checkSequence p ev st det = (drp, st', det', ops)"
  shows "gauge PipelineQueueDepth ls ops = None"
  using assms by (cases rule: checkSequence_cases) simp_all

lemma depth_shown_receive:
  assumes "depth_shown s" and "receive marshal inject publish p s ev = Some s'"
  shows "depth_shown s'"
  using assms(2)
proof (cases rule: receive_cases)
  case (dropped st2 det ops)
  with assms(1) checkSequence_no_gauge [OF dropped(1)] show ?thesis
    by (simp add: depth_shown_def gauge_append)
next
  case (failed st2 det ops ops' err)
  with assms(1) checkSequence_no_gauge [OF failed(1)] frame_ops(2) [OF failed(2)] show ?thesis
    by (simp add: depth_shown_def gauge_append)
next
  case (appended st2 det ops ops' msg s3)
  then have "depth_shown s3"
    using gauge_depth_snoc [of "received_ops s ev ops @ ops'" "length (ps_batch s @ [msg])"]
    by (simp add: depth_shown_def)
  with appended(4) show ?thesis by (simp add: depth_shown_flush)
qed

section \<open>The statistics and the metrics\<close>

definition stats_exported :: "'p PipeState \<Rightarrow> bool" where
  "stats_exported s \<longleftrightarrow>
     (let st = ps_stats s; total = (\<lambda>c. word_of_int (counter_total c (ps_metrics s))) in
      total EventsReceived = st_Received st \<and> total DuplicatesDropped = st_Duplicates st \<and>
      total SequenceGaps = st_Gaps st \<and> total DecodeErrors = st_EncodeErrs st \<and>
      total EventsDropped = st_Dropped st)"

lemma stats_exported_flush: "stats_exported s \<Longrightarrow> stats_exported (flush publish p s)"
proof -
  have "stats_exported s' \<Longrightarrow> stats_exported (retain p s')" for s' :: "'p PipeState"
    by (auto simp: stats_exported_def retain_def Let_def depth_gauge_def)
  moreover have "stats_exported (s\<lparr>ps_producer := w\<rparr>) = stats_exported s" for w
    by (simp add: stats_exported_def)
  ultimately show "stats_exported s \<Longrightarrow> stats_exported (flush publish p s)"
    by (auto simp: flush_def split: prod.splits option.splits)
       (simp add: stats_exported_def Let_def depth_gauge_def)
qed

lemma stats_exported_final: "stats_exported s \<Longrightarrow> stats_exported (final_flush publish s)"
  by (simp add: stats_exported_def final_flush_def Let_def split: prod.splits)

lemma checkSequence_exported:
  assumes "checkSequence p ev st det = (drp, st', det', ops)"
  shows "word_of_int (counter_total DuplicatesDropped ops) = st_Duplicates st' - st_Duplicates st"
    "word_of_int (counter_total SequenceGaps ops) = st_Gaps st' - st_Gaps st"
    "counter_total EventsReceived ops = 0" "counter_total DecodeErrors ops = 0"
    "counter_total EventsDropped ops = 0"
  using assms by (cases rule: checkSequence_cases; simp)+

lemma stats_exported_receive:
  assumes "stats_exported s" and "receive marshal inject publish p s ev = Some s'"
  shows "stats_exported s'"
  using assms(2)
proof (cases rule: receive_cases)
  case (dropped st2 det ops)
  with assms(1) checkSequence_exported [OF dropped(1)] checkSequence_conserves [OF dropped(1)]
  show ?thesis by (simp add: stats_exported_def Let_def algebra_simps)
next
  case (failed st2 det ops ops' err)
  with assms(1) checkSequence_exported [OF failed(1)] checkSequence_conserves [OF failed(1)]
    frame_ops(1) [OF failed(2)]
  show ?thesis by (simp add: stats_exported_def Let_def algebra_simps)
next
  case (appended st2 det ops ops' msg s3)
  with assms(1) checkSequence_exported [OF appended(1)] checkSequence_conserves [OF appended(1)]
    frame_ops(1) [OF appended(2)]
  have "stats_exported s3" by (simp add: stats_exported_def Let_def algebra_simps depth_gauge_def)
  with appended(4) show ?thesis by (simp add: stats_exported_flush)
qed

text \<open>Over Kafka the published events are counted by the producer, in its own log.\<close>

definition published_exported :: "('w \<times> metrics_log) PipeState \<Rightarrow> bool" where
  "published_exported s \<longleftrightarrow>
     word_of_int (counter_total EventsPublished (snd (ps_producer s))) = st_Published (ps_stats s)"

lemma retain_keeps_published [simp]:
  "ps_producer (retain p s) = ps_producer s" "st_Published (ps_stats (retain p s)) = st_Published (ps_stats s)"
  by (simp_all add: retain_def Let_def)

lemma published_exported_flush:
  assumes "published_exported s"
  shows "published_exported (flush (Kafka_Publish wm elapsed) p s)"
proof -
  obtain prd err where k: "Kafka_Publish wm elapsed (ps_producer s) (ps_batch s) = (prd, err)" by fastforce
  from Kafka_Publish_published [OF k] k assms show ?thesis
    by (cases err) (simp_all add: flush_def published_exported_def)
qed

lemma published_exported_final:
  assumes "published_exported s"
  shows "published_exported (final_flush (Kafka_Publish wm elapsed) s)"
proof -
  obtain prd err where k: "Kafka_Publish wm elapsed (ps_producer s) (ps_batch s) = (prd, err)" by fastforce
  have "err = None" if "ps_batch s = []" using k that by (simp add: Kafka_Publish_def)
  with Kafka_Publish_published [OF k] k assms show ?thesis
    by (cases err) (auto simp: final_flush_def published_exported_def)
qed

lemma checkSequence_published:
  "checkSequence p ev st det = (drp, st', det', ops) \<Longrightarrow> st_Published st' = st_Published st"
  by (erule checkSequence_cases) auto

lemma published_exported_receive:
  assumes "published_exported s"
    and "receive marshal inject (Kafka_Publish wm elapsed) p s ev = Some s'"
  shows "published_exported s'"
  using assms(2)
proof (cases rule: receive_cases)
  case (appended st2 det ops ops' msg s3)
  with assms(1) checkSequence_published [OF appended(1)]
  have "published_exported s3" by (simp add: published_exported_def)
  with appended(4) show ?thesis by (simp add: published_exported_flush)
qed (use assms(1) in \<open>auto simp: published_exported_def dest: checkSequence_published\<close>)

section \<open>No panic on well-formed events\<close>

lemma timestamps_wf: "event_wf e \<Longrightarrow> \<exists>ts. timestamps e = Some ts"
  by (erule event_wf_cases) (simp_all add: timestamps_def)

lemma frame_wf: "event_wf e \<Longrightarrow> frame marshal inject p e \<noteq> None"
  using timestamps_wf [of e] by (auto simp: frame_def split: option.splits sum.splits)

lemma receive_wf: "event_wf e \<Longrightarrow> receive marshal inject publish p s e \<noteq> None"
  using frame_wf [of e marshal inject p]
  by (auto simp: receive_def Let_def split: prod.splits option.splits sum.splits)

section \<open>What the pipeline delivers\<close>

text \<open>
  The abstract pipeline: which messages a stream of events stands for, with no batch, no
  broker and no clock. \<open>None\<close> is a panic.
\<close>

definition admit1 ::
  "('s \<Rightarrow> payload \<Rightarrow> bytes result) \<Rightarrow> (Event \<Rightarrow> (string \<times> string) list) \<Rightarrow>
   's PipelineConfig \<Rightarrow> Detector \<Rightarrow> Event \<Rightarrow> (Message list \<times> Detector) option"
where
  "admit1 marshal inject p det ev =
     (let (drp, _, det', _) = checkSequence p ev Stats_zero det
      in if drp then Some ([], det')
         else case frame marshal inject p ev of
                None \<Rightarrow> None
              | Some (_, Inl _) \<Rightarrow> Some ([], det')
              | Some (_, Inr msg) \<Rightarrow> Some ([msg], det'))"

fun admit ::
  "('s \<Rightarrow> payload \<Rightarrow> bytes result) \<Rightarrow> (Event \<Rightarrow> (string \<times> string) list) \<Rightarrow>
   's PipelineConfig \<Rightarrow> Detector \<Rightarrow> Event list \<Rightarrow> Message list option"
where
  "admit marshal inject p det [] = Some []"
| "admit marshal inject p det (ev # evs) =
     (case admit1 marshal inject p det ev of
        None \<Rightarrow> None
      | Some (ms, det') \<Rightarrow> map_option ((@) ms) (admit marshal inject p det' evs))"

text \<open>The events the loop has taken from its channel when it stops.\<close>

fun events_of :: "Input list \<Rightarrow> Event list" where
  "events_of [] = []"
| "events_of (Recv ev # rest) = ev # events_of rest"
| "events_of (Tick # rest) = events_of rest"
| "events_of (Closed # _) = []"
| "events_of (Done # _) = []"

lemma run_loop_wf:
  "\<forall>e \<in> set (events_of inputs). event_wf e \<Longrightarrow> run_loop marshal inject publish p s inputs \<noteq> Panicked"
proof (induction inputs arbitrary: s)
  case (Cons i inputs)
  then show ?case
    using receive_wf [of _ marshal inject publish p s] by (cases i) (auto split: option.splits)
qed simp

lemma flush_detector [simp]: "ps_detector (flush publish p s) = ps_detector s"
  by (simp add: flush_def retain_def Let_def split: prod.splits option.splits)

text \<open>One receive step adds to the batch what the event admits, then may flush.\<close>

lemma receive_admits:
  assumes "receive marshal inject publish p s ev = Some s'"
  obtains ms s3 where
    "admit1 marshal inject p (ps_detector s) ev = Some (ms, ps_detector s')"
    "ps_batch s3 = ps_batch s @ ms" "ps_producer s3 = ps_producer s"
    "st_Dropped (ps_stats s3) = st_Dropped (ps_stats s)" "length ms \<le> 1"
    "s' = s3 \<or> s' = flush publish p s3"
proof -
  have zero: "(let (drp, _, det', _) = checkSequence p ev Stats_zero det in (drp, det')) =
      (let (drp, _, det', _) = checkSequence p ev st det in (drp, det'))" for det st
    using checkSequence_stats_irrelevant [of p ev Stats_zero det st] by (simp add: split_beta)
  from assms show thesis
  proof (cases rule: receive_cases)
    case (dropped st2 det ops)
    then have "admit1 marshal inject p (ps_detector s) ev = Some ([], det)"
      using zero [of "ps_detector s" "received_stats s"] by (simp add: admit1_def split_beta)
    with dropped show thesis
      using checkSequence_conserves [OF dropped(1)] by (intro that [of "[]" s']) simp_all
  next
    case (failed st2 det ops ops' err)
    then have "admit1 marshal inject p (ps_detector s) ev = Some ([], det)"
      using zero [of "ps_detector s" "received_stats s"] by (simp add: admit1_def split_beta)
    with failed show thesis
      using checkSequence_conserves [OF failed(1)] by (intro that [of "[]" s']) simp_all
  next
    case (appended st2 det ops ops' msg s3)
    then have "admit1 marshal inject p (ps_detector s) ev = Some ([msg], det)"
      using zero [of "ps_detector s" "received_stats s"] by (simp add: admit1_def split_beta)
    with appended show thesis
      using checkSequence_conserves [OF appended(1)] by (intro that [of "[msg]" s3]) auto
  qed
qed

text \<open>
  Any relation between a state, the messages admitted since, and a later state that the
  flushes respect and that composes, relates the whole run to the abstract pipeline.
\<close>

lemma run_loop_refines:
  assumes flush: "\<And>s. D s [] (flush publish p s)" and final: "\<And>s. D s [] (final_flush publish s)"
    and append: "\<And>s s3 ms. ps_batch s3 = ps_batch s @ ms \<Longrightarrow> ps_producer s3 = ps_producer s \<Longrightarrow>
      st_Dropped (ps_stats s3) = st_Dropped (ps_stats s) \<Longrightarrow> D s ms s3"
    and trans: "\<And>s1 s2 s3 ms ms'. D s1 ms s2 \<Longrightarrow> D s2 ms' s3 \<Longrightarrow> D s1 (ms @ ms') s3"
    and run: "run_loop marshal inject publish p s inputs \<in> {Running s', Returned s'}"
  shows "\<exists>ms. admit marshal inject p (ps_detector s) (events_of inputs) = Some ms \<and>
           length ms \<le> length inputs \<and> D s ms s'"
  using run
proof (induction inputs arbitrary: s)
  case Nil
  then show ?case using append [of s s "[]"] by simp
next
  case (Cons i inputs)
  show ?case
  proof (cases i)
    case (Recv ev)
    with Cons.prems obtain s1 where s1: "receive marshal inject publish p s ev = Some s1"
      and r: "run_loop marshal inject publish p s1 inputs \<in> {Running s', Returned s'}"
      by (auto split: option.splits)
    from receive_admits [OF s1] obtain ms s3 where
      a: "admit1 marshal inject p (ps_detector s) ev = Some (ms, ps_detector s1)" "length ms \<le> 1"
      and "D s ms s3" "s1 = s3 \<or> s1 = flush publish p s3" by (metis append)
    then have "D s ms s1" using trans [OF _ flush, of s ms s3] by auto
    moreover from Cons.IH [OF r] obtain ms' where
      "admit marshal inject p (ps_detector s1) (events_of inputs) = Some ms'"
      "length ms' \<le> length inputs" "D s1 ms' s'" by blast
    ultimately show ?thesis using a trans [of s ms s1 ms' s'] Recv by simp
  next
    case Tick
    with Cons.IH [of "flush publish p s"] Cons.prems obtain ms where
      "admit marshal inject p (ps_detector s) (events_of inputs) = Some ms"
      "length ms \<le> length inputs" "D (flush publish p s) ms s'" by auto
    then show ?thesis using trans [OF flush, of s ms s'] Tick by auto
  qed (use Cons.prems flush final in auto)
qed

section \<open>Delivery over a producer\<close>

text \<open>What is in Kafka followed by what waits in the batch.\<close>

definition pending :: "('p \<Rightarrow> 'r list) \<Rightarrow> (Message \<Rightarrow> 'r) \<Rightarrow> 'p PipeState \<Rightarrow> 'r list" where
  "pending stored rec s = stored (ps_producer s) @ map rec (ps_batch s)"

text \<open>Over any producer nothing is lost but what \<open>Dropped\<close> counts; repeats are possible.\<close>

definition at_least_once ::
  "('p \<Rightarrow> 'r list) \<Rightarrow> (Message \<Rightarrow> 'r) \<Rightarrow> 'p PipeState \<Rightarrow> Message list \<Rightarrow> 'p PipeState \<Rightarrow> bool"
where
  "at_least_once stored rec s ms s' \<longleftrightarrow>
     (\<exists>lost. mset (pending stored rec s) + mset (map rec ms) \<subseteq># mset (pending stored rec s') + lost \<and>
        size lost + length (ps_batch s') \<le> length (ps_batch s) + length ms \<and>
        st_Dropped (ps_stats s') = st_Dropped (ps_stats s) + of_nat (size lost))"

text \<open>Over an atomic producer the messages arrive in order, less those that are counted.\<close>

definition exactly_once ::
  "('p \<Rightarrow> 'r list) \<Rightarrow> (Message \<Rightarrow> 'r) \<Rightarrow> 'p PipeState \<Rightarrow> Message list \<Rightarrow> 'p PipeState \<Rightarrow> bool"
where
  "exactly_once stored rec s ms s' \<longleftrightarrow>
     subseq (pending stored rec s') (pending stored rec s @ map rec ms) \<and>
     (\<exists>lost. length (pending stored rec s') + lost = length (pending stored rec s) + length ms \<and>
        lost + length (ps_batch s') \<le> length (ps_batch s) + length ms \<and>
        st_Dropped (ps_stats s') = st_Dropped (ps_stats s) + of_nat lost)"

lemma at_least_once_append:
  "ps_batch s3 = ps_batch s @ ms \<Longrightarrow> ps_producer s3 = ps_producer s \<Longrightarrow>
   st_Dropped (ps_stats s3) = st_Dropped (ps_stats s) \<Longrightarrow> at_least_once stored rec s ms s3"
  by (simp add: at_least_once_def pending_def exI [of _ "{#}"])

lemma at_least_once_trans:
  assumes "at_least_once stored rec s1 ms s2" and "at_least_once stored rec s2 ms' s3"
  shows "at_least_once stored rec s1 (ms @ ms') s3"
proof -
  let ?P = "\<lambda>s. mset (pending stored rec s)" and ?M = "\<lambda>ms. mset (map rec ms)"
  from assms obtain l1 l2 where l:
    "?P s1 + ?M ms \<subseteq># ?P s2 + l1" "?P s2 + ?M ms' \<subseteq># ?P s3 + l2"
    "size l1 + length (ps_batch s2) \<le> length (ps_batch s1) + length ms"
    "size l2 + length (ps_batch s3) \<le> length (ps_batch s2) + length ms'"
    "st_Dropped (ps_stats s2) = st_Dropped (ps_stats s1) + of_nat (size l1)"
    "st_Dropped (ps_stats s3) = st_Dropped (ps_stats s2) + of_nat (size l2)"
    by (auto simp: at_least_once_def)
  have "?P s1 + ?M ms + ?M ms' \<subseteq># ?P s2 + l1 + ?M ms'" using l(1) by simp
  also have "?P s2 + l1 + ?M ms' = ?P s2 + ?M ms' + l1" by simp
  also have "\<dots> \<subseteq># ?P s3 + l2 + l1" using l(2) by simp
  finally show ?thesis
    using l(3-6) unfolding at_least_once_def
    by (intro exI [of _ "l1 + l2"]) (simp add: algebra_simps)
qed

lemma exactly_once_append:
  "ps_batch s3 = ps_batch s @ ms \<Longrightarrow> ps_producer s3 = ps_producer s \<Longrightarrow>
   st_Dropped (ps_stats s3) = st_Dropped (ps_stats s) \<Longrightarrow> exactly_once stored rec s ms s3"
  by (simp add: exactly_once_def pending_def)

lemma retain_effect:
  assumes "0 \<le> p_MaxPendingEvents p"
  obtains n where "ps_batch (retain p s) = drop n (ps_batch s)" "n \<le> length (ps_batch s)"
    "ps_producer (retain p s) = ps_producer s"
    "st_Dropped (ps_stats (retain p s)) = st_Dropped (ps_stats s) + of_nat n"
proof (cases "p_MaxPendingEvents p < int (length (ps_batch s))")
  case True
  with assms show thesis
    by (intro that [of "length (ps_batch s) - nat (p_MaxPendingEvents p)"])
       (simp_all add: retain_def Let_def)
next
  case False
  then show thesis by (intro that [of 0]) (simp_all add: retain_def Let_def)
qed

context producer
begin

lemma flush_at_least_once:
  assumes "0 \<le> p_MaxPendingEvents p"
  shows "at_least_once stored as_record s [] (flush publish p s)"
proof (cases "ps_batch s = []")
  case True
  then show ?thesis
    by (simp add: at_least_once_def flush_def exI [of _ "{#}"])
next
  case False
  obtain w err where pub: "publish (ps_producer s) (ps_batch s) = (w, err)" by fastforce
  show ?thesis
  proof (cases err)
    case None
    with False pub publish_ok [of "ps_producer s" "ps_batch s" w] show ?thesis
      by (simp add: at_least_once_def flush_def pending_def exI [of _ "{#}"])
  next
    case (Some e)
    let ?s = "s\<lparr>ps_producer := w\<rparr>"
    from publish_err [OF pub [unfolded Some]] obtain part where
      part: "stored w = stored (ps_producer s) @ map as_record part" by blast
    obtain n where n: "ps_batch (retain p ?s) = drop n (ps_batch s)" "n \<le> length (ps_batch s)"
      "ps_producer (retain p ?s) = w"
      "st_Dropped (ps_stats (retain p ?s)) = st_Dropped (ps_stats s) + of_nat n"
      by (rule retain_effect [OF assms, of ?s]) auto
    have "mset (map as_record (ps_batch s)) =
        mset (map as_record (drop n (ps_batch s))) + mset (map as_record (take n (ps_batch s)))"
      by (metis append_take_drop_id map_append mset_append union_commute)
    then show ?thesis
      using False pub Some n part unfolding at_least_once_def
      by (intro exI [of _ "mset (map as_record (take n (ps_batch s)))"])
         (simp add: flush_def pending_def)
  qed
qed

lemma final_at_least_once: "at_least_once stored as_record s [] (final_flush publish s)"
proof -
  obtain w err where pub: "publish (ps_producer s) (ps_batch s) = (w, err)" by fastforce
  show ?thesis
  proof (cases err)
    case None
    with pub publish_ok [of "ps_producer s" "ps_batch s" w] show ?thesis
      by (simp add: at_least_once_def final_flush_def pending_def exI [of _ "{#}"])
  next
    case (Some e)
    from publish_err [OF pub [unfolded Some]] obtain part where
      "subseq part (ps_batch s)" "stored w = stored (ps_producer s) @ map as_record part" by blast
    with pub Some show ?thesis
      by (auto simp: at_least_once_def final_flush_def pending_def intro!: exI [of _ "{#}"])
  qed
qed

lemma run_at_least_once:
  assumes "0 \<le> p_MaxPendingEvents p"
    and "run_loop marshal inject publish p s inputs \<in> {Running s', Returned s'}"
  shows "\<exists>ms. admit marshal inject p (ps_detector s) (events_of inputs) = Some ms \<and>
           length ms \<le> length inputs \<and> at_least_once stored as_record s ms s'"
  by (rule run_loop_refines [OF flush_at_least_once [OF assms(1)] final_at_least_once
        at_least_once_append at_least_once_trans assms(2)])

end

lemma exactly_once_trans:
  assumes "exactly_once stored rec s1 ms s2" and "exactly_once stored rec s2 ms' s3"
  shows "exactly_once stored rec s1 (ms @ ms') s3"
proof -
  let ?P = "pending stored rec"
  from assms obtain l1 l2 where l:
    "subseq (?P s2) (?P s1 @ map rec ms)" "subseq (?P s3) (?P s2 @ map rec ms')"
    "length (?P s2) + l1 = length (?P s1) + length ms"
    "length (?P s3) + l2 = length (?P s2) + length ms'"
    "l1 + length (ps_batch s2) \<le> length (ps_batch s1) + length ms"
    "l2 + length (ps_batch s3) \<le> length (ps_batch s2) + length ms'"
    "st_Dropped (ps_stats s2) = st_Dropped (ps_stats s1) + of_nat l1"
    "st_Dropped (ps_stats s3) = st_Dropped (ps_stats s2) + of_nat l2"
    by (auto simp: exactly_once_def)
  have "subseq (?P s2 @ map rec ms') ((?P s1 @ map rec ms) @ map rec ms')"
    using l(1) by (rule list_emb_append_mono) simp
  with l(2) have "subseq (?P s3) (?P s1 @ map rec (ms @ ms'))"
    by (metis append.assoc map_append subseq_order.trans)
  then show ?thesis
    using l(3-8) unfolding exactly_once_def by (intro conjI exI [of _ "l1 + l2"]) (simp_all add: algebra_simps)
qed

context atomic_producer
begin

lemma flush_exactly_once:
  assumes "0 \<le> p_MaxPendingEvents p"
  shows "exactly_once stored as_record s [] (flush publish p s)"
proof (cases "ps_batch s = []")
  case True
  then show ?thesis by (simp add: exactly_once_def flush_def)
next
  case False
  obtain w err where pub: "publish (ps_producer s) (ps_batch s) = (w, err)" by fastforce
  show ?thesis
  proof (cases err)
    case None
    with False pub publish_ok [of "ps_producer s" "ps_batch s" w] show ?thesis
      by (simp add: exactly_once_def flush_def pending_def)
  next
    case (Some e)
    let ?s = "s\<lparr>ps_producer := w\<rparr>"
    have w: "stored w = stored (ps_producer s)" using pub Some publish_atomic by blast
    obtain n where n: "ps_batch (retain p ?s) = drop n (ps_batch s)" "n \<le> length (ps_batch s)"
      "ps_producer (retain p ?s) = w"
      "st_Dropped (ps_stats (retain p ?s)) = st_Dropped (ps_stats s) + of_nat n"
      by (rule retain_effect [OF assms, of ?s]) auto
    have "subseq (drop n (ps_batch s)) (ps_batch s)"
      by (metis append_take_drop_id subseq_order.refl list_emb_append2)
    then have "subseq (map as_record (drop n (ps_batch s))) (map as_record (ps_batch s))"
      by (rule subseq_map)
    with False pub Some n w show ?thesis
      unfolding exactly_once_def
      by (intro conjI exI [of _ n]) (simp_all add: flush_def pending_def subseq_append')
  qed
qed

lemma final_exactly_once: "exactly_once stored as_record s [] (final_flush publish s)"
proof -
  obtain w err where pub: "publish (ps_producer s) (ps_batch s) = (w, err)" by fastforce
  show ?thesis
  proof (cases err)
    case None
    with pub publish_ok [of "ps_producer s" "ps_batch s" w] show ?thesis
      by (simp add: exactly_once_def final_flush_def pending_def)
  next
    case (Some e)
    then have "stored w = stored (ps_producer s)" using pub publish_atomic by blast
    with pub Some show ?thesis by (auto simp: exactly_once_def final_flush_def pending_def)
  qed
qed

lemma run_exactly_once:
  assumes "0 \<le> p_MaxPendingEvents p"
    and "run_loop marshal inject publish p s inputs \<in> {Running s', Returned s'}"
  shows "\<exists>ms. admit marshal inject p (ps_detector s) (events_of inputs) = Some ms \<and>
           length ms \<le> length inputs \<and> exactly_once stored as_record s ms s'"
  by (rule run_loop_refines [OF flush_exactly_once [OF assms(1)] final_exactly_once
        exactly_once_append exactly_once_trans assms(2)])

end

section \<open>What passes the sequence check\<close>

fun passed :: "'s PipelineConfig \<Rightarrow> Detector \<Rightarrow> Event list \<Rightarrow> Event list" where
  "passed p det [] = []"
| "passed p det (ev # evs) =
     (let (drp, _, det', _) = checkSequence p ev Stats_zero det
      in if drp then passed p det' evs else ev # passed p det' evs)"

abbreviation observations :: "'s PipelineConfig \<Rightarrow> Event list \<Rightarrow> (Key \<times> int64) list" where
  "observations p evs \<equiv> map (\<lambda>e. (sequenceKey p e, Event_Sequence e)) evs"

abbreviation sequenced_on :: "'s PipelineConfig \<Rightarrow> Key \<Rightarrow> Event \<Rightarrow> bool" where
  "sequenced_on p k e \<equiv> sequenceKey p e = k \<and> 0 \<le> Event_Sequence e"

lemma passed_increasing:
  assumes "p_OnResync p = None" and "detector_wf det"
    and "\<forall>k. last_seq det k \<noteq> Some max_int64"
    and "\<forall>e \<in> set evs. min_int64 \<le> Event_Sequence e \<and> Event_Sequence e < max_int64"
    and "\<forall>r \<in> set (fst (observe_run det (observations p evs))). Result_Status r \<noteq> StatusRegression"
  shows "sorted_wrt (<) (map Event_Sequence (filter (sequenced_on p k) (passed p det evs)))
       \<and> (\<forall>l. last_seq det k = Some l \<longrightarrow>
            (\<forall>e \<in> set (filter (sequenced_on p k) (passed p det evs)). l < Event_Sequence e))"
  using assms(2-5)
proof (induction evs arbitrary: det)
  case (Cons e evs)
  let ?k = "sequenceKey p e" and ?d = "snd (observed p e det)"
  have s64: "in_int64 (Event_Sequence e)" and s: "Event_Sequence e < max_int64"
    using Cons.prems(3) by (auto simp: in_int64_def)
  note spec = Observe_spec [OF Cons.prems(1) s64 Cons.prems(2) [rule_format]]
  have nr: "verdict (regressionTolerance det) (last_seq det ?k) (Event_Sequence e) \<noteq> StatusRegression"
    using Cons.prems(4) spec(1) [of ?k] by (simp add: split_beta)
  have det': "fst (snd (snd (checkSequence p e Stats_zero det))) = ?d"
    using assms(1) by (simp add: checkSequence_def Let_def split_beta)
  have keep: "\<not> fst (checkSequence p e Stats_zero det) \<Longrightarrow>
      verdict (regressionTolerance det) (last_seq det ?k) (Event_Sequence e) \<noteq> StatusDuplicate"
    using spec(1) [of ?k] by (simp add: checkSequence_drop)
  have wf: "detector_wf ?d" using Cons.prems(1) s by (simp add: detector_wf_Observe)
  have adv: "last_seq ?d k' = (if k' = ?k then advance (regressionTolerance det) (last_seq det ?k)
      (Event_Sequence e) else last_seq det k')" for k' using spec(2) [of ?k] by simp
  have top: "\<forall>k'. last_seq ?d k' \<noteq> Some max_int64"
    using Cons.prems(2) s by (auto simp: adv advance_def)
  have IH: "sorted_wrt (<) (map Event_Sequence (filter (sequenced_on p k) (passed p ?d evs)))"
    "last_seq ?d k = Some l \<Longrightarrow> e' \<in> set (filter (sequenced_on p k) (passed p ?d evs)) \<Longrightarrow>
       l < Event_Sequence e'" for l e'
    using Cons.IH [OF wf top] Cons.prems(3,4) by (auto simp: split_beta)
  have tail: "l < Event_Sequence e'"
    if "last_seq det k = Some l" "e' \<in> set (filter (sequenced_on p k) (passed p ?d evs))" for l e'
  proof -
    have "\<exists>l'. last_seq ?d k = Some l' \<and> l \<le> l'"
      using that(1) nr by (auto simp: adv advance_def verdict_def split: if_splits)
    with IH(2) that(2) show ?thesis by force
  qed
  show ?case
  proof (cases "fst (checkSequence p e Stats_zero det)")
    case True
    with det' IH(1) tail show ?thesis by (simp add: split_beta)
  next
    case False
    have here: "l < Event_Sequence e" if "last_seq det ?k = Some l" "0 \<le> Event_Sequence e" for l
      using keep [OF False] nr that by (auto simp: verdict_def split: if_splits)
    have mark: "last_seq ?d ?k = Some (Event_Sequence e)" if "0 \<le> Event_Sequence e"
      using keep [OF False] that
      by (auto simp: adv advance_def verdict_def split: if_splits option.splits)
    from False det' IH tail here mark show ?thesis by (auto simp: split_beta)
  qed
qed simp

section \<open>A concrete pipeline\<close>

definition example_event :: "int64 \<Rightarrow> Event" where
  "example_event n =
     \<lparr>Event_Kind = KindTrade, Event_Venue = ''kraken'', Event_Symbol = ''BTC-USD'', Event_Sequence = n,
      Event_Trade = Some \<lparr>Trade_Venue = ''kraken'', Trade_Symbol = ''BTC-USD'', Trade_TradeID = FormatInt n,
        Trade_Price = f_zero False, Trade_Size = f_zero False, Trade_Side = SideBuy,
        Trade_EventTimeUS = 1000, Trade_IngestTimeUS = 2000, Trade_Sequence = n\<rparr>,
      Event_Book = None, Event_Chain = None\<rparr>"

definition example_encoder :: "string Encoder" where
  "example_encoder = \<lparr>enc_schemaID = 7, enc_schema = ''trade'', enc_header = wire_header 7\<rparr>"

definition example_config :: "string PipelineConfig" where
  "example_config =
     \<lparr>p_Encoders = [KindTrade \<mapsto> example_encoder], p_Topics = [KindTrade \<mapsto> ''md.trades.v1''],
      p_BatchSize = 2, p_FlushInterval = 0, p_OnResync = None, p_DropOnGap = False,
      p_MaxPendingEvents = 0, p_ConnectionScopedVenues = Map.empty\<rparr>"

definition example_marshal :: "string \<Rightarrow> payload \<Rightarrow> bytes result" where
  "example_marshal s v = Inr [1, 2]"

definition example_inputs :: "Input list" where
  "example_inputs =
     [Recv (example_event 6), Recv (example_event 6), Recv (example_event 7), Tick, Recv (example_event 9)]"

section \<open>Properties\<close>

lemma with_defaults_pos [simp]:
  "0 < p_MaxPendingEvents (with_defaults p)" "0 < p_BatchSize (with_defaults p)"
  by (simp_all add: with_defaults_def)

lemma with_defaults_nonneg [simp]: "0 \<le> p_MaxPendingEvents (with_defaults p)"
  by (simp add: with_defaults_def)

lemma Pipeline_Run_invariant:
  assumes "\<And>s ev s'. I s \<Longrightarrow> receive marshal inject publish (with_defaults p) s ev = Some s' \<Longrightarrow> I s'"
    and "\<And>s. I s \<Longrightarrow> I (flush publish (with_defaults p) s)"
    and "\<And>s. I s \<Longrightarrow> J (flush publish (with_defaults p) s)"
    and "\<And>s. I s \<Longrightarrow> J (final_flush publish s)" and "I (Pipeline_init det prd)"
  shows "case Pipeline_Run marshal inject publish p det prd inputs of
           Running s \<Rightarrow> I s | Returned s \<Rightarrow> J s | Panicked \<Rightarrow> True"
  unfolding Pipeline_Run_def using assms by (intro run_loop_invariant) blast+

text \<open>
  C1. No event disappears unaccounted: at every moment of every run, and when
  \<open>Run\<close> returns, the events received are exactly those published, refused by the
  sequence check, failed to encode, dropped from a full retry buffer, or still in the
  batch. This holds for every producer, every callback and every order of arrivals, ticks
  and shutdown, in the wrapping arithmetic of the counters.
\<close>

theorem pipeline_conserves_events:
  "case Pipeline_Run marshal inject publish p det prd inputs of
     Panicked \<Rightarrow> True
   | Running s \<Rightarrow>
       st_Received (ps_stats s) =
         st_Published (ps_stats s) + st_Duplicates (ps_stats s)
         + (if p_DropOnGap p then st_Gaps (ps_stats s) else 0) + st_EncodeErrs (ps_stats s)
         + st_Dropped (ps_stats s) + of_nat (length (ps_batch s))
   | Returned s \<Rightarrow>
       st_Received (ps_stats s) =
         st_Published (ps_stats s) + st_Duplicates (ps_stats s)
         + (if p_DropOnGap p then st_Gaps (ps_stats s) else 0) + st_EncodeErrs (ps_stats s)
         + st_Dropped (ps_stats s) + of_nat (length (ps_batch s))"
proof -
  let ?p = "with_defaults p"
  have unfolded: "conserved ?p s \<longleftrightarrow> st_Received (ps_stats s) =
         st_Published (ps_stats s) + st_Duplicates (ps_stats s)
         + (if p_DropOnGap p then st_Gaps (ps_stats s) else 0) + st_EncodeErrs (ps_stats s)
         + st_Dropped (ps_stats s) + of_nat (length (ps_batch s))" for s :: "'p PipeState"
    by (simp add: conserved_def refused_def with_defaults_def Let_def add.assoc)
  have "conserved ?p (Pipeline_init det prd)"
    by (simp add: conserved_def refused_def Pipeline_init_def Stats_zero_def)
  then have "case Pipeline_Run marshal inject publish p det prd inputs of
      Running s \<Rightarrow> conserved ?p s | Returned s \<Rightarrow> conserved ?p s | Panicked \<Rightarrow> True"
    by (intro Pipeline_Run_invariant)
       (auto intro: conserved_receive [OF with_defaults_nonneg] conserved_flush [OF with_defaults_nonneg]
         conserved_final)
  then show ?thesis by (simp only: unfolded split: Outcome.splits)
qed

text \<open>
  C2. Over any producer that writes all of a batch when it returns nil and none of it when
  it fails, batching, retries and broker outages are invisible. Whatever publishes fail and
  whenever the producer recovers, as long as the retry buffer never overflowed, what the
  producer holds followed by what still waits is exactly what the abstract pipeline makes
  of the events received, in order, each once.
\<close>

theorem pipeline_exactly_once:
  assumes "\<And>q ms q'. publish q ms = (q', None) \<Longrightarrow> stored q' = stored q @ ms"
    and "\<And>q ms q' err. publish q ms = (q', Some err) \<Longrightarrow> stored q' = stored q"
    and "Pipeline_Run marshal inject publish p det prd inputs \<in> {Running s, Returned s}"
    and "st_Dropped (ps_stats s) = 0" and "length inputs < 2 ^ 64"
  shows "\<exists>ms. admit marshal inject (with_defaults p) (case det of None \<Rightarrow> New | Some d \<Rightarrow> d)
             (events_of inputs) = Some ms
         \<and> stored (ps_producer s) @ ps_batch s = stored prd @ ms"
proof -
  let ?init = "Pipeline_init det prd"
  have "atomic_producer publish stored (\<lambda>m. m)"
    by unfold_locales (auto dest: assms(1,2) intro: exI [of _ "[]"])
  from atomic_producer.run_exactly_once [OF this with_defaults_nonneg assms(3) [unfolded Pipeline_Run_def]]
  obtain ms where ms: "admit marshal inject (with_defaults p) (ps_detector ?init) (events_of inputs) = Some ms"
    "length ms \<le> length inputs" "exactly_once stored (\<lambda>m. m) ?init ms s" by blast
  then obtain lost where lost: "subseq (stored (ps_producer s) @ ps_batch s) (stored prd @ ms)"
    "length (stored (ps_producer s) @ ps_batch s) + lost = length (stored prd @ ms)"
    "lost \<le> length ms" "(of_nat lost :: 64 word) = 0"
    using assms(4) by (auto simp: exactly_once_def pending_def Pipeline_init_def Stats_zero_def)
  have "lost < 2 ^ 64" using lost(3) ms(2) assms(5) by linarith
  then have "lost = 0" using lost(4) by (rule of_nat_zero_64)
  with lost(1,2) have "stored (ps_producer s) @ ps_batch s = stored prd @ ms"
    by (metis add_0_right subseq_same_length)
  with ms(1) show ?thesis by (simp add: Pipeline_init_def)
qed

text \<open>
  At a concrete outage: the flush at the second event fails, the next one finds the broker
  back, and both events are stored once.
\<close>

theorem pipeline_exactly_once_witness:
  "\<exists>s ms. Pipeline_Run example_marshal (\<lambda>_. []) Outage_Publish example_config None
             (NewMemoryProducer, [Some (Sentinel ''broker away'')]) example_inputs = Running s
     \<and> st_PublishFailures (ps_stats s) = 1 \<and> length (Messages (fst (ps_producer s))) = 2
     \<and> admit example_marshal (\<lambda>_. []) (with_defaults example_config) New (events_of example_inputs) = Some ms
     \<and> Messages (fst (ps_producer s)) @ ps_batch s = Messages NewMemoryProducer @ ms"
proof -
  let ?prd = "(NewMemoryProducer, [Some (Sentinel ''broker away'')])"
  let ?run = "Pipeline_Run example_marshal (\<lambda>_. []) Outage_Publish example_config None ?prd example_inputs"
  have "case ?run of Running s \<Rightarrow> st_Dropped (ps_stats s) = 0 \<and> st_PublishFailures (ps_stats s) = 1
          \<and> length (Messages (fst (ps_producer s))) = 2 | _ \<Rightarrow> False" by code_simp
  then obtain s where s: "?run = Running s" "st_Dropped (ps_stats s) = 0"
    "st_PublishFailures (ps_stats s) = 1" "length (Messages (fst (ps_producer s))) = 2"
    by (auto split: Outcome.splits)
  have "length example_inputs < 2 ^ 64" by (simp add: example_inputs_def)
  with s outage.publish_ok outage.publish_atomic
    pipeline_exactly_once [of Outage_Publish "Messages \<circ> fst" example_marshal "\<lambda>_. []" example_config None ?prd
      example_inputs s]
  show ?thesis by auto
qed

text \<open>
  C3. Over Kafka, whose writes may fail half way: if \<open>WriteMessages\<close> keeps
  its documented contract and the retry buffer never overflowed, every message the
  abstract pipeline admits is in Kafka or still in the batch, as many times as it was
  admitted or more. A broker outage repeats messages and never loses one.
\<close>

theorem pipeline_at_least_once:
  assumes "writes_documented wm written"
    and "Pipeline_Run marshal inject (Kafka_Publish wm elapsed) p det (w, ops) inputs
           \<in> {Running s, Returned s}"
    and "st_Dropped (ps_stats s) = 0" and "length inputs < 2 ^ 64"
  shows "\<exists>ms. admit marshal inject (with_defaults p) (case det of None \<Rightarrow> New | Some d \<Rightarrow> d)
             (events_of inputs) = Some ms
         \<and> mset (written w) + mset (map kafka_message ms) \<subseteq>#
             mset (written (fst (ps_producer s))) + mset (map kafka_message (ps_batch s))"
proof -
  let ?init = "Pipeline_init det (w, ops)"
  from producer.run_at_least_once [OF Kafka_is_producer [OF assms(1)] with_defaults_nonneg
      assms(2) [unfolded Pipeline_Run_def]]
  obtain ms where ms: "admit marshal inject (with_defaults p) (ps_detector ?init) (events_of inputs) = Some ms"
    "length ms \<le> length inputs" "at_least_once (written \<circ> fst) kafka_message ?init ms s" by blast
  then obtain lost where lost:
    "mset (written w) + mset (map kafka_message ms) \<subseteq>#
       mset (written (fst (ps_producer s))) + mset (map kafka_message (ps_batch s)) + lost"
    "size lost \<le> length ms" "(of_nat (size lost) :: 64 word) = 0"
    using assms(3) by (auto simp: at_least_once_def pending_def Pipeline_init_def Stats_zero_def)
  have "size lost < 2 ^ 64" using lost(2) ms(2) assms(4) by linarith
  then have "size lost = 0" using lost(3) by (rule of_nat_zero_64)
  with lost(1) ms(1) show ?thesis by (simp add: Pipeline_init_def)
qed

theorem pipeline_at_least_once_witness:
  "\<exists>s ms. Pipeline_Run example_marshal (\<lambda>_. []) (Kafka_Publish (\<lambda>w kms. (w @ kms, None)) (\<lambda>_ _. 3))
             example_config None ([], []) example_inputs = Running s
     \<and> admit example_marshal (\<lambda>_. []) (with_defaults example_config) New (events_of example_inputs) = Some ms
     \<and> mset [] + mset (map kafka_message ms) \<subseteq>#
         mset (fst (ps_producer s)) + mset (map kafka_message (ps_batch s))"
proof -
  let ?wm = "\<lambda>w kms. (w @ kms, None) :: KafkaMessage list \<times> goerror option"
  let ?run = "Pipeline_Run example_marshal (\<lambda>_. []) (Kafka_Publish ?wm (\<lambda>_ _. 3)) example_config None ([], []) example_inputs"
  have wm: "writes_documented ?wm (\<lambda>w. w)" by (simp add: writes_documented_def)
  have "case ?run of Running s \<Rightarrow> st_Dropped (ps_stats s) = 0 | _ \<Rightarrow> False" by code_simp
  then obtain s where s: "?run = Running s" "st_Dropped (ps_stats s) = 0" by (auto split: Outcome.splits)
  have "length example_inputs < 2 ^ 64" by (simp add: example_inputs_def)
  with s pipeline_at_least_once [OF wm, of example_marshal "\<lambda>_. []" "\<lambda>_ _. 3" example_config None "[]" "[]" example_inputs s]
  show ?thesis by auto
qed

text \<open>
  C20. Memory is bounded: however long the broker is away, the batch never
  holds more than the larger of \<open>MaxPendingEvents\<close> and one event less than a full
  batch, with the defaults in place of non-positive settings.
\<close>

theorem pipeline_batch_bounded:
  "case Pipeline_Run marshal inject publish p det prd inputs of
     Panicked \<Rightarrow> True
   | Running s \<Rightarrow> int (length (ps_batch s)) \<le>
       max (p_BatchSize (with_defaults p) - 1) (p_MaxPendingEvents (with_defaults p))
   | Returned s \<Rightarrow> int (length (ps_batch s)) \<le>
       max (p_BatchSize (with_defaults p) - 1) (p_MaxPendingEvents (with_defaults p))"
proof -
  let ?p = "with_defaults p" and ?b = "batch_bounded (with_defaults p) :: 'p PipeState \<Rightarrow> bool"
  have final: "?b s \<Longrightarrow> ?b (final_flush publish s)" for s
    using final_flush_length [of publish s] by (simp add: batch_bounded_def)
  have "?b (Pipeline_init det prd)"
    by (simp add: batch_bounded_def Pipeline_init_def max_def less_imp_le)
  then have "case Pipeline_Run marshal inject publish p det prd inputs of
      Running s \<Rightarrow> ?b s | Returned s \<Rightarrow> ?b s | Panicked \<Rightarrow> True"
    by (intro Pipeline_Run_invariant)
       (auto intro: batch_bounded_receive [OF with_defaults_nonneg] batch_bounded_flush final)
  then show ?thesis by (simp add: batch_bounded_def split: Outcome.splits)
qed

text \<open>
  Whenever the loop waits for its next input, the queue-depth gauge shows the
  number of events in the batch (a gauge never set reads as zero).
\<close>

theorem queue_depth_gauge_accurate:
  "case Pipeline_Run marshal inject publish p det prd inputs of
     Running s \<Rightarrow>
       int (length (ps_batch s)) =
         (case gauge PipelineQueueDepth [''batch''] (ps_metrics s) of None \<Rightarrow> 0 | Some v \<Rightarrow> v)
   | _ \<Rightarrow> True"
proof -
  have "depth_shown (Pipeline_init det prd)" by (simp add: depth_shown_def Pipeline_init_def)
  then have "case Pipeline_Run marshal inject publish p det prd inputs of
      Running s \<Rightarrow> depth_shown s | Returned s \<Rightarrow> True | Panicked \<Rightarrow> True"
    by (intro Pipeline_Run_invariant) (auto intro: depth_shown_receive depth_shown_flush)
  then show ?thesis by (simp add: depth_shown_def split: Outcome.splits)
qed

text \<open>
  The statistics of the shutdown log line and the exported counters tell
  the same story: received, duplicates, gaps, encode errors and drops agree, summed over
  the labels, in every state of every run.
\<close>

theorem stats_agree_with_metrics:
  "case Pipeline_Run marshal inject publish p det prd inputs of
     Panicked \<Rightarrow> True
   | Running s \<Rightarrow> stats_exported s
   | Returned s \<Rightarrow> stats_exported s"
proof -
  have "stats_exported (Pipeline_init det prd)"
    by (simp add: stats_exported_def Pipeline_init_def Stats_zero_def)
  then have "case Pipeline_Run marshal inject publish p det prd inputs of
      Running s \<Rightarrow> stats_exported s | Returned s \<Rightarrow> stats_exported s | Panicked \<Rightarrow> True"
    by (intro Pipeline_Run_invariant)
       (auto intro: stats_exported_receive stats_exported_flush stats_exported_final)
  then show ?thesis by (simp split: Outcome.splits)
qed

text \<open>
  C32. Over Kafka the shutdown log line and the exported counters tell the same story in
  every state of every run, outages and retries included: summed over the labels, the
  events received, published, dropped as duplicates, checked as gaps, failed to encode and
  dropped from the retry buffer are the numbers of \<open>Stats\<close>. An event of a failed batch is
  counted as published once, when the batch that holds it is written.
\<close>

theorem stats_exported_over_kafka:
  "let exported = (\<lambda>ops c. word_of_int (counter_total c ops) :: 64 word);
       agree = (\<lambda>s. let st = ps_stats s; own = exported (ps_metrics s) in
         own EventsReceived = st_Received st \<and> own DuplicatesDropped = st_Duplicates st
       \<and> own SequenceGaps = st_Gaps st \<and> own DecodeErrors = st_EncodeErrs st
       \<and> own EventsDropped = st_Dropped st
       \<and> exported (snd (ps_producer s)) EventsPublished = st_Published st)
   in case Pipeline_Run marshal inject (Kafka_Publish wm elapsed) p det (w, []) inputs of
        Panicked \<Rightarrow> True
      | Running s \<Rightarrow> agree s
      | Returned s \<Rightarrow> agree s"
proof -
  let ?I = "\<lambda>s. stats_exported s \<and> published_exported s"
  have "?I (Pipeline_init det (w, []))"
    by (simp add: stats_exported_def published_exported_def Pipeline_init_def Stats_zero_def)
  then have "case Pipeline_Run marshal inject (Kafka_Publish wm elapsed) p det (w, []) inputs of
      Running s \<Rightarrow> ?I s | Returned s \<Rightarrow> ?I s | Panicked \<Rightarrow> True"
    by (intro Pipeline_Run_invariant)
       (auto intro: stats_exported_receive stats_exported_flush stats_exported_final
         published_exported_receive published_exported_flush published_exported_final)
  then show ?thesis by (simp add: stats_exported_def published_exported_def Let_def split: Outcome.splits)
qed

text \<open>
  On well-formed events, which is all the decoders produce, the pipeline never
  panics, whatever the encoders, the producer and the callback do.
\<close>

theorem pipeline_never_panics:
  assumes "\<forall>e \<in> set (events_of inputs). event_wf e"
  shows "Pipeline_Run marshal inject publish p det prd inputs \<noteq> Panicked"
  using run_loop_wf [OF assms] by (simp add: Pipeline_Run_def)

theorem pipeline_never_panics_witness:
  "Pipeline_Run example_marshal (\<lambda>_. []) Memory_Publish example_config None NewMemoryProducer example_inputs
     \<noteq> Panicked"
  by (rule pipeline_never_panics) (simp add: example_inputs_def example_event_def event_wf_def)

text \<open>
  The guard against events without a payload does not see a nil pointer of
  the right type: \<open>Payload\<close> wraps it into a non-nil interface, so a trade event whose
  \<open>Trade\<close> is nil reaches the encoder, and if that accepts it the run panics in
  \<open>timestamps\<close>.
\<close>

theorem typed_nil_payload_panics:
  assumes "Event_Kind ev = KindTrade" and "Event_Trade ev = None" and "Event_Sequence ev = NoSequence"
    and "p_Encoders p KindTrade = Some enc" and "p_Topics p KindTrade = Some topic"
    and "marshal (enc_schema enc) (PTrade None) = Inr value"
  shows "Payload ev \<noteq> PNil
       \<and> Pipeline_Run marshal inject publish p det prd (Recv ev # rest) = Panicked"
proof -
  let ?p = "with_defaults p" and ?s = "Pipeline_init det prd"
  have pay: "Payload ev = PTrade None" using assms(1,2) by (simp add: Payload_def)
  then have "frame marshal inject ?p ev = None"
    using assms by (simp add: frame_def with_defaults_def Encode_def timestamps_def)
  moreover have "\<not> fst (checkSequence ?p ev st d)" for st d
    using assms(3) by (simp add: checkSequence_drop Observe_def NoSequence_def NeedsResync_def)
  ultimately have "receive marshal inject publish ?p ?s ev = None"
    by (simp add: receive_def Let_def split_beta)
  with pay show ?thesis by (simp add: Pipeline_Run_def)
qed

theorem typed_nil_payload_panics_witness:
  "Payload ((example_event NoSequence)\<lparr>Event_Trade := None\<rparr>) \<noteq> PNil
   \<and> Pipeline_Run example_marshal (\<lambda>_. []) Memory_Publish example_config None NewMemoryProducer
       (Recv ((example_event NoSequence)\<lparr>Event_Trade := None\<rparr>) # []) = Panicked"
  by (rule typed_nil_payload_panics [where enc = example_encoder and topic = "''md.trades.v1''"])
     (simp_all add: example_event_def example_config_def example_marshal_def)

text \<open>
  C15. A record that is framed can be resolved by every consumer: its key is the
  symbol, so one symbol stays on one partition; its topic is the one configured for its
  kind; and its value is the wire header of the registry id the encoder was built with,
  followed by what \<open>avro.Marshal\<close> made of the event's payload.
\<close>

theorem framed_record_resolves:
  assumes "frame marshal inject p ev = Some (ops, Inr msg)"
    and "p_Encoders p (Event_Kind ev) = Some enc" and "NewEncoder parse sid js = Inr enc"
  shows "Msg_Key msg = Event_Symbol ev \<and> p_Topics p (Event_Kind ev) = Some (Msg_Topic msg)
       \<and> (\<exists>payload. marshal (Schema enc) (Payload ev) = Inr payload
            \<and> SplitHeader (Msg_Value msg) = Inr (sid mod 2 ^ 32, payload))"
proof -
  from assms(1,2) obtain vl where
    v: "Encode marshal enc (Payload ev) = Inr vl" "Msg_Value msg = vl"
      "Msg_Key msg = Event_Symbol ev" "p_Topics p (Event_Kind ev) = Some (Msg_Topic msg)"
    by (auto simp: frame_def split: option.splits sum.splits if_splits)
  from Encode_frame [OF assms(3) v(1)] v(2-4) show ?thesis
    by (auto simp: Schema_def wire.split_frame)
qed

theorem framed_record_resolves_witness:
  "\<exists>ops msg payload. frame example_marshal (\<lambda>_. []) example_config (example_event 6) = Some (ops, Inr msg)
     \<and> Msg_Key msg = ''BTC-USD'' \<and> p_Topics example_config KindTrade = Some (Msg_Topic msg)
     \<and> example_marshal ''trade'' (Payload (example_event 6)) = Inr payload
     \<and> SplitHeader (Msg_Value msg) = Inr (7, payload)"
proof -
  have "case frame example_marshal (\<lambda>_. []) example_config (example_event 6) of
      Some (ops, r) \<Rightarrow> is_ok r | None \<Rightarrow> False" by code_simp
  then obtain ops msg where f: "frame example_marshal (\<lambda>_. []) example_config (example_event 6) = Some (ops, Inr msg)"
    by (auto simp: is_ok_iff split: option.splits prod.splits)
  have e: "p_Encoders example_config (Event_Kind (example_event 6)) = Some example_encoder"
    by (simp add: example_config_def example_event_def)
  have n: "NewEncoder Inr 7 ''trade'' = Inr example_encoder" by (simp add: NewEncoder_def example_encoder_def)
  from f framed_record_resolves [OF f e n] show ?thesis
    by (auto simp: example_event_def Schema_def example_encoder_def)
qed

text \<open>
  C12. As long as nothing resets the detector and no counter restarts, what the
  sequence check lets through on one stream has strictly increasing sequence numbers: no
  sequenced event is published twice or out of order.
\<close>

theorem passed_sequences_increase:
  assumes "p_OnResync p = None" and "detector_wf det"
    and "\<forall>k. last_seq det k \<noteq> Some max_int64"
    and "\<forall>e \<in> set evs. min_int64 \<le> Event_Sequence e \<and> Event_Sequence e < max_int64"
    and "\<forall>r \<in> set (fst (observe_run det (observations p evs))). Result_Status r \<noteq> StatusRegression"
  shows "sorted_wrt (<) (map Event_Sequence (filter (sequenced_on p k) (passed p det evs)))"
  using passed_increasing [OF assms] by blast

theorem passed_sequences_increase_witness:
  "sorted_wrt (<) (map Event_Sequence (filter (sequenced_on example_config example_key)
     (passed example_config New (map example_event [6, 6, 9, 7]))))"
proof (rule passed_sequences_increase)
  show "\<forall>r \<in> set (fst (observe_run New (observations example_config (map example_event [6, 6, 9, 7])))).
      Result_Status r \<noteq> StatusRegression" by code_simp
qed (simp_all add: example_config_def example_event_def New_def detector_wf_New NewWithTolerance_def
      detector_wf_def)

text \<open>
  Two events are checked against one another exactly when their counter is shared:
  same venue, and either the venue counts the connection or symbol and channel agree.
\<close>

theorem sequenceKey_granularity:
  "sequenceKey p e1 = sequenceKey p e2 \<longleftrightarrow>
     Event_Venue e1 = Event_Venue e2 \<and>
     (p_ConnectionScopedVenues p (Event_Venue e1) = Some True \<or>
      Event_Symbol e1 = Event_Symbol e2 \<and>
      channelFor (Event_Kind e1) = channelFor (Event_Kind e2))"
  by (auto simp: sequenceKey_def)

text \<open>
  An outage ends without loss: when the broker accepts writes again, the next
  tick publishes everything that was retained, in order, and empties the batch.
\<close>

theorem outage_recovers_on_next_tick:
  assumes "\<not> mp_closed (ps_producer s)"
  shows "\<exists>s'. run_loop marshal inject Memory_Publish p
             (s\<lparr>ps_producer := SetFailure (ps_producer s) None\<rparr>) [Tick] = Running s'
         \<and> ps_batch s' = [] \<and> Messages (ps_producer s') = Messages (ps_producer s) @ ps_batch s
         \<and> st_Published (ps_stats s') = st_Published (ps_stats s) + of_nat (length (ps_batch s))
         \<and> st_Dropped (ps_stats s') = st_Dropped (ps_stats s)"
  using assms by (simp add: flush_def Memory_Publish_def SetFailure_def Messages_def)

end
