(* ===== verification/Registry.thy ===== *)
theory Registry
  imports GoJson AvroWire
begin

text \<open>
  The Schema Registry client, \<open>internal/schema/registry.go\<close>, with its two caches. The
  registry itself and the network are not part of the repository: the HTTP round trip is
  an argument \<open>http\<close>, a function of the server's state and the request that returns a
  transport error or a status and a body. A request body is the value that
  \<open>json.Marshal\<close> serialises; responses are parsed as JSON text.
\<close>

section \<open>Data\<close>

definition CompatBackward :: string where "CompatBackward = ''BACKWARD''"
definition CompatForward :: string where "CompatForward = ''FORWARD''"
definition CompatFull :: string where "CompatFull = ''FULL''"
definition CompatNone :: string where "CompatNone = ''NONE''"

definition ErrNotFound :: goerror where
  "ErrNotFound = Sentinel ''schema registry: not found''"

record Client =
  cl_baseURL :: string
  cl_idByKey :: "string \<rightharpoonup> int64"
  cl_schemaMap :: "int64 \<rightharpoonup> string"

datatype body =
    NoBody
  | RegisterRequest string string   \<comment> \<open>\<open>Schema\<close>, \<open>SchemaType\<close>\<close>
  | CompatibilityLevel string

record Request =
  rq_Method :: string
  rq_URL :: string
  rq_Body :: body

record Response =
  rs_Status :: int
  rs_Body :: string

type_synonym 'h transport = "'h \<Rightarrow> Request \<Rightarrow> 'h \<times> Response result"

text \<open>
  The HTTP client is not a field of \<open>Client\<close> here but the first argument of its operations;
  overriding it pairs the client with the transport its operations are given from then on.
\<close>

definition WithHTTPClient :: "'h transport \<Rightarrow> Client \<times> 'h transport \<Rightarrow> Client \<times> 'h transport" where
  "WithHTTPClient h c = (fst c, h)"

record errorResponse =
  er_ErrorCode :: int64
  er_Message :: string

definition dec_registerResponse :: "int64 dec" where
  "dec_registerResponse = dec_struct [(''id'', into (\<lambda>x. x) (\<lambda>f. f) dec_int64)]"

definition dec_schemaResponse :: "string dec" where
  "dec_schemaResponse = dec_struct [(''schema'', into (\<lambda>x. x) (\<lambda>f. f) dec_string)]"

definition dec_compatResponse :: "bool dec" where
  "dec_compatResponse = dec_struct [(''is_compatible'', into (\<lambda>x. x) (\<lambda>f. f) dec_bool)]"

definition dec_errorResponse :: "errorResponse dec" where
  "dec_errorResponse = dec_struct
     [(''error_code'', into er_ErrorCode er_ErrorCode_update dec_int64),
      (''message'', into er_Message er_Message_update dec_string)]"

section \<open>Operations\<close>

definition NewClient :: "string \<Rightarrow> Client" where
  "NewClient baseURL =
     \<lparr>cl_baseURL = TrimRightByte baseURL CHR ''/'', cl_idByKey = Map.empty, cl_schemaMap = Map.empty\<rparr>"

definition SubjectForTopic :: "string \<Rightarrow> string" where
  "SubjectForTopic topic = topic @ ''-value''"

definition cacheKey :: "string \<Rightarrow> string \<Rightarrow> string" where
  "cacheKey subject schemaJSON = subject @ [CHR 0x00] @ Join (Fields schemaJSON) '' ''"

text \<open>\<open>io.ReadAll(io.LimitReader(r, n))\<close>.\<close>

definition read_limited :: "int \<Rightarrow> string \<Rightarrow> string" where
  "read_limited n raw = (if int (length raw) \<le> n then raw else take (nat n) raw)"

text \<open>
  \<open>do\<close>: one round trip. At most one MiB of the body is read; a 404 is
  \<open>ErrNotFound\<close>; any other status outside the 200s is an error that carries the
  registry's message when the body has one. \<open>out\<close> says how the body is decoded.
\<close>

definition do_request :: "'h transport \<Rightarrow> 'h \<Rightarrow> Request \<Rightarrow> (string \<Rightarrow> 'a result) \<Rightarrow> 'h \<times> 'a result" where
  "do_request http h req out =
     (case http h req of
        (h', Inl err) \<Rightarrow> (h', Inl err)
      | (h', Inr resp) \<Rightarrow>
          (let raw = read_limited 1048576 (rs_Body resp); status = rs_Status resp in
           if status = 404 then (h', Inl ErrNotFound)
           else if status < 200 \<or> 300 \<le> status then
             (case Unmarshal dec_errorResponse \<lparr>er_ErrorCode = 0, er_Message = []\<rparr> raw of
                Inr e \<Rightarrow>
                  if er_Message e \<noteq> '''' then
                    (h', Inl (Errorf ''registry %d (code %d): %s''
                       [FormatInt status, FormatInt (er_ErrorCode e), er_Message e] None))
                  else (h', Inl (Errorf ''registry %d: %s'' [FormatInt status, TrimSpace raw] None))
              | Inl _ \<Rightarrow> (h', Inl (Errorf ''registry %d: %s'' [FormatInt status, TrimSpace raw] None)))
           else (h', out raw)))"

definition Register ::
  "'h transport \<Rightarrow> Client \<Rightarrow> 'h \<Rightarrow> string \<Rightarrow> string \<Rightarrow> Client \<times> 'h \<times> int64 result"
where
  "Register http c h subject schemaJSON =
     (let key = cacheKey subject schemaJSON in
      case cl_idByKey c key of
        Some i \<Rightarrow> (c, h, Inr i)
      | None \<Rightarrow>
          (case do_request http h
                  \<lparr>rq_Method = ''POST'', rq_URL = cl_baseURL c @ ''/subjects/'' @ subject @ ''/versions'',
                   rq_Body = RegisterRequest schemaJSON ''AVRO''\<rparr>
                  (Unmarshal dec_registerResponse 0) of
             (h', Inl err) \<Rightarrow> (c, h', Inl (Errorf ''register %q: %w'' [subject] (Some err)))
           | (h', Inr i) \<Rightarrow>
               (c\<lparr>cl_idByKey := (cl_idByKey c)(key \<mapsto> i),
                  cl_schemaMap := (cl_schemaMap c)(i \<mapsto> schemaJSON)\<rparr>, h', Inr i)))"

definition SchemaByID :: "'h transport \<Rightarrow> Client \<Rightarrow> 'h \<Rightarrow> int64 \<Rightarrow> Client \<times> 'h \<times> string result" where
  "SchemaByID http c h i =
     (case cl_schemaMap c i of
        Some s \<Rightarrow> (c, h, Inr s)
      | None \<Rightarrow>
          (case do_request http h
                  \<lparr>rq_Method = ''GET'', rq_URL = cl_baseURL c @ ''/schemas/ids/'' @ FormatInt i,
                   rq_Body = NoBody\<rparr>
                  (Unmarshal dec_schemaResponse []) of
             (h', Inl err) \<Rightarrow> (c, h', Inl (Errorf ''fetch schema id %d: %w'' [FormatInt i] (Some err)))
           | (h', Inr s) \<Rightarrow> (c\<lparr>cl_schemaMap := (cl_schemaMap c)(i \<mapsto> s)\<rparr>, h', Inr s)))"

definition CheckCompatibility ::
  "'h transport \<Rightarrow> Client \<Rightarrow> 'h \<Rightarrow> string \<Rightarrow> string \<Rightarrow> 'h \<times> bool result"
where
  "CheckCompatibility http c h subject schemaJSON =
     (case do_request http h
             \<lparr>rq_Method = ''POST'',
              rq_URL = cl_baseURL c @ ''/compatibility/subjects/'' @ subject @ ''/versions/latest'',
              rq_Body = RegisterRequest schemaJSON ''AVRO''\<rparr>
             (Unmarshal dec_compatResponse False) of
        (h', Inl err) \<Rightarrow> if errors_is err ErrNotFound then (h', Inr True) else (h', Inl err)
      | (h', Inr b) \<Rightarrow> (h', Inr b))"

definition SetCompatibility ::
  "'h transport \<Rightarrow> Client \<Rightarrow> 'h \<Rightarrow> string \<Rightarrow> string \<Rightarrow> 'h \<times> unit result"
where
  "SetCompatibility http c h subject level =
     do_request http h
       \<lparr>rq_Method = ''PUT'', rq_URL = cl_baseURL c @ ''/config/'' @ subject,
        rq_Body = CompatibilityLevel level\<rparr>
       (\<lambda>_. Inr ())"

section \<open>The caches\<close>

text \<open>Every cached id can be resolved without the network.\<close>

definition cache_closed :: "Client \<Rightarrow> bool" where
  "cache_closed c \<longleftrightarrow> ran (cl_idByKey c) \<subseteq> dom (cl_schemaMap c)"

lemma cache_closed_New: "cache_closed (NewClient url)"
  by (simp add: cache_closed_def NewClient_def)

lemma cache_closed_Register:
  "cache_closed c \<Longrightarrow> cache_closed (fst (Register http c h subject js))"
  by (auto simp: cache_closed_def Register_def Let_def ran_def dom_def
      split: option.splits prod.splits sum.splits)

lemma cache_closed_SchemaByID:
  "cache_closed c \<Longrightarrow> cache_closed (fst (SchemaByID http c h i))"
  by (auto simp: cache_closed_def SchemaByID_def dom_def
      split: option.splits prod.splits sum.splits)

text \<open>What a client of the registry may rely on: a registered schema stays registered.\<close>

locale schema_registry =
  fixes register :: "'c \<Rightarrow> 'h \<Rightarrow> string \<Rightarrow> string \<Rightarrow> 'c \<times> 'h \<times> int64 result"
    and fetch :: "'c \<Rightarrow> 'h \<Rightarrow> int64 \<Rightarrow> 'c \<times> 'h \<times> string result"
    and ok :: "'c \<Rightarrow> bool"
  assumes register_idempotent:
      "register c h subj js = (c', h', Inr i) \<Longrightarrow> register c' h2 subj js = (c', h2, Inr i)"
    and register_fetchable:
      "ok c \<Longrightarrow> register c h subj js = (c', h', Inr i) \<Longrightarrow> \<exists>s. fetch c' h2 i = (c', h2, Inr s)"
    and register_ok: "ok c \<Longrightarrow> ok (fst (register c h subj js))"
    and fetch_ok: "ok c \<Longrightarrow> ok (fst (fetch c h i))"
begin

text \<open>Registering and at once fetching costs at most one round trip.\<close>

lemma register_then_fetch:
  assumes "ok c" and "register c h subj js = (c', h', Inr i)"
  shows "\<exists>s. fetch c' h' i = (c', h', Inr s)" and "register c' h' subj js = (c', h', Inr i)"
  using register_fetchable [OF assms, of h'] register_idempotent [OF assms(2), of h'] by auto

end

lemma Register_cached:
  assumes "Register http c h subj js = (c', h', Inr i)"
  shows "cl_idByKey c' (cacheKey subj js) = Some i"
  using assms by (auto simp: Register_def Let_def split: option.splits prod.splits sum.splits)

lemma Register_hit:
  "cl_idByKey c (cacheKey subj js) = Some i \<Longrightarrow> Register http c h subj js = (c, h, Inr i)"
  by (simp add: Register_def Let_def)

lemma SchemaByID_hit: "cl_schemaMap c i = Some s \<Longrightarrow> SchemaByID http c h i = (c, h, Inr s)"
  by (simp add: SchemaByID_def)

interpretation registry: schema_registry "Register http" "SchemaByID http" cache_closed
proof
  fix c :: Client and h c' h' h2 subj js i
  assume r: "Register http c h subj js = (c', h', Inr i)"
  from Register_cached [OF r] show "Register http c' h2 subj js = (c', h2, Inr i)"
    by (rule Register_hit)
  assume "cache_closed c"
  then have "cache_closed c'" using cache_closed_Register [of c http h subj js] r by simp
  with Register_cached [OF r] obtain s where "cl_schemaMap c' i = Some s"
    by (auto simp: cache_closed_def ran_def dom_def)
  then show "\<exists>s. SchemaByID http c' h2 i = (c', h2, Inr s)" by (intro exI) (rule SchemaByID_hit)
qed (auto intro: cache_closed_Register cache_closed_SchemaByID)

section \<open>A concrete registry\<close>

text \<open>It counts the requests, assigns id 7 to every schema and finds everything compatible.\<close>

definition example_http :: "nat transport" where
  \<open>example_http n req =
     (Suc n, Inr \<lparr>rs_Status = 200, rs_Body = ''{"id":7,"is_compatible":true,"schema":"s"}''\<rparr>)\<close>

section \<open>Properties\<close>

text \<open>
  After a schema is registered, registering it again and resolving its id
  need no network: both answer from the cache, with the same id, and change nothing. Only
  the caches a fresh client builds up are assumed.
\<close>

theorem registered_schema_served_from_cache:
  assumes "cache_closed c" and "Register http c h subject js = (c', h', Inr i)"
  shows "Register http c' h' subject js = (c', h', Inr i)
       \<and> (\<exists>s. SchemaByID http c' h' i = (c', h', Inr s)) \<and> cache_closed c'"
  using registry.register_then_fetch [OF assms] registry.register_ok [OF assms(1), of http h subject js]
    assms(2) by simp

theorem registered_schema_served_from_cache_witness:
  "\<exists>c' i. Register example_http (NewClient ''http://r'') 0 ''t-value'' ''{ }'' = (c', 1, Inr i)
     \<and> Register example_http c' 1 ''t-value'' ''{ }'' = (c', 1, Inr i)
     \<and> (\<exists>s. SchemaByID example_http c' 1 i = (c', 1, Inr s))"
proof -
  have "(case Register example_http (NewClient ''http://r'') 0 ''t-value'' ''{ }'' of
      (c', h', r) \<Rightarrow> h' = 1 \<and> is_ok r)" by code_simp
  then obtain c' i where
    r: "Register example_http (NewClient ''http://r'') 0 ''t-value'' ''{ }'' = (c', 1, Inr i)"
    by (auto simp: is_ok_iff)
  from r registered_schema_served_from_cache [OF cache_closed_New r] show ?thesis by blast
qed

text \<open>
  The cache key collapses white space everywhere, inside string
  literals too: a schema that differs from a registered one only there is answered from the
  cache with the other schema's id and is never sent to the registry.
\<close>

theorem cache_key_collision:
  assumes "Register http c h subject js = (c', h', Inr i)" and "Fields js = Fields js2"
  shows "Register http c' h' subject js2 = (c', h', Inr i)"
  using Register_cached [OF assms(1)] assms(2) by (intro Register_hit) (simp add: cacheKey_def)

theorem cache_key_collision_witness:
  "\<exists>c' i. Register example_http (NewClient ''http://r'') 0 ''t-value'' ''{ 'doc': 'a b' }'' = (c', 1, Inr i)
     \<and> Register example_http c' 1 ''t-value'' ''{ 'doc': 'a   b' }'' = (c', 1, Inr i)"
proof -
  have "(case Register example_http (NewClient ''http://r'') 0 ''t-value'' ''{ 'doc': 'a b' }'' of
      (c', h', r) \<Rightarrow> h' = 1 \<and> is_ok r)" by code_simp
  then obtain c' i where
    r: "Register example_http (NewClient ''http://r'') 0 ''t-value'' ''{ 'doc': 'a b' }'' = (c', 1, Inr i)"
    by (auto simp: is_ok_iff)
  have "Fields ''{ 'doc': 'a b' }'' = Fields ''{ 'doc': 'a   b' }''" by code_simp
  from r cache_key_collision [OF r this] show ?thesis by blast
qed

end
