(* ===== verification/GoDuration.thy ===== *)
theory GoDuration
  imports GoFloat
begin

text \<open>
  Arithmetic on \<open>float64\<close> values, each operation rounded once to nearest-even, and
  \<open>time.ParseDuration\<close>, which needs it for the fractions of its units. A duration is
  an \<open>int64\<close> of nanoseconds.
\<close>

section \<open>Float arithmetic\<close>

definition f_ratio :: "int \<Rightarrow> int \<Rightarrow> int \<times> int" where
  "f_ratio m e = (if 0 \<le> e then (m * ipow 2 e, 1) else (m, ipow 2 (- e)))"

definition f_round :: "bool \<Rightarrow> int \<Rightarrow> int \<Rightarrow> float64" where
  "f_round neg n d = (if n = 0 then f_zero neg else round_ratio neg n d)"

definition f_of_int :: "int \<Rightarrow> float64" where
  "f_of_int n = f_round (n < 0) \<bar>n\<bar> 1"

fun f_mul :: "float64 \<Rightarrow> float64 \<Rightarrow> float64" where
  "f_mul (FFin s m e) (FFin s' m' e') =
     (let (n, d) = f_ratio m e; (n', d') = f_ratio m' e'
      in f_round (s \<noteq> s') (n * n') (d * d'))"
| "f_mul (FInf s) (FFin s' m e) = (if m = 0 then FNaN else FInf (s \<noteq> s'))"
| "f_mul (FFin s m e) (FInf s') = (if m = 0 then FNaN else FInf (s \<noteq> s'))"
| "f_mul (FInf s) (FInf s') = FInf (s \<noteq> s')"
| "f_mul FNaN _ = FNaN"
| "f_mul _ FNaN = FNaN"

fun f_div :: "float64 \<Rightarrow> float64 \<Rightarrow> float64" where
  "f_div (FFin s m e) (FFin s' m' e') =
     (if m' = 0 then (if m = 0 then FNaN else FInf (s \<noteq> s'))
      else (let (n, d) = f_ratio m e; (n', d') = f_ratio m' e'
            in f_round (s \<noteq> s') (n * d') (d * n')))"
| "f_div (FInf s) (FFin s' m e) = FInf (s \<noteq> s')"
| "f_div (FFin s m e) (FInf s') = f_zero (s \<noteq> s')"
| "f_div (FInf _) (FInf _) = FNaN"
| "f_div FNaN _ = FNaN"
| "f_div _ FNaN = FNaN"

definition f_signed :: "bool \<Rightarrow> int \<Rightarrow> int" where
  "f_signed neg m = (if neg then - m else m)"

text \<open>
  Addition and subtraction, rounded once. A sum that is exactly zero is positive unless
  both terms are negative.
\<close>

fun f_neg :: "float64 \<Rightarrow> float64" where
  "f_neg (FFin s m e) = FFin (\<not> s) m e"
| "f_neg (FInf s) = FInf (\<not> s)"
| "f_neg FNaN = FNaN"

fun f_add :: "float64 \<Rightarrow> float64 \<Rightarrow> float64" where
  "f_add (FFin s m e) (FFin s' m' e') =
     (let (n, d) = f_ratio m e; (n', d') = f_ratio m' e';
          t = f_signed s n * d' + f_signed s' n' * d
      in if t = 0 then f_zero (s \<and> s') else f_round (t < 0) \<bar>t\<bar> (d * d'))"
| "f_add (FInf s) (FFin _ _ _) = FInf s"
| "f_add (FFin _ _ _) (FInf s) = FInf s"
| "f_add (FInf s) (FInf s') = (if s = s' then FInf s else FNaN)"
| "f_add FNaN _ = FNaN"
| "f_add _ FNaN = FNaN"

definition f_sub :: "float64 \<Rightarrow> float64 \<Rightarrow> float64" where
  "f_sub x y = f_add x (f_neg y)"

text \<open>\<open>x < y\<close>; every comparison with a NaN is false.\<close>

fun f_less :: "float64 \<Rightarrow> float64 \<Rightarrow> bool" where
  "f_less (FFin s m e) (FFin s' m' e') \<longleftrightarrow>
     (let (n, d) = f_ratio m e; (n', d') = f_ratio m' e'
      in f_signed s n * d' < f_signed s' n' * d)"
| "f_less (FInf s) (FFin _ _ _) \<longleftrightarrow> s"
| "f_less (FFin _ _ _) (FInf s) \<longleftrightarrow> \<not> s"
| "f_less (FInf s) (FInf s') \<longleftrightarrow> s \<and> \<not> s'"
| "f_less FNaN _ \<longleftrightarrow> False"
| "f_less _ FNaN \<longleftrightarrow> False"

text \<open>Conversion to an integer, toward zero, for finite values.\<close>

definition f_trunc :: "float64 \<Rightarrow> int" where
  "f_trunc f =
     (case f of
        FFin s m e \<Rightarrow> (let (n, d) = f_ratio m e in f_signed s (n div d))
      | _ \<Rightarrow> 0)"

section \<open>time.ParseDuration\<close>

definition errDuration :: "string \<Rightarrow> string \<Rightarrow> goerror" where
  "errDuration what s = Errorf (''time: '' @ what @ '' duration %q'') [s] None"

text \<open>\<open>leadingInt\<close> and \<open>leadingFraction\<close>: the digits at the head, with their bounds.\<close>

fun leadingInt :: "int \<Rightarrow> string \<Rightarrow> (int \<times> string) option" where
  "leadingInt x [] = Some (x, [])"
| "leadingInt x (c # cs) =
     (if \<not> is_digit c then Some (x, c # cs)
      else if 922337203685477580 < x then None
      else (let y = x * 10 + (code c - 48)
            in if 9223372036854775808 < y then None else leadingInt y cs))"

fun leadingFraction :: "bool \<Rightarrow> int \<Rightarrow> int \<Rightarrow> string \<Rightarrow> int \<times> int \<times> string" where
  "leadingFraction overflow x scl [] = (x, scl, [])"
| "leadingFraction overflow x scl (c # cs) =
     (if \<not> is_digit c then (x, scl, c # cs)
      else if overflow then leadingFraction True x scl cs
      else if 922337203685477580 < x then leadingFraction True x scl cs
      else (let y = x * 10 + (code c - 48)
            in if 9223372036854775808 < y then leadingFraction True x scl cs
               else leadingFraction False y (scl * 10) cs))"

text \<open>The two spellings of the micro sign are bytes C2 B5 and CE BC.\<close>

definition unitMap :: "string \<Rightarrow> int option" where
  "unitMap u =
     map_of [(''ns'', 1), (''us'', 1000), ([CHR 0xC2, CHR 0xB5, CHR ''s''], 1000),
             ([CHR 0xCE, CHR 0xBC, CHR ''s''], 1000), (''ms'', 1000000), (''s'', 1000000000),
             (''m'', 60000000000), (''h'', 3600000000000)] u"

definition is_unit_char :: "char \<Rightarrow> bool" where
  "is_unit_char c \<longleftrightarrow> c \<noteq> CHR ''.'' \<and> \<not> is_digit c"

lemma leadingInt_length: "leadingInt x s = Some (y, r) \<Longrightarrow> length r \<le> length s"
proof (induction x s rule: leadingInt.induct)
  case (2 x c cs)
  then show ?case by (auto simp: Let_def split: if_splits)
qed simp

lemma leadingFraction_length: "leadingFraction b x k s = (y, k', r) \<Longrightarrow> length r \<le> length s"
proof (induction b x k s rule: leadingFraction.induct)
  case (2 b x k c cs)
  then show ?case by (auto simp: Let_def split: if_splits)
qed simp

text \<open>The fraction after the integer digits: its value, its scl, whether it had digits.\<close>

definition fraction_part :: "string \<Rightarrow> int \<times> int \<times> bool \<times> string" where
  "fraction_part s =
     (case s of
        c # cs \<Rightarrow>
          if c = CHR ''.'' then
            (let (f, scl, r) = leadingFraction False 0 1 cs in (f, scl, length r \<noteq> length cs, r))
          else (0, 1, False, s)
      | [] \<Rightarrow> (0, 1, False, []))"

lemma fraction_part_length: "fraction_part s = (f, k, post, r) \<Longrightarrow> length r \<le> length s"
  by (auto simp: fraction_part_def split: list.splits if_splits prod.splits dest: leadingFraction_length)

text \<open>One \<open>number unit\<close> group: its nanoseconds and the rest of the string.\<close>

definition duration_group :: "string \<Rightarrow> string \<Rightarrow> (int \<times> string) result" where
  "duration_group orig s =
     (if \<not> (hd s = CHR ''.'' \<or> is_digit (hd s)) then Inl (errDuration ''invalid'' orig)
      else case leadingInt 0 s of
        None \<Rightarrow> Inl (errDuration ''invalid'' orig)
      | Some (v, s1) \<Rightarrow>
          (let pre = (length s1 \<noteq> length s);
               (f, scl, post, s2) = fraction_part s1
           in if \<not> pre \<and> \<not> post then Inl (errDuration ''invalid'' orig)
              else let u = takeWhile is_unit_char s2; s3 = dropWhile is_unit_char s2
              in if u = [] then Inl (errDuration ''missing unit in'' orig)
              else case unitMap u of
                None \<Rightarrow> Inl (errDuration ''unknown unit in'' orig)
              | Some unit \<Rightarrow>
                  if 9223372036854775808 div unit < v then Inl (errDuration ''invalid'' orig)
                  else
                    (let w = v * unit + (if 0 < f
                        then f_trunc (f_mul (f_of_int f) (f_div (f_of_int unit) (f_of_int scl))) else 0)
                     in if 9223372036854775808 < w then Inl (errDuration ''invalid'' orig)
                        else Inr (w, s3))))"

lemma duration_group_length:
  assumes "duration_group orig s = Inr (w, r)" and "s \<noteq> []"
  shows "length r < length s"
proof -
  obtain v s1 f k post s2 where l: "leadingInt 0 s = Some (v, s1)" "fraction_part s1 = (f, k, post, s2)"
    and u: "takeWhile is_unit_char s2 \<noteq> []" "r = dropWhile is_unit_char s2"
    using assms(1)
    by (auto simp: duration_group_def Let_def split: if_splits option.splits prod.splits)
  have "length (takeWhile is_unit_char s2) + length r = length s2"
    using u(2) by (metis length_append takeWhile_dropWhile_id)
  moreover have "length s2 \<le> length s"
    using leadingInt_length [OF l(1)] fraction_part_length [OF l(2)] by simp
  moreover have "0 < length (takeWhile is_unit_char s2)" using u(1) by (rule length_greater_0_conv [THEN iffD2])
  ultimately show ?thesis by linarith
qed

function duration_loop :: "string \<Rightarrow> int \<Rightarrow> string \<Rightarrow> int result" where
  "duration_loop orig d s =
     (if s = [] then Inr d
      else case duration_group orig s of
        Inl err \<Rightarrow> Inl err
      | Inr (v, r) \<Rightarrow>
          if 9223372036854775808 < d + v then Inl (errDuration ''invalid'' orig)
          else duration_loop orig (d + v) r)"
  by pat_completeness auto
termination
  by (relation "measure (\<lambda>(orig, d, s). length s)") (auto dest: duration_group_length)

declare duration_loop.simps [simp del]

definition ParseDuration :: "string \<Rightarrow> int64 result" where
  "ParseDuration orig =
     (let neg = (orig \<noteq> [] \<and> hd orig = CHR ''-'');
          s = (if orig \<noteq> [] \<and> (hd orig = CHR ''-'' \<or> hd orig = CHR ''+'') then tl orig else orig)
      in if s = ''0'' then Inr 0
         else if s = [] then Inl (errDuration ''invalid'' orig)
         else case duration_loop orig 0 s of
           Inl err \<Rightarrow> Inl err
         | Inr d \<Rightarrow>
             if neg then Inr (- d)
             else if 9223372036854775807 < d then Inl (errDuration ''invalid'' orig)
             else Inr d)"

end
