(* ===== verification/Config.thy ===== *)
theory Config
  imports GoDuration
begin

text \<open>
  Settings from the environment, \<open>internal/config/config.go\<close>. The environment is a
  function from names to optional values, which is what \<open>os.LookupEnv\<close> reads; \<open>Load\<close>
  returns the configuration together with the error, as the code does. Error messages keep
  their format and string arguments; the float argument of one is not rendered.
\<close>

section \<open>Data\<close>

record Config =
  c_Venues :: "string list"
  c_Symbols :: "string list"
  c_KafkaBrokers :: "string list"
  c_SchemaRegistryURL :: string
  c_TopicTrades :: string
  c_TopicBook :: string
  c_TopicChain :: string
  c_MetricsAddr :: string
  c_LogLevel :: string
  c_DryRun :: bool
  c_BufferSize :: int64
  c_BatchSize :: int64
  c_FlushInterval :: int64
  c_KrakenDepth :: int64
  c_BinanceDepthMS :: int64
  c_OnchainEnabled :: bool
  c_OnchainChain :: string
  c_OnchainWSURL :: string
  c_OTLPEndpoint :: string
  c_TraceSampleRatio :: float64

type_synonym environ = "string \<Rightarrow> string option"

definition Defaults :: Config where
  "Defaults =
     \<lparr>c_Venues = [''coinbase'', ''kraken'', ''binance''],
      c_Symbols = [''BTC-USD'', ''ETH-USD'', ''SOL-USD''],
      c_KafkaBrokers = [''localhost:9092''],
      c_SchemaRegistryURL = ''http://localhost:8081'',
      c_TopicTrades = ''md.trades.v1'', c_TopicBook = ''md.book.v1'', c_TopicChain = ''md.chain.v1'',
      c_MetricsAddr = '':9101'', c_LogLevel = ''info'', c_DryRun = False,
      c_BufferSize = 16384, c_BatchSize = 500, c_FlushInterval = 10 * 1000000,
      c_KrakenDepth = 10, c_BinanceDepthMS = 100,
      c_OnchainEnabled = False, c_OnchainChain = ''ethereum'', c_OnchainWSURL = '''',
      c_OTLPEndpoint = '''', c_TraceSampleRatio = fst (ParseFloat ''0.01'')\<rparr>"

section \<open>Reading one variable\<close>

definition envStr :: "environ \<Rightarrow> string \<Rightarrow> string \<Rightarrow> string" where
  "envStr env key def =
     (case env key of Some v \<Rightarrow> if v \<noteq> '''' then v else def | None \<Rightarrow> def)"

definition envList :: "environ \<Rightarrow> string \<Rightarrow> string list \<Rightarrow> string list" where
  "envList env key def =
     (case env key of
        None \<Rightarrow> def
      | Some v \<Rightarrow>
          if TrimSpace v = '''' then def
          else filter (\<lambda>p. p \<noteq> '''') (map TrimSpace (Split v CHR '','')))"

definition envBool :: "environ \<Rightarrow> string \<Rightarrow> bool \<Rightarrow> bool" where
  "envBool env key def =
     (case env key of
        None \<Rightarrow> def
      | Some v \<Rightarrow>
          if v = '''' then def
          else case ParseBool v of Inl _ \<Rightarrow> def | Inr b \<Rightarrow> b)"

definition envInt :: "environ \<Rightarrow> string \<Rightarrow> int64 \<Rightarrow> int64 \<times> goerror option" where
  "envInt env key def =
     (case env key of
        None \<Rightarrow> (def, None)
      | Some v \<Rightarrow>
          if v = '''' then (def, None)
          else case ParseInt v 10 of
                 Inl err \<Rightarrow> (def, Some (Errorf ''config: %s=%q is not an integer: %w'' [key, v] (Some err)))
               | Inr n \<Rightarrow> (n, None))"

definition envDuration :: "environ \<Rightarrow> string \<Rightarrow> int64 \<Rightarrow> int64 \<times> goerror option" where
  "envDuration env key def =
     (case env key of
        None \<Rightarrow> (def, None)
      | Some v \<Rightarrow>
          if v = '''' then (def, None)
          else case ParseDuration v of
                 Inl err \<Rightarrow> (def, Some (Errorf ''config: %s=%q is not a duration: %w'' [key, v] (Some err)))
               | Inr d \<Rightarrow> (d, None))"

section \<open>Validation\<close>

definition Validate :: "Config \<Rightarrow> goerror option" where
  "Validate c =
     (if c_Symbols c = [] then Some (Errorf ''config: no symbols configured'' [] None)
      else case find (\<lambda>s. \<not> ContainsByte s CHR ''-'') (c_Symbols c) of
        Some s \<Rightarrow>
          Some (Errorf ''config: symbol %q must be canonical BASE-QUOTE, e.g. BTC-USD'' [s] None)
      | None \<Rightarrow>
     (if c_Venues c = [] \<and> \<not> c_OnchainEnabled c
      then Some (Errorf ''config: no venues and no on-chain source enabled'' [] None)
      else case find (\<lambda>v. v \<notin> {''coinbase'', ''kraken'', ''binance''}) (c_Venues c) of
        Some v \<Rightarrow> Some (Errorf ''config: unknown venue %q'' [v] None)
      | None \<Rightarrow>
      if \<not> c_DryRun c \<and> c_KafkaBrokers c = []
      then Some (Errorf ''config: TAPELINE_KAFKA_BROKERS is required unless TAPELINE_DRY_RUN=true'' [] None)
      else if c_OnchainEnabled c \<and> c_OnchainWSURL c = ''''
      then Some (Errorf ''config: TAPELINE_ONCHAIN_WS_URL is required when on-chain ingestion is enabled'' [] None)
      else if c_BufferSize c < 1
      then Some (Errorf ''config: buffer size must be positive, got %d'' [FormatInt (c_BufferSize c)] None)
      else if c_BatchSize c < 1
      then Some (Errorf ''config: batch size must be positive, got %d'' [FormatInt (c_BatchSize c)] None)
      else if f_less (c_TraceSampleRatio c) (f_of_int 0) \<or> f_less (f_of_int 1) (c_TraceSampleRatio c)
      then Some (Errorf ''config: trace sample ratio must be in [0,1], got %v'' [] None)
      else if c_BinanceDepthMS c \<noteq> 100 \<and> c_BinanceDepthMS c \<noteq> 1000
      then Some (Errorf ''config: binance depth interval must be 100 or 1000 ms, got %d''
                   [FormatInt (c_BinanceDepthMS c)] None)
      else None))"

section \<open>Load\<close>

text \<open>
  The assignments that cannot fail, then the five that can, in order, then the rest. A
  failing assignment leaves the default in place and returns at once.
\<close>

definition load_strings :: "environ \<Rightarrow> Config \<Rightarrow> Config" where
  "load_strings env c =
     c\<lparr>c_Venues := envList env ''TAPELINE_VENUES'' (c_Venues c),
       c_Symbols := envList env ''TAPELINE_SYMBOLS'' (c_Symbols c),
       c_KafkaBrokers := envList env ''TAPELINE_KAFKA_BROKERS'' (c_KafkaBrokers c),
       c_SchemaRegistryURL := envStr env ''TAPELINE_SCHEMA_REGISTRY_URL'' (c_SchemaRegistryURL c),
       c_TopicTrades := envStr env ''TAPELINE_TOPIC_TRADES'' (c_TopicTrades c),
       c_TopicBook := envStr env ''TAPELINE_TOPIC_BOOK'' (c_TopicBook c),
       c_TopicChain := envStr env ''TAPELINE_TOPIC_CHAIN'' (c_TopicChain c),
       c_MetricsAddr := envStr env ''TAPELINE_METRICS_ADDR'' (c_MetricsAddr c),
       c_LogLevel := envStr env ''TAPELINE_LOG_LEVEL'' (c_LogLevel c),
       c_DryRun := envBool env ''TAPELINE_DRY_RUN'' (c_DryRun c)\<rparr>"

definition load_onchain :: "environ \<Rightarrow> Config \<Rightarrow> Config" where
  "load_onchain env c =
     c\<lparr>c_OnchainEnabled := envBool env ''TAPELINE_ONCHAIN_ENABLED'' (c_OnchainEnabled c),
       c_OnchainChain := envStr env ''TAPELINE_ONCHAIN_CHAIN'' (c_OnchainChain c),
       c_OnchainWSURL := envStr env ''TAPELINE_ONCHAIN_WS_URL'' (c_OnchainWSURL c),
       c_OTLPEndpoint := envStr env ''TAPELINE_OTLP_ENDPOINT'' (c_OTLPEndpoint c)\<rparr>"

text \<open>One \<open>if c.X, err = envY(...); err != nil \<close> statement, and the statements after it.\<close>

definition load_num ::
  "int64 \<times> goerror option \<Rightarrow> (int64 \<Rightarrow> Config) \<Rightarrow> (Config \<Rightarrow> Config \<times> goerror option) \<Rightarrow>
   Config \<times> goerror option"
where
  "load_num r store rest =
     (case r of (v, Some err) \<Rightarrow> (store v, Some err) | (v, None) \<Rightarrow> rest (store v))"

definition load_ratio :: "environ \<Rightarrow> Config \<Rightarrow> Config \<times> goerror option" where
  "load_ratio env c =
     (case env ''TAPELINE_TRACE_SAMPLE_RATIO'' of
        None \<Rightarrow> (c, None)
      | Some v \<Rightarrow>
          if v = '''' then (c, None)
          else case ParseFloat v of
                 (r, Some err) \<Rightarrow>
                   (c, Some (Errorf ''config: TAPELINE_TRACE_SAMPLE_RATIO=%q is not a number: %w'' [v] (Some err)))
               | (r, None) \<Rightarrow> (c\<lparr>c_TraceSampleRatio := r\<rparr>, None))"

definition Load :: "environ \<Rightarrow> Config \<times> goerror option" where
  "Load env =
     (let c = load_strings env Defaults in
      load_num (envInt env ''TAPELINE_BUFFER_SIZE'' (c_BufferSize c)) (\<lambda>v. c\<lparr>c_BufferSize := v\<rparr>) (\<lambda>c.
      load_num (envInt env ''TAPELINE_BATCH_SIZE'' (c_BatchSize c)) (\<lambda>v. c\<lparr>c_BatchSize := v\<rparr>) (\<lambda>c.
      load_num (envDuration env ''TAPELINE_FLUSH_INTERVAL'' (c_FlushInterval c)) (\<lambda>v. c\<lparr>c_FlushInterval := v\<rparr>) (\<lambda>c.
      load_num (envInt env ''TAPELINE_KRAKEN_DEPTH'' (c_KrakenDepth c)) (\<lambda>v. c\<lparr>c_KrakenDepth := v\<rparr>) (\<lambda>c.
      load_num (envInt env ''TAPELINE_BINANCE_DEPTH_MS'' (c_BinanceDepthMS c)) (\<lambda>v. c\<lparr>c_BinanceDepthMS := v\<rparr>) (\<lambda>c.
        (case load_ratio env (load_onchain env c) of
           (c, Some err) \<Rightarrow> (c, Some err)
         | (c, None) \<Rightarrow> (c, Validate c))))))))"

section \<open>Facts\<close>

lemma load_num_None:
  "load_num r store rest = (c, None) \<Longrightarrow> \<exists>v. rest (store v) = (c, None)"
  by (cases r) (auto simp: load_num_def split: option.splits)

text \<open>A configuration that \<open>Load\<close> returns without an error has passed validation.\<close>

lemma Load_validated: "Load env = (c, None) \<Longrightarrow> Validate c = None"
  unfolding Load_def Let_def
  by (drule load_num_None | erule exE)+ (auto split: prod.splits option.splits)

lemma Validate_None:
  assumes "Validate c = None"
  shows "c_Symbols c \<noteq> []" "\<forall>s \<in> set (c_Symbols c). CHR ''-'' \<in> set s"
    "c_Venues c \<noteq> [] \<or> c_OnchainEnabled c"
    "\<forall>v \<in> set (c_Venues c). v \<in> {''coinbase'', ''kraken'', ''binance''}"
    "c_DryRun c \<or> c_KafkaBrokers c \<noteq> []" "1 \<le> c_BufferSize c" "1 \<le> c_BatchSize c"
    "c_BinanceDepthMS c \<in> {100, 1000}"
  using assms
  by (auto simp: Validate_def ContainsByte_def find_None_iff split: if_splits option.splits)

section \<open>Properties\<close>

text \<open>
  A list from the environment has no empty and no padded entries, however
  the commas and spaces of the variable are placed; only a blank variable falls back to
  the default.
\<close>

theorem envList_entries_clean:
  assumes "env key = Some v" and "TrimSpace v \<noteq> ''''" and "p \<in> set (envList env key def)"
  shows "p \<noteq> '''' \<and> TrimSpace p = p"
  using assms by (auto simp: envList_def)

text \<open>
  A sample ratio of NaN passes validation: both comparisons of the range
  check are false on it.
\<close>

theorem Load_accepts_NaN_ratio:
  "snd (Load [''TAPELINE_TRACE_SAMPLE_RATIO'' \<mapsto> ''NaN'']) = None
   \<and> c_TraceSampleRatio (fst (Load [''TAPELINE_TRACE_SAMPLE_RATIO'' \<mapsto> ''NaN''])) = FNaN"
  by code_simp

text \<open>
  With nothing set the defaults load and are valid; one malformed
  number is refused with an error that names the variable.
\<close>

theorem Load_defaults_and_refusal:
  "Load Map.empty = (Defaults, None)
   \<and> snd (Load [''TAPELINE_BATCH_SIZE'' \<mapsto> ''many'']) =
       Some (Errorf ''config: %s=%q is not an integer: %w'' [''TAPELINE_BATCH_SIZE'', ''many''] (Some ErrSyntax))"
  by code_simp

end
