(* ===== verification/Startup.thy ===== *)
theory Startup
  imports Pipeline Registry Config
begin

text \<open>
  What happens before the first event: \<open>RegisterSchemas\<close> of
  \<open>internal/pipeline/pipeline.go\<close>, \<open>buildEncoders\<close> and \<open>buildProducer\<close> of
  \<open>cmd/ingestd/main.go\<close>, and the schema table of \<open>schemas/embed.go\<close>. A Go map that
  is ranged over is the list of its entries in the order of the range loop, so the theorems
  hold for every order. \<open>avro.Parse\<close> and the HTTP transport are arguments.
\<close>

section \<open>The schema table\<close>

text \<open>\<open>avroschema.Current\<close>, over the contents of the embedded files.\<close>

definition Current :: "string \<Rightarrow> string \<Rightarrow> string \<Rightarrow> (Kind \<times> string) list" where
  "Current TradeV1 BookDeltaV1 ChainTransferV1 =
     [(KindTrade, TradeV1), (KindBookDelta, BookDeltaV1), (KindChainTransfer, ChainTransferV1)]"

section \<open>Registering\<close>

definition errIncompatible :: "string \<Rightarrow> goerror" where
  "errIncompatible subject =
     Errorf ''schema for %s is incompatible with the registered latest version; evolve it with defaults or bump the topic version''
       [subject] None"

text \<open>One iteration: compatibility check, registration, encoder. The result keeps the encoder.\<close>

definition register_kind ::
  "'h transport \<Rightarrow> (string \<Rightarrow> 's result) \<Rightarrow> (Kind \<rightharpoonup> string) \<Rightarrow> Kind \<times> string \<Rightarrow>
   Client \<times> 'h \<times> metrics_log \<Rightarrow> (Client \<times> 'h \<times> metrics_log) \<times> 's Encoder result"
where
  "register_kind http parse schemasByKind kt st =
     (let (kind, topic) = kt; (c, h, ops) = st in
      case schemasByKind kind of
        None \<Rightarrow> (st, Inl (Errorf ''no schema for kind %q'' [kind] None))
      | Some schemaJSON \<Rightarrow>
          (let subject = SubjectForTopic topic;
               (h1, compat) = CheckCompatibility http c h subject schemaJSON;
               refuse = (case compat of
                   Inl err \<Rightarrow> if errors_is err ErrNotFound then None
                     else Some (Errorf ''compatibility check for %s: %w'' [subject] (Some err))
                 | Inr ok \<Rightarrow> if ok then None else Some (errIncompatible subject))
           in case refuse of
                Some err \<Rightarrow> ((c, h1, ops), Inl err)
              | None \<Rightarrow>
                  (case Register http c h1 subject schemaJSON of
                     (c2, h2, Inl err) \<Rightarrow> ((c2, h2, ops), Inl err)
                   | (c2, h2, Inr i) \<Rightarrow>
                       (let ops2 = ops @ [Inc SchemaRegistrations [subject]] in
                        case NewEncoder parse i schemaJSON of
                          Inl err \<Rightarrow> ((c2, h2, ops2), Inl (Errorf ''encoder for %s: %w'' [subject] (Some err)))
                        | Inr enc \<Rightarrow> ((c2, h2, ops2), Inr enc)))))"

fun register_loop ::
  "'h transport \<Rightarrow> (string \<Rightarrow> 's result) \<Rightarrow> (Kind \<rightharpoonup> string) \<Rightarrow> (Kind \<times> string) list \<Rightarrow>
   (Kind \<rightharpoonup> 's Encoder) \<Rightarrow> Client \<times> 'h \<times> metrics_log \<Rightarrow>
   (Client \<times> 'h \<times> metrics_log) \<times> (Kind \<rightharpoonup> 's Encoder) result"
where
  "register_loop http parse schemas [] encoders st = (st, Inr encoders)"
| "register_loop http parse schemas (kt # rest) encoders st =
     (case register_kind http parse schemas kt st of
        (st', Inl err) \<Rightarrow> (st', Inl err)
      | (st', Inr enc) \<Rightarrow> register_loop http parse schemas rest (encoders(fst kt \<mapsto> enc)) st')"

definition RegisterSchemas ::
  "'h transport \<Rightarrow> (string \<Rightarrow> 's result) \<Rightarrow> (Kind \<times> string) list \<Rightarrow> (Kind \<times> string) list \<Rightarrow>
   Client \<times> 'h \<times> metrics_log \<Rightarrow> (Client \<times> 'h \<times> metrics_log) \<times> (Kind \<rightharpoonup> 's Encoder) result"
where
  "RegisterSchemas http parse topics schemasByKind st =
     register_loop http parse (map_of schemasByKind) topics Map.empty st"

section \<open>buildEncoders\<close>

fun dry_run_encoders ::
  "(string \<Rightarrow> 's result) \<Rightarrow> (Kind \<times> string) list \<Rightarrow> (Kind \<rightharpoonup> 's Encoder) \<Rightarrow> (Kind \<rightharpoonup> 's Encoder) result"
where
  "dry_run_encoders parse [] encoders = Inr encoders"
| "dry_run_encoders parse ((kind, s) # rest) encoders =
     (case NewEncoder parse 0 s of
        Inl err \<Rightarrow> Inl (Errorf ''dry-run encoder for %s: %w'' [kind] (Some err))
      | Inr enc \<Rightarrow> dry_run_encoders parse rest (encoders(kind \<mapsto> enc)))"

text \<open>Pinning the compatibility level: a failure is logged and ignored.\<close>

definition pin_compatibility :: "'h transport \<Rightarrow> Client \<Rightarrow> (Kind \<times> string) list \<Rightarrow> 'h \<Rightarrow> 'h" where
  "pin_compatibility http c topics h =
     fold (\<lambda>(_, topic) h. fst (SetCompatibility http c h (SubjectForTopic topic) CompatFull)) topics h"

definition buildEncoders ::
  "'h transport \<Rightarrow> (string \<Rightarrow> 's result) \<Rightarrow> Config \<Rightarrow> (Kind \<times> string) list \<Rightarrow> (Kind \<times> string) list \<Rightarrow>
   'h \<Rightarrow> 'h \<times> metrics_log \<times> (Kind \<rightharpoonup> 's Encoder) result"
where
  "buildEncoders http parse cfg topics schemasByKind h =
     (if c_DryRun cfg then (h, [], dry_run_encoders parse schemasByKind Map.empty)
      else
        (let reg = NewClient (c_SchemaRegistryURL cfg);
             h1 = pin_compatibility http reg topics h
         in case RegisterSchemas http parse topics schemasByKind (reg, h1, []) of
              ((_, h2, ops), Inl err) \<Rightarrow>
                (h2, ops, Inl (Errorf ''registering schemas: %w'' [] (Some err)))
            | ((_, h2, ops), Inr encoders) \<Rightarrow> (h2, ops, Inr encoders)))"

section \<open>buildProducer\<close>

datatype Producer = Memory MemoryProducer | Kafka KafkaWriter

definition buildProducer :: "Config \<Rightarrow> Producer" where
  "buildProducer cfg =
     (if c_DryRun cfg then Memory NewMemoryProducer
      else Kafka (NewKafkaProducer ((DefaultConfig (c_KafkaBrokers cfg))
        \<lparr>sc_BatchSize := c_BatchSize cfg, sc_BatchTimeout := c_FlushInterval cfg\<rparr>)))"

section \<open>Facts\<close>

text \<open>A successful iteration leaves the id in the cache and builds the encoder from it.\<close>

lemma register_kind_ok:
  assumes "register_kind http parse schemas (kind, topic) (c, h, ops) = ((c', h', ops'), Inr enc)"
  obtains js h1 where "schemas kind = Some js"
    "Register http c h1 (SubjectForTopic topic) js = (c', h', Inr (SchemaID enc))"
    "NewEncoder parse (SchemaID enc) js = Inr enc"
    "CheckCompatibility http c h (SubjectForTopic topic) js = (h1, Inr True) \<or>
       (\<exists>err. CheckCompatibility http c h (SubjectForTopic topic) js = (h1, Inl err) \<and> errors_is err ErrNotFound)"
proof -
  obtain js where js: "schemas kind = Some js"
    using assms by (cases "schemas kind") (auto simp: register_kind_def)
  obtain h1 compat where cc: "CheckCompatibility http c h (SubjectForTopic topic) js = (h1, compat)"
    by fastforce
  obtain c2 h2 r where rg: "Register http c h1 (SubjectForTopic topic) js = (c2, h2, r)"
    by (metis prod_cases3)
  have ok: "compat = Inr True \<or> (\<exists>err. compat = Inl err \<and> errors_is err ErrNotFound)"
    using assms js cc
    by (cases compat) (auto simp: register_kind_def Let_def split: if_splits)
  then have "(case Register http c h1 (SubjectForTopic topic) js of
      (c2, h2, Inl err) \<Rightarrow> ((c2, h2, ops), Inl err)
    | (c2, h2, Inr i) \<Rightarrow>
        (case NewEncoder parse i js of
           Inl err \<Rightarrow> ((c2, h2, ops @ [Inc SchemaRegistrations [SubjectForTopic topic]]),
             Inl (Errorf ''encoder for %s: %w'' [SubjectForTopic topic] (Some err)))
         | Inr enc \<Rightarrow> ((c2, h2, ops @ [Inc SchemaRegistrations [SubjectForTopic topic]]), Inr enc)))
    = ((c', h', ops'), Inr enc)"
    using assms js cc by (auto simp: register_kind_def Let_def)
  then obtain i where i: "r = Inr i" "NewEncoder parse i js = Inr enc" "c2 = c'" "h2 = h'"
    using rg by (auto split: sum.splits)
  have "SchemaID enc = i" using i(2) by (auto simp: NewEncoder_def SchemaID_def split: sum.splits)
  with js rg i ok cc show thesis by (intro that [of js h1]) auto
qed

lemma Register_monotone:
  "Register http c h s js = (c', h', r) \<Longrightarrow> cl_idByKey c k = Some i \<Longrightarrow> cl_idByKey c' k = Some i"
  by (auto simp: Register_def Let_def split: option.splits prod.splits sum.splits)

lemma register_kind_monotone:
  "register_kind http parse schemas kt (c, h, ops) = ((c', h', ops'), r) \<Longrightarrow>
     cl_idByKey c k = Some i \<Longrightarrow> cl_idByKey c' k = Some i"
  by (auto simp: register_kind_def Let_def split: option.splits prod.splits sum.splits if_splits
      dest: Register_monotone)

lemma register_loop_monotone:
  "register_loop http parse schemas topics encs (c, h, ops) = ((c', h', ops'), r) \<Longrightarrow>
     cl_idByKey c k = Some i \<Longrightarrow> cl_idByKey c' k = Some i"
proof (induction topics arbitrary: encs c h ops)
  case (Cons kt topics)
  obtain c1 h1 ops1 r1 where k: "register_kind http parse schemas kt (c, h, ops) = ((c1, h1, ops1), r1)"
    by (metis prod_cases4 surj_pair)
  then have "cl_idByKey c1 k = Some i" using Cons.prems(2) by (rule register_kind_monotone)
  with k Cons show ?case by (cases r1) auto
qed simp

text \<open>What an entry of the encoder map is bound to.\<close>

definition encoder_registered ::
  "(string \<Rightarrow> 's result) \<Rightarrow> (Kind \<rightharpoonup> string) \<Rightarrow> Client \<Rightarrow> string \<Rightarrow> Kind \<Rightarrow> 's Encoder \<Rightarrow> bool"
where
  "encoder_registered parse schemas c topic kind enc \<longleftrightarrow>
     (\<exists>js. schemas kind = Some js \<and> NewEncoder parse (SchemaID enc) js = Inr enc \<and>
        cl_idByKey c (cacheKey (SubjectForTopic topic) js) = Some (SchemaID enc))"

lemma register_loop_ok:
  assumes "register_loop http parse schemas topics encs st = ((c', h', ops'), Inr encs')"
    and "distinct (map fst topics)"
  shows "(\<forall>k. k \<notin> fst ` set topics \<longrightarrow> encs' k = encs k) \<and>
         (\<forall>(kind, topic) \<in> set topics. \<exists>enc. encs' kind = Some enc \<and>
            encoder_registered parse schemas c' topic kind enc)"
  using assms
proof (induction topics arbitrary: encs st)
  case (Cons kt topics)
  obtain kind topic where kt: "kt = (kind, topic)" by (cases kt)
  obtain c h ops where st: "st = (c, h, ops)" by (cases st)
  obtain c1 h1 ops1 enc where
    k: "register_kind http parse schemas (kind, topic) (c, h, ops) = ((c1, h1, ops1), Inr enc)"
    and l: "register_loop http parse schemas topics (encs(kind \<mapsto> enc)) (c1, h1, ops1)
              = ((c', h', ops'), Inr encs')"
    using Cons.prems(1) unfolding kt st by (auto split: prod.splits sum.splits)
  from Cons.IH [OF l] Cons.prems(2) kt have IH:
    "\<forall>k. k \<notin> fst ` set topics \<longrightarrow> encs' k = (encs(kind \<mapsto> enc)) k"
    "\<forall>(kind, topic) \<in> set topics. \<exists>enc. encs' kind = Some enc \<and>
       encoder_registered parse schemas c' topic kind enc"
    by auto
  from register_kind_ok [OF k] obtain js h2 where
    "schemas kind = Some js" "NewEncoder parse (SchemaID enc) js = Inr enc"
    "Register http c h2 (SubjectForTopic topic) js = (c1, h1, Inr (SchemaID enc))" by metis
  then have "encoder_registered parse schemas c' topic kind enc"
    using register_loop_monotone [OF l] Register_cached by (fastforce simp: encoder_registered_def)
  moreover have "encs' kind = Some enc" using IH(1) Cons.prems(2) kt by simp
  ultimately show ?case using IH kt by auto
qed simp

text \<open>The loop over two lists is the loop over the first and then, if it succeeded, the second.\<close>

lemma register_loop_append:
  "register_loop http parse schemas (xs @ ys) encs st =
     (case register_loop http parse schemas xs encs st of
        (st', Inl err) \<Rightarrow> (st', Inl err)
      | (st', Inr encs') \<Rightarrow> register_loop http parse schemas ys encs' st')"
  by (induction xs arbitrary: encs st) (auto split: prod.splits sum.splits)

lemma register_loop_split:
  assumes "register_loop http parse schemas (pre @ (kind, topic) # post) encs st = (st', Inr encs')"
  obtains c1 h1 ops1 encs1 st2 enc where
    "register_loop http parse schemas pre encs st = ((c1, h1, ops1), Inr encs1)"
    "register_kind http parse schemas (kind, topic) (c1, h1, ops1) = (st2, Inr enc)"
    "register_loop http parse schemas post (encs1(kind \<mapsto> enc)) st2 = (st', Inr encs')"
  using assms by (auto simp: register_loop_append split: prod.splits sum.splits)

text \<open>Every metric call of the registration is well typed.\<close>

lemma register_kind_typed:
  "register_kind http parse schemas kt (c, h, ops) = ((c', h', ops'), r) \<Longrightarrow> list_all op_typed ops \<Longrightarrow>
     list_all op_typed ops'"
  by (auto simp: register_kind_def Let_def split: option.splits prod.splits sum.splits if_splits)

lemma register_loop_typed:
  "register_loop http parse schemas topics encs (c, h, ops) = ((c', h', ops'), r) \<Longrightarrow> list_all op_typed ops \<Longrightarrow>
     list_all op_typed ops'"
proof (induction topics arbitrary: encs c h ops)
  case (Cons kt topics)
  obtain c1 h1 ops1 r1 where k: "register_kind http parse schemas kt (c, h, ops) = ((c1, h1, ops1), r1)"
    by (metis prod_cases4 surj_pair)
  then have "list_all op_typed ops1" using Cons.prems(2) by (rule register_kind_typed)
  with k Cons show ?case by (cases r1) auto
qed simp

lemma buildEncoders_typed:
  "buildEncoders http parse cfg topics schemasByKind h = (h', ops, r) \<Longrightarrow> list_all op_typed ops"
  by (auto simp: buildEncoders_def RegisterSchemas_def Let_def split: if_splits prod.splits sum.splits
      dest: register_loop_typed)

text \<open>The cache holds only what the loop has registered, under the client's own address.\<close>

lemma Register_keeps:
  "Register http c h s js = (c', h', r) \<Longrightarrow>
     cl_baseURL c' = cl_baseURL c \<and> dom (cl_idByKey c') \<subseteq> insert (cacheKey s js) (dom (cl_idByKey c))"
  by (auto simp: Register_def Let_def split: option.splits prod.splits sum.splits if_splits)

definition keys_of :: "(Kind \<times> string) list \<Rightarrow> string set" where
  "keys_of topics = {cacheKey (SubjectForTopic topic) js | topic js. topic \<in> snd ` set topics}"

lemma register_kind_keeps:
  "register_kind http parse schemas kt (c, h, ops) = ((c', h', ops'), r) \<Longrightarrow>
     cl_baseURL c' = cl_baseURL c \<and> dom (cl_idByKey c') \<subseteq> keys_of [kt] \<union> dom (cl_idByKey c)"
  by (auto simp: register_kind_def keys_of_def Let_def split: option.splits prod.splits sum.splits if_splits
      dest!: Register_keeps)

lemma register_loop_keeps:
  "register_loop http parse schemas topics encs (c, h, ops) = ((c', h', ops'), r) \<Longrightarrow>
     cl_baseURL c' = cl_baseURL c \<and> dom (cl_idByKey c') \<subseteq> keys_of topics \<union> dom (cl_idByKey c)"
proof (induction topics arbitrary: encs c h ops)
  case (Cons kt topics)
  obtain c1 h1 ops1 r1 where k: "register_kind http parse schemas kt (c, h, ops) = ((c1, h1, ops1), r1)"
    by (metis prod_cases4 surj_pair)
  have keys: "keys_of (kt # topics) = keys_of [kt] \<union> keys_of topics" by (auto simp: keys_of_def)
  note here = register_kind_keeps [OF k]
  show ?case
  proof (cases r1)
    case (Inl err)
    with here k Cons.prems keys show ?thesis by auto
  next
    case (Inr enc)
    with k Cons.prems have "register_loop http parse schemas topics (encs(fst kt \<mapsto> enc)) (c1, h1, ops1) = ((c', h', ops'), r)"
      by simp
    from Cons.IH [OF this] have rest: "cl_baseURL c' = cl_baseURL c1"
      "dom (cl_idByKey c') \<subseteq> keys_of topics \<union> dom (cl_idByKey c1)" by blast+
    have "dom (cl_idByKey c1) \<subseteq> keys_of [kt] \<union> dom (cl_idByKey c)" "cl_baseURL c1 = cl_baseURL c"
      using here by blast+
    then show ?thesis unfolding keys using rest by (intro conjI) (simp, blast)
  qed
qed simp

text \<open>Topic names hold no zero byte, so keys of different topics differ.\<close>

lemma cacheKey_subject:
  assumes "cacheKey (SubjectForTopic t1) js1 = cacheKey (SubjectForTopic t2) js2"
    and "CHR 0x00 \<notin> set t1" and "CHR 0x00 \<notin> set t2"
  shows "t1 = t2"
proof -
  let ?P = "\<lambda>c. c \<noteq> CHR 0x00"
  have tw: "takeWhile ?P (cacheKey (SubjectForTopic t) js) = SubjectForTopic t" if "CHR 0x00 \<notin> set t" for t js
    using that by (subst cacheKey_def, subst takeWhile_append2) (auto simp: SubjectForTopic_def)
  have "SubjectForTopic t1 = SubjectForTopic t2" using tw assms by metis
  then show ?thesis by (simp add: SubjectForTopic_def)
qed

lemma fresh_key:
  assumes "register_loop http parse schemas pre encs (NewClient url, h, ops) = ((c1, h1, ops1), r)"
    and "topic \<notin> snd ` set pre" and "\<forall>t \<in> insert topic (snd ` set pre). CHR 0x00 \<notin> set t"
  shows "cl_baseURL c1 = TrimRightByte url CHR ''/''" "cl_idByKey c1 (cacheKey (SubjectForTopic topic) js) = None"
proof -
  note k = register_loop_keeps [OF assms(1)]
  from k show "cl_baseURL c1 = TrimRightByte url CHR ''/''" by (simp add: NewClient_def)
  have "cacheKey (SubjectForTopic topic) js \<notin> keys_of pre"
    using assms(2,3) by (auto simp: keys_of_def dest: cacheKey_subject)
  with k show "cl_idByKey c1 (cacheKey (SubjectForTopic topic) js) = None"
    by (auto simp: NewClient_def)
qed

text \<open>A registration that is not answered from the cache is answered by the registry.\<close>

lemma do_request_ok:
  assumes "do_request http h req out = (h', Inr x)"
  obtains resp where "http h req = (h', Inr resp)" "200 \<le> rs_Status resp" "rs_Status resp < 300"
    "out (read_limited 1048576 (rs_Body resp)) = Inr x"
  using assms by (auto simp: do_request_def Let_def split: prod.splits sum.splits if_splits)

lemma Register_asks:
  assumes "Register http c h subject js = (c', h', Inr i)" and "cl_idByKey c (cacheKey subject js) = None"
  obtains resp where
    "http h \<lparr>rq_Method = ''POST'', rq_URL = cl_baseURL c @ ''/subjects/'' @ subject @ ''/versions'',
             rq_Body = RegisterRequest js ''AVRO''\<rparr> = (h', Inr resp)"
    "200 \<le> rs_Status resp" "rs_Status resp < 300"
    "Unmarshal dec_registerResponse 0 (read_limited 1048576 (rs_Body resp)) = Inr i"
proof -
  have "do_request http h \<lparr>rq_Method = ''POST'', rq_URL = cl_baseURL c @ ''/subjects/'' @ subject @ ''/versions'',
      rq_Body = RegisterRequest js ''AVRO''\<rparr> (Unmarshal dec_registerResponse 0) = (h', Inr i)"
    using assms by (auto simp: Register_def Let_def split: prod.splits sum.splits)
  then show thesis by (rule do_request_ok) (rule that)
qed

section \<open>A concrete registry\<close>

text \<open>
  One that gives every topic's subject an id of its own, finds everything compatible, and
  counts the requests.
\<close>

definition subject_http :: "nat transport" where
  \<open>subject_http n req =
     (Suc n, Inr \<lparr>rs_Status = 200, rs_Body =
        (if rq_URL req = ''http://r/subjects/md.trades.v1-value/versions'' then ''{"id":41}''
         else if rq_URL req = ''http://r/subjects/md.book.v1-value/versions'' then ''{"id":42}''
         else ''{"id":0,"is_compatible":true}'')\<rparr>)\<close>

section \<open>Properties\<close>

text \<open>
  C38. When startup succeeds from a fresh client there is an encoder for exactly the
  configured kinds, in whatever order the topics are visited. Each is built from the schema
  of its kind, and the id it frames with is the one the registry itself answered: in the
  state the earlier topics left, the schema was checked and not found incompatible, and the
  POST of that schema to the versions of the topic's subject was answered with a status in
  the 200s and a body that holds this id. Topic names are distinct and hold no zero byte,
  as Kafka's do.
\<close>

theorem RegisterSchemas_complete:
  assumes "RegisterSchemas http parse topics schemasByKind (NewClient url, h, ops) = ((c', h', ops'), Inr encs)"
    and "distinct (map fst topics)" and "distinct (map snd topics)"
    and "\<forall>t \<in> snd ` set topics. CHR 0x00 \<notin> set t"
  shows "dom encs = fst ` set topics \<and>
    (\<forall>pre kind topic post. topics = pre @ (kind, topic) # post \<longrightarrow>
      (\<exists>enc js c1 h1 ops1 encs1 h2 compat h3 resp.
         encs kind = Some enc \<and> map_of schemasByKind kind = Some js
       \<and> NewEncoder parse (SchemaID enc) js = Inr enc
       \<and> RegisterSchemas http parse pre schemasByKind (NewClient url, h, ops) = ((c1, h1, ops1), Inr encs1)
       \<and> CheckCompatibility http c1 h1 (topic @ ''-value'') js = (h2, compat)
       \<and> (compat = Inr True \<or> (\<exists>err. compat = Inl err \<and> errors_is err ErrNotFound))
       \<and> http h2 \<lparr>rq_Method = ''POST'',
                  rq_URL = TrimRightByte url CHR ''/'' @ ''/subjects/'' @ topic @ ''-value/versions'',
                  rq_Body = RegisterRequest js ''AVRO''\<rparr> = (h3, Inr resp)
       \<and> 200 \<le> rs_Status resp \<and> rs_Status resp < 300
       \<and> Unmarshal dec_registerResponse 0 (read_limited 1048576 (rs_Body resp)) = Inr (SchemaID enc)
       \<and> cl_idByKey c' (cacheKey (topic @ ''-value'') js) = Some (SchemaID enc)))"
proof (intro conjI allI impI)
  note loop = assms(1) [unfolded RegisterSchemas_def]
  note l = register_loop_ok [OF loop assms(2)]
  have "dom encs \<subseteq> fst ` set topics" using l by (auto simp: dom_def)
  moreover have "fst ` set topics \<subseteq> dom encs" using l by force
  ultimately show "dom encs = fst ` set topics" by blast
  fix pre kind topic post
  assume ts: "topics = pre @ (kind, topic) # post"
  obtain c1 h1 ops1 encs1 st2 enc where
    pre: "register_loop http parse (map_of schemasByKind) pre Map.empty (NewClient url, h, ops) = ((c1, h1, ops1), Inr encs1)"
    and k: "register_kind http parse (map_of schemasByKind) (kind, topic) (c1, h1, ops1) = (st2, Inr enc)"
    and post: "register_loop http parse (map_of schemasByKind) post (encs1(kind \<mapsto> enc)) st2 = ((c', h', ops'), Inr encs)"
    using register_loop_split [OF loop [unfolded ts]] .
  obtain c2 h4 ops2 where st2: "st2 = (c2, h4, ops2)" by (cases st2)
  obtain js h2 compat where js: "map_of schemasByKind kind = Some js"
    and reg: "Register http c1 h2 (SubjectForTopic topic) js = (c2, h4, Inr (SchemaID enc))"
    and enc: "NewEncoder parse (SchemaID enc) js = Inr enc"
    and cc: "CheckCompatibility http c1 h1 (SubjectForTopic topic) js = (h2, compat)"
      "compat = Inr True \<or> (\<exists>err. compat = Inl err \<and> errors_is err ErrNotFound)"
    using register_kind_ok [OF k [unfolded st2]] by metis
  have "encs kind = Some enc"
    using register_loop_ok [OF post [unfolded st2]] assms(2) ts by simp
  moreover have "topic \<notin> snd ` set pre" "\<forall>t \<in> insert topic (snd ` set pre). CHR 0x00 \<notin> set t"
    using assms(3,4) ts by auto
  note fresh = fresh_key [OF pre this]
  obtain resp where
    "http h2 \<lparr>rq_Method = ''POST'', rq_URL = cl_baseURL c1 @ ''/subjects/'' @ SubjectForTopic topic @ ''/versions'',
             rq_Body = RegisterRequest js ''AVRO''\<rparr> = (h4, Inr resp)"
    "200 \<le> rs_Status resp" "rs_Status resp < 300"
    "Unmarshal dec_registerResponse 0 (read_limited 1048576 (rs_Body resp)) = Inr (SchemaID enc)"
    using Register_asks [OF reg fresh(2)] .
  moreover have "cl_idByKey c' (cacheKey (SubjectForTopic topic) js) = Some (SchemaID enc)"
    using register_loop_monotone [OF post [unfolded st2] Register_cached [OF reg]] .
  ultimately show "\<exists>enc js c1 h1 ops1 encs1 h2 compat h3 resp.
         encs kind = Some enc \<and> map_of schemasByKind kind = Some js
       \<and> NewEncoder parse (SchemaID enc) js = Inr enc
       \<and> RegisterSchemas http parse pre schemasByKind (NewClient url, h, ops) = ((c1, h1, ops1), Inr encs1)
       \<and> CheckCompatibility http c1 h1 (topic @ ''-value'') js = (h2, compat)
       \<and> (compat = Inr True \<or> (\<exists>err. compat = Inl err \<and> errors_is err ErrNotFound))
       \<and> http h2 \<lparr>rq_Method = ''POST'',
                  rq_URL = TrimRightByte url CHR ''/'' @ ''/subjects/'' @ topic @ ''-value/versions'',
                  rq_Body = RegisterRequest js ''AVRO''\<rparr> = (h3, Inr resp)
       \<and> 200 \<le> rs_Status resp \<and> rs_Status resp < 300
       \<and> Unmarshal dec_registerResponse 0 (read_limited 1048576 (rs_Body resp)) = Inr (SchemaID enc)
       \<and> cl_idByKey c' (cacheKey (topic @ ''-value'') js) = Some (SchemaID enc)"
    using js enc pre cc fresh(1) unfolding RegisterSchemas_def SubjectForTopic_def
    by (intro exI conjI) simp_all
qed

text \<open>Two topics whose subjects the registry gives the ids 41 and 42.\<close>

theorem RegisterSchemas_complete_witness:
  "\<exists>c' ops' encs enc h2 h3 resp.
     RegisterSchemas subject_http Inr [(KindTrade, ''md.trades.v1''), (KindBookDelta, ''md.book.v1'')]
       (Current ''t'' ''b'' ''c'') (NewClient ''http://r/'', 0, []) = ((c', 4, ops'), Inr encs)
   \<and> dom encs = {KindTrade, KindBookDelta} \<and> encs KindBookDelta = Some enc \<and> SchemaID enc = 42
   \<and> subject_http h2 \<lparr>rq_Method = ''POST'', rq_URL = ''http://r/subjects/md.book.v1-value/versions'',
        rq_Body = RegisterRequest ''b'' ''AVRO''\<rparr> = (h3, Inr resp)
   \<and> Unmarshal dec_registerResponse 0 (read_limited 1048576 (rs_Body resp)) = Inr (SchemaID enc)"
proof -
  let ?ts = "[(KindTrade, ''md.trades.v1''), (KindBookDelta, ''md.book.v1'')]"
  let ?r = "RegisterSchemas subject_http Inr ?ts (Current ''t'' ''b'' ''c'') (NewClient ''http://r/'', 0, [])"
  have "case ?r of ((c', h', ops'), r) \<Rightarrow> h' = 4 \<and> is_ok r
      \<and> (case r of Inr encs \<Rightarrow> map_option SchemaID (encs KindBookDelta) = Some 42 | _ \<Rightarrow> False)" by code_simp
  moreover obtain c' h' ops' res where rr: "?r = ((c', h', ops'), res)" by (metis surj_pair)
  ultimately have "h' = 4" "is_ok res" "case res of Inr encs \<Rightarrow> map_option SchemaID (encs KindBookDelta) = Some 42 | _ \<Rightarrow> False"
    by simp_all
  with rr obtain encs where r: "?r = ((c', 4, ops'), Inr encs)" "map_option SchemaID (encs KindBookDelta) = Some 42"
    by (cases res) simp_all
  have d: "distinct (map fst ?ts)" "distinct (map snd ?ts)" "\<forall>t \<in> snd ` set ?ts. CHR 0x00 \<notin> set t"
    by code_simp+
  have url: "TrimRightByte ''http://r/'' CHR ''/'' @ ''/subjects/'' @ ''md.book.v1'' @ ''-value/versions'' =
      ''http://r/subjects/md.book.v1-value/versions''" by code_simp
  have js: "map_of (Current ''t'' ''b'' ''c'') KindBookDelta = Some ''b''" by code_simp
  note c = RegisterSchemas_complete [OF r(1) d]
  have "?ts = [(KindTrade, ''md.trades.v1'')] @ (KindBookDelta, ''md.book.v1'') # []" by simp
  from c [THEN conjunct2, rule_format, OF this] obtain enc h2 h3 resp where
    "encs KindBookDelta = Some enc"
    "subject_http h2 \<lparr>rq_Method = ''POST'', rq_URL = ''http://r/subjects/md.book.v1-value/versions'',
        rq_Body = RegisterRequest ''b'' ''AVRO''\<rparr> = (h3, Inr resp)"
    "Unmarshal dec_registerResponse 0 (read_limited 1048576 (rs_Body resp)) = Inr (SchemaID enc)"
    unfolding url js by blast
  moreover have "dom encs = {KindTrade, KindBookDelta}" using c [THEN conjunct1] by simp
  ultimately show ?thesis using r by auto
qed

text \<open>
  A schema the registry calls incompatible is never registered:
  startup stops at that topic with an error that names the subject, after the
  compatibility check and before any registration of it.
\<close>

theorem incompatible_schema_stops_startup:
  assumes "RegisterSchemas http parse pre schemasByKind st = ((c, h, ops), Inr encs)"
    and "map_of schemasByKind kind = Some js"
    and "CheckCompatibility http c h (SubjectForTopic topic) js = (h1, Inr False)"
  shows "RegisterSchemas http parse (pre @ (kind, topic) # rest) schemasByKind st =
           ((c, h1, ops), Inl (errIncompatible (SubjectForTopic topic)))"
  using assms by (simp add: RegisterSchemas_def register_loop_append register_kind_def)

text \<open>
  Outside dry-run mode the writer waits for all in-sync replicas and
  for the acknowledgement, partitions by the hash of the key, names no topic of its own and
  creates none, whatever the configuration says.
\<close>

theorem kafka_producer_durable:
  assumes "buildProducer cfg = Kafka w"
  shows "\<not> c_DryRun cfg \<and> kw_RequiredAcks w = RequireAll \<and> \<not> kw_Async w \<and> kw_Balancer w = Hash
       \<and> kw_Topic w = '''' \<and> \<not> kw_AllowAutoTopicCreation w \<and> kw_Addr w = c_KafkaBrokers cfg"
  using assms
  by (auto simp: buildProducer_def NewKafkaProducer_def DefaultConfig_def split: if_splits)

end
