(* ===== verification/Ingestd.thy ===== *)
theory Ingestd
  imports Coinbase Kraken Binance Evm Startup
begin

text \<open>
  The whole service, \<open>cmd/ingestd/main.go\<close>: the decoders it builds, the pipeline it
  configures, and the goroutines it starts, as a step relation. One goroutine per source
  connects, decodes frames and sends the events on the fan-in channel, which is bounded;
  the pipeline goroutine receives them. The detector is shared: \<open>OnConnect\<close> resets it
  from the source's goroutine while the pipeline uses it.

  Each step is what one goroutine does between two points where others can interleave, so
  \<open>reachable\<close> covers every schedule.
\<close>

section \<open>Decoders\<close>

datatype AnyDecoder = DCoinbase Coinbase | DKraken Kraken | DBinance Binance | DEVM EVM

fun any_Name :: "AnyDecoder \<Rightarrow> string" where
  "any_Name (DCoinbase c) = Coinbase_Name c"
| "any_Name (DKraken k) = Kraken_Name k"
| "any_Name (DBinance b) = Binance_Name b"
| "any_Name (DEVM e) = EVM_Name e"

fun any_Decode :: "AnyDecoder \<Rightarrow> string \<Rightarrow> gotime \<Rightarrow> AnyDecoder \<times> Event list result" where
  "any_Decode (DCoinbase c) raw now = map_prod DCoinbase id (Coinbase_Decode c raw now)"
| "any_Decode (DKraken k) raw now = map_prod DKraken id (Kraken_Decode k raw now)"
| "any_Decode (DBinance b) raw now = map_prod DBinance id (Binance_Decode b raw now)"
| "any_Decode (DEVM e) raw now = map_prod DEVM id (EVM_Decode e raw now)"

text \<open>What a decoder remembers of the symbols it is asked to subscribe to.\<close>

fun any_subscribe :: "AnyDecoder \<Rightarrow> string list \<Rightarrow> AnyDecoder" where
  "any_subscribe (DCoinbase c) syms = DCoinbase (fst (Coinbase_Subscriptions c syms))"
| "any_subscribe (DKraken k) syms = DKraken (fst (Kraken_Subscriptions k syms))"
| "any_subscribe (DBinance b) syms = DBinance (Binance_Subscriptions b syms)"
| "any_subscribe (DEVM e) syms = DEVM e"

fun any_reset :: "AnyDecoder \<Rightarrow> AnyDecoder" where
  "any_reset (DBinance b) = DBinance (ResetBooks b)"
| "any_reset d = d"

lemma any_Name_frame [simp]:
  "any_Name (any_subscribe d syms) = any_Name d" "any_Name (any_reset d) = any_Name d"
  by (cases d; simp add: Coinbase_Name_def Kraken_Name_def Binance_Name_def)+

interpretation any: venue_decoder any_Decode any_Name
proof
  fix s raw now s' evs e
  assume d: "any_Decode s raw now = (s', Inr evs)" and e: "e \<in> set evs"
  show "event_wf e"
    using d e coinbase.decode_wf kraken.decode_wf binance.decode_wf evm.decode_wf
    by (cases s) (fastforce simp: map_prod_def split: prod.splits)+
  show "Event_Venue e = any_Name s"
    using d e coinbase.decode_venue kraken.decode_venue binance.decode_venue evm.decode_venue
    by (cases s) (fastforce simp: map_prod_def split: prod.splits)+
next
  fix s raw now s' r
  assume "any_Decode s raw now = (s', r)"
  then show "any_Name s' = any_Name s"
    using coinbase.decode_keeps_venue kraken.decode_keeps_venue binance.decode_keeps_venue
      evm.decode_keeps_venue
    by (cases s) (fastforce simp: map_prod_def split: prod.splits)+
qed

section \<open>buildDecoders\<close>

text \<open>
  The decoders in order, and for a venue with state the position of the decoder whose
  \<open>ResetBooks\<close> its hook calls.
\<close>

definition venue_decoder_for :: "Config \<Rightarrow> string \<Rightarrow> AnyDecoder option" where
  "venue_decoder_for cfg v =
     (if v = ''coinbase'' then Some (DCoinbase (NewCoinbase (c_Symbols cfg)))
      else if v = ''kraken'' then Some (DKraken (NewKraken (c_Symbols cfg) (c_KrakenDepth cfg)))
      else if v = ''binance'' then Some (DBinance (NewBinance (c_Symbols cfg) (c_BinanceDepthMS cfg)))
      else None)"

fun build_loop ::
  "Config \<Rightarrow> string list \<Rightarrow> AnyDecoder list \<Rightarrow> (string \<rightharpoonup> nat) \<Rightarrow> AnyDecoder list \<times> (string \<rightharpoonup> nat)"
where
  "build_loop cfg [] ds hooks = (ds, hooks)"
| "build_loop cfg (v # vs) ds hooks =
     (case venue_decoder_for cfg v of
        None \<Rightarrow> build_loop cfg vs ds hooks
      | Some (DBinance b) \<Rightarrow>
          build_loop cfg vs (ds @ [DBinance b]) (hooks(Binance_Name b \<mapsto> length ds))
      | Some d \<Rightarrow> build_loop cfg vs (ds @ [d]) hooks)"

definition buildDecoders :: "Config \<Rightarrow> AnyDecoder list \<times> (string \<rightharpoonup> nat)" where
  "buildDecoders cfg =
     (let (ds, hooks) = build_loop cfg (c_Venues cfg) [] Map.empty
      in (if c_OnchainEnabled cfg
          then ds @ [DEVM (NewEVM (c_OnchainChain cfg) (c_OnchainWSURL cfg) None [])] else ds, hooks))"

section \<open>The pipeline of the service\<close>

definition main_topics :: "Config \<Rightarrow> Kind \<rightharpoonup> string" where
  "main_topics cfg =
     [KindTrade \<mapsto> c_TopicTrades cfg, KindBookDelta \<mapsto> c_TopicBook cfg,
      KindChainTransfer \<mapsto> c_TopicChain cfg]"

definition main_pipeline :: "Config \<Rightarrow> (Kind \<rightharpoonup> 's Encoder) \<Rightarrow> 's PipelineConfig" where
  "main_pipeline cfg encoders =
     \<lparr>p_Encoders = encoders, p_Topics = main_topics cfg, p_BatchSize = c_BatchSize cfg,
      p_FlushInterval = c_FlushInterval cfg,
      p_OnResync = Some (\<lambda>v key detector. Reset detector key), p_DropOnGap = False,
      p_MaxPendingEvents = 0,
      p_ConnectionScopedVenues = [VenueCoinbase \<mapsto> True, c_OnchainChain cfg \<mapsto> True]\<rparr>"

section \<open>The running system\<close>

text \<open>
  A source has its decoder and the events of its current frame that it has not sent yet;
  it reads the next frame only when they are sent. The metrics the sources set are kept
  with the pipeline's.
\<close>

record Source =
  src_decoder :: AnyDecoder
  src_connected :: bool
  src_outbox :: "Event list"

record 'p System =
  sys_sources :: "Source list"
  sys_queue :: "Event list"
  sys_pipe :: "'p PipeState"

text \<open>\<open>OnConnect\<close>, after the source has subscribed.\<close>

definition reset_source :: "(string \<rightharpoonup> nat) \<Rightarrow> string \<Rightarrow> Source list \<Rightarrow> Source list" where
  "reset_source hooks name srcs =
     (case hooks name of
        Some j \<Rightarrow> if j < length srcs
          then srcs[j := (srcs ! j)\<lparr>src_decoder := any_reset (src_decoder (srcs ! j))\<rparr>] else srcs
      | None \<Rightarrow> srcs)"

definition on_connect :: "(string \<rightharpoonup> nat) \<Rightarrow> string \<Rightarrow> 'p System \<Rightarrow> 'p System" where
  "on_connect hooks name s =
     s\<lparr>sys_pipe := (sys_pipe s)\<lparr>ps_detector := ResetVenue (ps_detector (sys_pipe s)) name,
         ps_metrics := ps_metrics (sys_pipe s) @ [SetGauge ConnectionUp [name] 1]\<rparr>,
       sys_sources := reset_source hooks name (sys_sources s)\<rparr>"

definition connect :: "Config \<Rightarrow> (string \<rightharpoonup> nat) \<Rightarrow> nat \<Rightarrow> 'p System \<Rightarrow> 'p System" where
  "connect cfg hooks i s =
     (let src = sys_sources s ! i; d = any_subscribe (src_decoder src) (c_Symbols cfg)
      in on_connect hooks (any_Name d)
           (s\<lparr>sys_sources := (sys_sources s)[i := src\<lparr>src_decoder := d, src_connected := True\<rparr>]\<rparr>))"

definition disconnect :: "nat \<Rightarrow> 'p System \<Rightarrow> 'p System" where
  "disconnect i s = s\<lparr>sys_sources := (sys_sources s)[i := (sys_sources s ! i)\<lparr>src_connected := False\<rparr>]\<rparr>"

definition read_frame :: "nat \<Rightarrow> string \<Rightarrow> gotime \<Rightarrow> 'p System \<Rightarrow> 'p System" where
  "read_frame i raw now s =
     (let src = sys_sources s ! i; (d, r) = any_Decode (src_decoder src) raw now
      in s\<lparr>sys_sources := (sys_sources s)[i :=
             src\<lparr>src_decoder := d, src_outbox := (case r of Inl _ \<Rightarrow> [] | Inr evs \<Rightarrow> evs)\<rparr>]\<rparr>)"

definition send_event :: "nat \<Rightarrow> 'p System \<Rightarrow> 'p System" where
  "send_event i s =
     (let src = sys_sources s ! i
      in s\<lparr>sys_queue := sys_queue s @ [hd (src_outbox src)],
           sys_sources := (sys_sources s)[i := src\<lparr>src_outbox := tl (src_outbox src)\<rparr>]\<rparr>)"

definition initial :: "Config \<Rightarrow> 'p \<Rightarrow> 'p System" where
  "initial cfg prd =
     \<lparr>sys_sources = map (\<lambda>d. \<lparr>src_decoder = d, src_connected = False, src_outbox = []\<rparr>) (fst (buildDecoders cfg)),
      sys_queue = [], sys_pipe = Pipeline_init (Some New) prd\<rparr>"

inductive step ::
  "('s \<Rightarrow> payload \<Rightarrow> bytes result) \<Rightarrow> (Event \<Rightarrow> (string \<times> string) list) \<Rightarrow>
   ('p \<Rightarrow> Message list \<Rightarrow> 'p \<times> goerror option) \<Rightarrow> Config \<Rightarrow> (Kind \<rightharpoonup> 's Encoder) \<Rightarrow>
   'p System \<Rightarrow> 'p System \<Rightarrow> bool"
  for marshal inject publish cfg encoders
where
  Connect: "i < length (sys_sources s) \<Longrightarrow> \<not> src_connected (sys_sources s ! i) \<Longrightarrow>
    step marshal inject publish cfg encoders s (connect cfg (snd (buildDecoders cfg)) i s)"
| Disconnect: "i < length (sys_sources s) \<Longrightarrow> src_connected (sys_sources s ! i) \<Longrightarrow>
    src_outbox (sys_sources s ! i) = [] \<Longrightarrow>
    step marshal inject publish cfg encoders s (disconnect i s)"
| Frame: "i < length (sys_sources s) \<Longrightarrow> src_connected (sys_sources s ! i) \<Longrightarrow>
    src_outbox (sys_sources s ! i) = [] \<Longrightarrow>
    step marshal inject publish cfg encoders s (read_frame i raw now s)"
| Send: "i < length (sys_sources s) \<Longrightarrow> src_outbox (sys_sources s ! i) \<noteq> [] \<Longrightarrow>
    int (length (sys_queue s)) < c_BufferSize cfg \<Longrightarrow>
    step marshal inject publish cfg encoders s (send_event i s)"
| Receive: "sys_queue s = ev # q \<Longrightarrow>
    receive marshal inject publish (with_defaults (main_pipeline cfg encoders)) (sys_pipe s) ev = Some pipe \<Longrightarrow>
    step marshal inject publish cfg encoders s (s\<lparr>sys_queue := q, sys_pipe := pipe\<rparr>)"
| Tick: "step marshal inject publish cfg encoders s
    (s\<lparr>sys_pipe := flush publish (with_defaults (main_pipeline cfg encoders)) (sys_pipe s)\<rparr>)"

inductive reachable ::
  "('s \<Rightarrow> payload \<Rightarrow> bytes result) \<Rightarrow> (Event \<Rightarrow> (string \<times> string) list) \<Rightarrow>
   ('p \<Rightarrow> Message list \<Rightarrow> 'p \<times> goerror option) \<Rightarrow> Config \<Rightarrow> (Kind \<rightharpoonup> 's Encoder) \<Rightarrow>
   'p \<Rightarrow> 'p System \<Rightarrow> bool"
  for marshal inject publish cfg encoders prd
where
  start: "reachable marshal inject publish cfg encoders prd (initial cfg prd)"
| more: "reachable marshal inject publish cfg encoders prd s \<Longrightarrow>
    step marshal inject publish cfg encoders s s' \<Longrightarrow>
    reachable marshal inject publish cfg encoders prd s'"

inductive_cases stepE: "step marshal inject publish cfg encoders s s'"

section \<open>Invariants of the system\<close>

definition source_ok :: "Source \<Rightarrow> bool" where
  "source_ok src \<longleftrightarrow>
     list_all (\<lambda>e. event_wf e \<and> Event_Venue e = any_Name (src_decoder src)) (src_outbox src)"

definition system_ok :: "Config \<Rightarrow> 's PipelineConfig \<Rightarrow> 'p System \<Rightarrow> bool" where
  "system_ok cfg p s \<longleftrightarrow>
     list_all source_ok (sys_sources s) \<and>
     map (any_Name \<circ> src_decoder) (sys_sources s) = map any_Name (fst (buildDecoders cfg)) \<and>
     list_all (\<lambda>e. event_wf e \<and> Event_Venue e \<in> any_Name ` set (fst (buildDecoders cfg))) (sys_queue s) \<and>
     int (length (sys_queue s)) \<le> max 0 (c_BufferSize cfg) \<and>
     conserved p (sys_pipe s) \<and> batch_bounded p (sys_pipe s)"

lemma source_ok_update:
  "list_all source_ok srcs \<Longrightarrow> source_ok src \<Longrightarrow> list_all source_ok (srcs[i := src])"
  by (auto simp: list_all_iff dest!: set_update_subset_insert [THEN subsetD])

lemma names_update:
  "any_Name (src_decoder src) = any_Name (src_decoder (srcs ! i)) \<Longrightarrow> i < length srcs \<Longrightarrow>
     map (any_Name \<circ> src_decoder) (srcs[i := src]) = map (any_Name \<circ> src_decoder) srcs"
  by (simp add: map_update list_update_same_conv)

lemma source_ok_nth: "list_all source_ok srcs \<Longrightarrow> i < length srcs \<Longrightarrow> source_ok (srcs ! i)"
  by (simp add: list_all_length)

lemma reset_source_ok:
  assumes "list_all source_ok srcs"
  shows "list_all source_ok (reset_source hooks name srcs)"
    and "map (any_Name \<circ> src_decoder) (reset_source hooks name srcs) = map (any_Name \<circ> src_decoder) srcs"
proof -
  have "source_ok ((srcs ! j)\<lparr>src_decoder := any_reset (src_decoder (srcs ! j))\<rparr>)" if "j < length srcs" for j
    using source_ok_nth [OF assms that] by (simp add: source_ok_def)
  then show "list_all source_ok (reset_source hooks name srcs)"
    using assms by (auto simp: reset_source_def split: option.splits intro: source_ok_update)
  show "map (any_Name \<circ> src_decoder) (reset_source hooks name srcs) = map (any_Name \<circ> src_decoder) srcs"
    by (auto simp: reset_source_def names_update split: option.splits)
qed

lemma source_name:
  "map (any_Name \<circ> src_decoder) srcs = map any_Name ds \<Longrightarrow> i < length srcs \<Longrightarrow>
     any_Name (src_decoder (srcs ! i)) \<in> any_Name ` set ds"
  by (metis comp_apply image_eqI length_map nth_map nth_mem)

lemma read_frame_ok:
  assumes "list_all source_ok (sys_sources s)" and "i < length (sys_sources s)"
  shows "list_all source_ok (sys_sources (read_frame i raw now s))"
    and "map (any_Name \<circ> src_decoder) (sys_sources (read_frame i raw now s)) =
         map (any_Name \<circ> src_decoder) (sys_sources s)"
proof -
  obtain d r where d: "any_Decode (src_decoder (sys_sources s ! i)) raw now = (d, r)" by fastforce
  have name: "any_Name d = any_Name (src_decoder (sys_sources s ! i))"
    using any.decode_keeps_venue [OF d] .
  have "source_ok ((sys_sources s ! i)\<lparr>src_decoder := d,
      src_outbox := (case r of Inl _ \<Rightarrow> [] | Inr evs \<Rightarrow> evs)\<rparr>)"
    using d any.decode_wf any.decode_venue name
    by (auto simp: source_ok_def list_all_iff split: sum.splits)
  then show "list_all source_ok (sys_sources (read_frame i raw now s))"
    using assms d by (simp add: read_frame_def Let_def source_ok_update)
  show "map (any_Name \<circ> src_decoder) (sys_sources (read_frame i raw now s)) =
         map (any_Name \<circ> src_decoder) (sys_sources s)"
    using assms(2) d name by (simp add: read_frame_def Let_def names_update)
qed

lemma pipe_ok_other:
  "conserved p (s\<lparr>ps_detector := d, ps_metrics := m\<rparr>) = conserved p s"
  "batch_bounded p (s\<lparr>ps_detector := d, ps_metrics := m\<rparr>) = batch_bounded p s"
  by (simp_all add: conserved_def batch_bounded_def)

lemma connect_ok:
  assumes "list_all source_ok (sys_sources s)" and "i < length (sys_sources s)"
  shows "list_all source_ok (sys_sources (connect cfg hooks i s))"
    and "map (any_Name \<circ> src_decoder) (sys_sources (connect cfg hooks i s)) =
         map (any_Name \<circ> src_decoder) (sys_sources s)"
proof -
  let ?src = "sys_sources s ! i"
  let ?new = "?src\<lparr>src_decoder := any_subscribe (src_decoder ?src) (c_Symbols cfg), src_connected := True\<rparr>"
  have "source_ok ?new" using source_ok_nth [OF assms] by (simp add: source_ok_def)
  then have upd: "list_all source_ok ((sys_sources s)[i := ?new])"
    using assms(1) by (simp add: source_ok_update)
  show "list_all source_ok (sys_sources (connect cfg hooks i s))"
    using reset_source_ok(1) [OF upd] by (simp add: connect_def on_connect_def Let_def)
  show "map (any_Name \<circ> src_decoder) (sys_sources (connect cfg hooks i s)) =
         map (any_Name \<circ> src_decoder) (sys_sources s)"
    using reset_source_ok(2) [OF upd] names_update [of ?new "sys_sources s" i] assms(2)
    by (simp add: connect_def on_connect_def Let_def)
qed

lemma connect_other [simp]:
  "sys_queue (connect cfg hooks i s) = sys_queue s"
  "conserved p (sys_pipe (connect cfg hooks i s)) = conserved p (sys_pipe s)"
  "batch_bounded p (sys_pipe (connect cfg hooks i s)) = batch_bounded p (sys_pipe s)"
  by (simp_all add: connect_def on_connect_def Let_def pipe_ok_other)

lemma send_event_ok:
  assumes "list_all source_ok (sys_sources s)" and "i < length (sys_sources s)"
    and "src_outbox (sys_sources s ! i) \<noteq> []"
  shows "list_all source_ok (sys_sources (send_event i s))"
    and "map (any_Name \<circ> src_decoder) (sys_sources (send_event i s)) =
         map (any_Name \<circ> src_decoder) (sys_sources s)"
    and "\<exists>e. sys_queue (send_event i s) = sys_queue s @ [e] \<and> event_wf e \<and>
           Event_Venue e = any_Name (src_decoder (sys_sources s ! i))"
proof -
  let ?src = "sys_sources s ! i"
  obtain e es where e: "src_outbox ?src = e # es" using assms(3) by (cases "src_outbox ?src") auto
  have src: "source_ok ?src" using source_ok_nth [OF assms(1,2)] .
  then have "source_ok (?src\<lparr>src_outbox := es\<rparr>)" using e by (simp add: source_ok_def)
  then show "list_all source_ok (sys_sources (send_event i s))"
    using assms(1) e by (simp add: send_event_def Let_def source_ok_update)
  show "map (any_Name \<circ> src_decoder) (sys_sources (send_event i s)) =
         map (any_Name \<circ> src_decoder) (sys_sources s)"
    using assms(2) by (simp add: send_event_def Let_def names_update)
  show "\<exists>e. sys_queue (send_event i s) = sys_queue s @ [e] \<and> event_wf e \<and>
           Event_Venue e = any_Name (src_decoder (sys_sources s ! i))"
    using src e by (auto simp: send_event_def Let_def source_ok_def)
qed

lemma disconnect_ok:
  assumes "list_all source_ok (sys_sources s)" and "i < length (sys_sources s)"
  shows "list_all source_ok (sys_sources (disconnect i s))"
    and "map (any_Name \<circ> src_decoder) (sys_sources (disconnect i s)) =
         map (any_Name \<circ> src_decoder) (sys_sources s)"
  using assms source_ok_nth [OF assms]
  by (auto simp: disconnect_def source_ok_def names_update intro!: source_ok_update)

lemma step_keeps_ok:
  assumes "step marshal inject publish cfg encoders s s'"
    and "system_ok cfg (with_defaults (main_pipeline cfg encoders)) s"
  shows "system_ok cfg (with_defaults (main_pipeline cfg encoders)) s'"
  using assms(1)
proof cases
  case (Connect i)
  with assms(2) show ?thesis
    using connect_ok [of s i] unfolding system_ok_def by simp
next
  case (Disconnect i)
  with assms(2) show ?thesis
    using disconnect_ok [of s i] unfolding system_ok_def by (simp add: disconnect_def)
next
  case (Frame i raw now)
  with assms(2) show ?thesis
    using read_frame_ok [of s i raw now] unfolding system_ok_def
    by (simp add: read_frame_def split_beta Let_def)
next
  case (Send i)
  from assms(2) have srcs: "list_all source_ok (sys_sources s)"
    and names: "map (any_Name \<circ> src_decoder) (sys_sources s) = map any_Name (fst (buildDecoders cfg))"
    by (auto simp: system_ok_def)
  from send_event_ok [OF srcs Send(2,3)] source_name [OF names Send(2)] assms(2) Send
  show ?thesis unfolding system_ok_def by (auto simp: send_event_def Let_def)
next
  case (Receive ev q pipe)
  with assms(2) show ?thesis
    unfolding system_ok_def
    by (auto intro: conserved_receive [OF with_defaults_nonneg] batch_bounded_receive [OF with_defaults_nonneg])
next
  case Tick
  with assms(2) show ?thesis
    unfolding system_ok_def
    by (auto intro: conserved_flush [OF with_defaults_nonneg] batch_bounded_flush)
qed

lemma reachable_ok:
  assumes "reachable marshal inject publish cfg encoders prd s"
  shows "system_ok cfg (with_defaults (main_pipeline cfg encoders)) s"
  using assms
proof induction
  case start
  show ?case
    by (simp add: system_ok_def initial_def source_ok_def list_all_iff comp_def conserved_def refused_def
        Pipeline_init_def Stats_zero_def batch_bounded_def max_def less_imp_le)
next
  case (more s s')
  then show ?case by (blast intro: step_keeps_ok)
qed

text \<open>
  The metric calls of the pipeline and of \<open>OnConnect\<close>, for any producer; and whatever every
  publish keeps of the producer's state, its own log for instance, every schedule keeps.
\<close>

lemma reachable_metrics_typed:
  "reachable marshal inject publish cfg encoders prd s \<Longrightarrow> list_all op_typed (ps_metrics (sys_pipe s))"
proof (induction rule: reachable.induct)
  case start
  show ?case by (simp add: initial_def Pipeline_init_def)
next
  case (more s s')
  from more.hyps(2) show ?case
  proof cases
    case (Receive ev q pipe)
    with more.IH show ?thesis by (auto intro: typed_receive)
  qed (use more.IH in \<open>auto simp: connect_def on_connect_def disconnect_def read_frame_def send_event_def
        Let_def split_beta intro: typed_flush\<close>)
qed

lemma reachable_producer:
  assumes "\<And>q ms. I q \<Longrightarrow> I (fst (publish q ms))" and "I prd"
    and "reachable marshal inject publish cfg encoders prd s"
  shows "I (ps_producer (sys_pipe s))"
  using assms(3)
proof (induction rule: reachable.induct)
  case start
  show ?case using assms(2) by (simp add: initial_def Pipeline_init_def)
next
  case (more s s')
  from more.hyps(2) show ?case
  proof cases
    case (Receive ev q pipe)
    with more.IH assms(1) show ?thesis by (auto intro: producer_receive)
  qed (use more.IH assms(1) in \<open>auto simp: connect_def on_connect_def disconnect_def read_frame_def send_event_def
        Let_def split_beta intro: producer_flush\<close>)
qed

section \<open>Properties\<close>

text \<open>
  C4. In every reachable state of the service, under every schedule, every input and
  every broker: the pipeline can take the next event without panicking, every queued event
  is well formed and comes from a configured source, the fan-in channel and the batch are
  bounded, and the books of the pipeline balance.
\<close>

theorem system_safe:
  assumes "reachable marshal inject publish cfg encoders prd s"
  shows "(\<forall>ev q. sys_queue s = ev # q \<longrightarrow>
            receive marshal inject publish (with_defaults (main_pipeline cfg encoders)) (sys_pipe s) ev \<noteq> None)
       \<and> (\<forall>ev \<in> set (sys_queue s). event_wf ev \<and>
            Event_Venue ev \<in> any_Name ` set (fst (buildDecoders cfg)))
       \<and> int (length (sys_queue s)) \<le> max 0 (c_BufferSize cfg)
       \<and> int (length (ps_batch (sys_pipe s))) \<le> max (p_BatchSize (with_defaults (main_pipeline cfg encoders)) - 1) 100000
       \<and> conserved (with_defaults (main_pipeline cfg encoders)) (sys_pipe s)"
proof -
  have "p_MaxPendingEvents (with_defaults (main_pipeline cfg encoders)) = 100000"
    by (simp add: with_defaults_def main_pipeline_def)
  with reachable_ok [OF assms] show ?thesis
    unfolding system_ok_def batch_bounded_def
    by (auto simp: list_all_iff receive_wf simp del: not_None_eq)
qed

theorem system_safe_witness:
  "\<exists>s. reachable example_marshal (\<lambda>_. []) Memory_Publish Defaults Map.empty NewMemoryProducer s
     \<and> src_connected (sys_sources s ! 0)
     \<and> conserved (with_defaults (main_pipeline Defaults (Map.empty :: Kind \<rightharpoonup> string Encoder))) (sys_pipe s)"
proof -
  let ?e = "Map.empty :: Kind \<rightharpoonup> string Encoder"
  let ?s = "connect Defaults (snd (buildDecoders Defaults)) 0 (initial Defaults NewMemoryProducer)"
  have "0 < length (sys_sources (initial Defaults NewMemoryProducer))"
    and "\<not> src_connected (sys_sources (initial Defaults NewMemoryProducer) ! 0)" by code_simp+
  then have r: "reachable example_marshal (\<lambda>_. []) Memory_Publish Defaults ?e NewMemoryProducer ?s"
    by (intro reachable.more [OF reachable.start] step.Connect)
  have "src_connected (sys_sources ?s ! 0)" by code_simp
  with r system_safe [OF r] show ?thesis by blast
qed

text \<open>
  C13. Resetting the detector on reconnect does not reach the events of the old session
  that still wait in the fan-in channel. When one of them is checked after the reset it
  becomes the new baseline, and the new session's lower sequence numbers, up to the
  regression tolerance below it, are dropped as duplicates.
\<close>

theorem stale_event_drops_new_session:
  assumes "detector_wf d" and "sequenceKey p old = sequenceKey p new" and "Event_Venue old = v"
    and "0 \<le> Event_Sequence new" and "Event_Sequence new \<le> Event_Sequence old"
    and "Event_Sequence old < max_int64"
    and "Event_Sequence old - Event_Sequence new \<le> regressionTolerance d"
  shows "let (drop1, st1, d1, _) = checkSequence p old st (ResetVenue d v);
             (drop2, st2, d2, _) = checkSequence p new st1 d1
         in \<not> drop1 \<and> drop2 \<and> st_Duplicates st2 = st_Duplicates st + 1 \<and> d2 = d1"
proof -
  let ?k = "sequenceKey p old" and ?d = "ResetVenue d v" and ?s = "Event_Sequence old"
  let ?d1 = "?d\<lparr>last_seq := (last_seq ?d)(?k \<mapsto> ?s)\<rparr>"
  have "Key_Venue ?k = v" using assms(3) by (simp add: sequenceKey_def)
  then have "last_seq ?d ?k = None" by (simp add: ResetVenue_def)
  then have first: "checkSequence p old st ?d = (False, st, ?d1, [])"
    using assms(4,5) by (simp add: checkSequence_def Observe_def)
  have "detector_wf ?d1"
    using detector_wf_ResetVenue [OF assms(1), of v] assms(4-6) by (simp add: detector_wf_def)
  moreover have "last_seq ?d1 (sequenceKey p new) = Some ?s" using assms(2) by simp
  ultimately have "Result_Status (fst (observed p new ?d1)) = StatusDuplicate \<and> snd (observed p new ?d1) = ?d1"
    using assms(4-7) by (intro Observe_duplicate) (auto simp: ResetVenue_def)
  with first show ?thesis by (simp add: checkSequence_def split_beta)
qed

theorem stale_event_drops_new_session_witness:
  "let (drop1, st1, d1, _) = checkSequence example_config (example_event 500) Stats_zero (ResetVenue example_detector ''kraken'');
       (drop2, st2, d2, _) = checkSequence example_config (example_event 3) st1 d1
   in \<not> drop1 \<and> drop2 \<and> st_Duplicates st2 = st_Duplicates Stats_zero + 1 \<and> d2 = d1"
  by (rule stale_event_drops_new_session) (simp_all add: example_event_def sequenceKey_def)

text \<open>
  C14. The resync callback forgets the baseline the detector has just adopted: after a
  gap the next event of the stream passes whatever its sequence number is. A second loss
  right after the first goes unreported, and a retransmit of the event that showed the gap
  is published twice.
\<close>

theorem resync_forgets_baseline:
  assumes "NeedsResync (fst (observed (main_pipeline cfg encs) ev d))"
    and "sequenceKey (main_pipeline cfg encs) ev2 = sequenceKey (main_pipeline cfg encs) ev"
  shows "let (drop1, st1, d1, _) = checkSequence (main_pipeline cfg encs) ev st d;
             (drop2, st2, d2, ops2) = checkSequence (main_pipeline cfg encs) ev2 st1 d1
         in \<not> drop1 \<and> \<not> drop2 \<and> st2 = st1 \<and> ops2 = []"
proof -
  let ?p = "main_pipeline cfg encs" and ?d = "Reset (snd (observed (main_pipeline cfg encs) ev d))
    (sequenceKey (main_pipeline cfg encs) ev)"
  obtain drp st1 d1 ops where c: "checkSequence ?p ev st d = (drp, st1, d1, ops)"
    by (metis prod_cases4)
  have dup: "Result_Status (fst (observed ?p ev d)) \<noteq> StatusDuplicate"
    using assms(1) by (auto simp: NeedsResync_def)
  have "p_OnResync ?p = Some (\<lambda>v key detector. Reset detector key)" by (simp add: main_pipeline_def)
  then have "d1 = ?d"
    using c assms(1) dup by (auto simp: checkSequence_def NeedsResync_def Let_def split_beta)
  then have none: "last_seq d1 (sequenceKey ?p ev2) = None" by (simp add: assms(2) Reset_def)
  have "\<not> drp" using c checkSequence_drop [of ?p ev st d] dup by (simp add: main_pipeline_def)
  with c none show ?thesis by (simp add: checkSequence_def Observe_def Let_def)
qed

theorem resync_forgets_baseline_witness:
  "let p = main_pipeline Defaults (Map.empty :: Kind \<rightharpoonup> string Encoder);
       (drop1, st1, d1, _) = checkSequence p (example_event 9) Stats_zero example_detector;
       (drop2, st2, d2, ops2) = checkSequence p (example_event 9) st1 d1
   in \<not> drop1 \<and> \<not> drop2 \<and> st2 = st1 \<and> ops2 = []"
proof -
  have "NeedsResync (fst (observed (main_pipeline Defaults (Map.empty :: Kind \<rightharpoonup> string Encoder))
      (example_event 9) example_detector))" by code_simp
  from resync_forgets_baseline [OF this refl, of Stats_zero] show ?thesis by (simp add: Let_def)
qed

text \<open>
  A chain's feed reports a gap whenever blocks go by without a watched
  transfer, although nothing was lost: the decoder sequences a transfer with its block
  number, and the detector counts every block in between as missed.
\<close>

theorem evm_quiet_blocks_reported_missing:
  assumes "detector_wf d" and "last_seq d k = Some (evm_lastBlock e)" and "0 \<le> evm_lastBlock e"
    and "evm_lastBlock e + 1 < blockNum" and "blockNum \<le> max_int64"
    and "evm_event e l now amount blockNum logIdx = (e', ev)"
  shows "Result_Status (fst (Observe d k (Event_Sequence ev))) = StatusGap
       \<and> Result_Missing (fst (Observe d k (Event_Sequence ev))) = blockNum - evm_lastBlock e - 1"
proof -
  have seq: "Event_Sequence ev = blockNum" using evm_event_facts(5) [OF assms(6)] assms(4) by simp
  have "in_int64 blockNum" and "last_seq d k \<noteq> Some max_int64"
    using assms by (auto simp: in_int64_def)
  from Observe_spec(1) [OF assms(1) this] show ?thesis
    using assms(2-4) seq by (simp add: verdict_def)
qed

theorem evm_quiet_blocks_reported_missing_witness:
  "let e = (NewEVM ''ethereum'' '''' None [])\<lparr>evm_lastBlock := 5\<rparr>; ev = snd (evm_event e rawLog_zero 0 1 8 0)
   in Result_Status (fst (Observe example_detector example_key (Event_Sequence ev))) = StatusGap
    \<and> Result_Missing (fst (Observe example_detector example_key (Event_Sequence ev))) = 8 - 5 - 1"
proof -
  let ?e = "(NewEVM ''ethereum'' '''' None [])\<lparr>evm_lastBlock := 5\<rparr>"
  obtain e' ev where "evm_event ?e rawLog_zero 0 1 8 0 = (e', ev)" by fastforce
  with evm_quiet_blocks_reported_missing [of example_detector example_key ?e 8 rawLog_zero 0 1 0 e' ev]
  show ?thesis by simp
qed

text \<open>
  C23. Coinbase counts every frame of the socket, but frames that carry no event
  are not shown to the detector: a heartbeat or an acknowledgement between two data frames
  makes the detector report one missed message on a socket that lost nothing.
\<close>

theorem coinbase_control_frame_phantom_gap:
  assumes "detector_wf d" and "last_seq d k = Some n" and "n + 2 \<le> max_int64"
    and "cbe_Channel control \<in> {''heartbeats'', ''subscriptions''}" and "cbe_Type control \<noteq> ''error''"
    and "cbe_SequenceNum control = n + 1" and "cbe_SequenceNum env = n + 2"
    and "cb_dispatch control now = Inr evs1" and "cb_dispatch env now' = Inr (e # es)"
  shows "\<exists>r rs. fst (observe_run d (map (\<lambda>x. (k, Event_Sequence x)) (evs1 @ e # es))) = r # rs
           \<and> Result_Status r = StatusGap \<and> Result_Missing r = 1"
proof -
  have none: "evs1 = []" using assms(4,5,8) by (auto simp: cb_dispatch_def)
  have seq: "Event_Sequence e = n + 2"
    using cb_dispatch_sequenced [OF assms(9)] assms(7) by (simp add: frame_sequenced_def)
  have "in_int64 (n + 2)" and "last_seq d k \<noteq> Some max_int64"
    using assms detector_wfD [OF assms(1,2)] by (auto simp: in_int64_def)
  from Observe_spec(1) [OF assms(1) this] show ?thesis
    using assms(2) seq none detector_wfD [OF assms(1,2)]
    by (simp add: verdict_def run_with_Cons del: run_with.simps)
qed

theorem coinbase_control_frame_phantom_gap_witness:
  "\<exists>e es r rs. cb_dispatch coinbase_sample_env 0 = Inr (e # es)
     \<and> fst (observe_run example_detector (map (\<lambda>x. (example_key, Event_Sequence x)) ([] @ e # es))) = r # rs
     \<and> Result_Status r = StatusGap \<and> Result_Missing r = 1"
proof -
  let ?c = "coinbaseEnvelope_zero\<lparr>cbe_Channel := ''heartbeats'', cbe_SequenceNum := 6\<rparr>"
  obtain e es where d: "cb_dispatch coinbase_sample_env 0 = Inr (e # es)"
    using coinbase_sample_dispatch by blast
  have "cb_dispatch ?c 0 = Inr []" by (simp add: cb_dispatch_def coinbaseEnvelope_zero_def)
  with d coinbase_control_frame_phantom_gap [of example_detector example_key 5 ?c coinbase_sample_env 0 "[]" 0 e es]
  show ?thesis by (auto simp: coinbaseEnvelope_zero_def coinbase_sample_sequence)
qed

text \<open>
  C40. A configuration that loads always yields at least one source, so the service
  never gets as far as its "no ingestion sources configured" error; and it yields exactly
  one per configured venue, plus the chain when that is enabled.
\<close>

theorem loaded_config_has_sources:
  assumes "Load env = (cfg, None)"
  shows "fst (buildDecoders cfg) \<noteq> []
       \<and> map any_Name (fst (buildDecoders cfg)) =
           c_Venues cfg @ (if c_OnchainEnabled cfg then [c_OnchainChain cfg] else [])"
proof -
  note v = Validate_None [OF Load_validated [OF assms]]
  have "\<forall>x \<in> set vs. x \<in> {''coinbase'', ''kraken'', ''binance''} \<Longrightarrow>
      map any_Name (fst (build_loop cfg vs ds hooks)) = map any_Name ds @ vs" for vs ds hooks
    by (induction vs arbitrary: ds hooks)
       (auto simp: venue_decoder_for_def Coinbase_Name_def Kraken_Name_def Binance_Name_def
         VenueCoinbase_def VenueKraken_def VenueBinance_def)
  from this [OF v(4)] have names: "map any_Name (fst (buildDecoders cfg)) =
      c_Venues cfg @ (if c_OnchainEnabled cfg then [c_OnchainChain cfg] else [])"
    by (simp add: buildDecoders_def split_beta EVM_Name_def NewEVM_def Let_def)
  with v(3) show ?thesis by (auto split: if_splits)
qed

theorem loaded_config_has_sources_witness:
  "fst (buildDecoders Defaults) \<noteq> []
   \<and> map any_Name (fst (buildDecoders Defaults)) =
       c_Venues Defaults @ (if c_OnchainEnabled Defaults then [c_OnchainChain Defaults] else [])"
proof (rule loaded_config_has_sources)
  show "Load Map.empty = (Defaults, None)" by code_simp
qed

end
