(* ===== verification/FloatFacts.thy ===== *)
theory FloatFacts
  imports Complex_Main GoDuration
begin

text \<open>
  Correctness of the rounding in \<open>GoFloat\<close>: the value of a \<open>float64\<close> as a real number, and
  that \<open>round_ratio\<close> yields a canonical value nearest to the ratio it is given. The bounds
  on reconnect delays, on parsed prices and on generated quotes rest on these facts.
\<close>

section \<open>The value of a float64\<close>

fun f_val :: "float64 \<Rightarrow> real" where
  "f_val (FFin s m e) = (if s then - 1 else 1) * of_int m * 2 powi e"
| "f_val _ = 0"

fun f_finite :: "float64 \<Rightarrow> bool" where
  "f_finite (FFin s m e) = True"
| "f_finite _ = False"

lemma powi_pos [simp]: "(0::real) < 2 powi e"
  by (simp add: zero_less_power_int)

lemma powi_less: "a < b \<Longrightarrow> (2::real) powi a < 2 powi b"
  by (rule power_int_strict_increasing) auto

lemma powi_mono: "a \<le> b \<Longrightarrow> (2::real) powi a \<le> 2 powi b"
  by (rule power_int_increasing) auto

lemma powi_add: "(2::real) powi (a + b) = 2 powi a * 2 powi b"
  by (simp add: power_int_add)

lemma powi_diff: "(2::real) powi (a - b) = 2 powi a / 2 powi b"
  by (simp add: power_int_diff)

lemma ipow_powi: "0 \<le> e \<Longrightarrow> real_of_int (ipow 2 e) = 2 powi e"
  by (simp add: ipow_power power_int_def)

section \<open>Rounding\<close>

lemma bit_len_ex:
  "0 < n \<Longrightarrow> \<exists>k. bit_len n = int (Suc k) \<and> 2 ^ k \<le> n \<and> n < 2 ^ Suc k"
proof (induction n rule: bit_len.induct)
  case (1 n)
  have b: "bit_len n = 1 + bit_len (n div 2)"
    using "1.prems" by (subst bit_len.simps) (simp add: drop_bit_eq_div)
  show ?case
  proof (cases "0 < n div 2")
    case True
    with 1 obtain k where "bit_len (n div 2) = int (Suc k)" "2 ^ k \<le> n div 2" "n div 2 < 2 ^ Suc k"
      by (auto simp: drop_bit_eq_div)
    then show ?thesis by (intro exI [of _ "Suc k"]) (simp add: b; linarith)
  next
    case False
    then have "n = 1" using "1.prems" by linarith
    then show ?thesis by (intro exI [of _ 0]) (simp add: b bit_len.simps)
  qed
qed

lemma bit_len_bounds:
  assumes "0 < n"
  shows "2 powi (bit_len n - 1) \<le> real_of_int n" and "real_of_int n < 2 powi bit_len n"
proof -
  obtain k where k: "bit_len n = int (Suc k)" "2 ^ k \<le> n" "n < 2 ^ Suc k"
    using bit_len_ex [OF assms] by blast
  then have lo: "real_of_int (2 ^ k) \<le> real_of_int n" and hi: "real_of_int n < real_of_int (2 ^ Suc k)"
    by linarith+
  have "bit_len n - 1 = int k" by (simp add: k(1))
  then show "2 powi (bit_len n - 1) \<le> real_of_int n"
    using lo by (simp only: power_int_of_nat of_int_power of_int_numeral)
  show "real_of_int n < 2 powi bit_len n"
    using hi unfolding k(1) by (simp only: power_int_of_nat of_int_power of_int_numeral)
qed

lemma scale_ratio:
  assumes "0 < n" and "0 < d" and "scale n d e = (n', d')"
  shows "0 < d' \<and> 0 < n' \<and> real_of_int n' / real_of_int d' = real_of_int n / real_of_int d / 2 powi e"
proof (cases "0 \<le> e")
  case True
  then have "n' = n" "d' = d * ipow 2 e" using assms(3) by (auto simp: scale_def)
  moreover have "0 < ipow 2 e" by (simp add: ipow_power)
  ultimately show ?thesis using assms(1,2) True by (simp add: ipow_powi)
next
  case False
  then have "n' = n * ipow 2 (- e)" "d' = d" using assms(3) by (auto simp: scale_def)
  moreover have "0 < ipow 2 (- e)" by (simp add: ipow_power)
  moreover have "real_of_int (ipow 2 (- e)) = 1 / 2 powi e"
    using False by (subst ipow_powi) (simp_all add: power_int_minus_divide)
  ultimately show ?thesis using assms(1,2) by simp
qed

lemma round_half_even_nearest:
  assumes "0 < d"
  shows "\<bar>real_of_int (round_half_even n d) - real_of_int n / real_of_int d\<bar> \<le> 1 / 2"
proof -
  let ?q = "n div d" and ?r = "n mod d"
  have n: "real_of_int n / real_of_int d = real_of_int ?q + real_of_int ?r / real_of_int d"
  proof -
    have "real_of_int n = real_of_int (?q * d + ?r)" by (simp only: div_mult_mod_eq)
    also have "\<dots> = real_of_int ?q * real_of_int d + real_of_int ?r" by (simp only: of_int_add of_int_mult)
    finally show ?thesis using assms by (simp add: add_divide_distrib)
  qed
  have r: "0 \<le> ?r" "?r < d" using assms by auto
  have "round_half_even n d = ?q + 1 \<and> d \<le> 2 * ?r \<or> round_half_even n d = ?q \<and> 2 * ?r \<le> d"
    by (auto simp: round_half_even_def Let_def)
  then show ?thesis
  proof (elim disjE conjE)
    assume up: "round_half_even n d = ?q + 1" "d \<le> 2 * ?r"
    have "1 / 2 \<le> real_of_int ?r / real_of_int d" "real_of_int ?r / real_of_int d \<le> 1"
      using assms up(2) r by (simp_all add: field_simps flip: of_int_mult)
    then show ?thesis using up(1) n by (simp add: abs_le_iff)
  next
    assume down: "round_half_even n d = ?q" "2 * ?r \<le> d"
    have "0 \<le> real_of_int ?r / real_of_int d" "real_of_int ?r / real_of_int d \<le> 1 / 2"
      using assms down(2) r by (simp_all add: field_simps flip: of_int_mult)
    then show ?thesis using down(1) n by (simp add: abs_le_iff)
  qed
qed

text \<open>
  The exponent \<open>round_ratio\<close> settles on: the scaled ratio has at most 53 bits, and exactly
  53 unless the exponent is the least one.
\<close>

definition round_exp :: "int \<Rightarrow> int \<Rightarrow> int" where
  "round_exp n d =
     (let e1 = max (- 1074) (bit_len n - bit_len d - 53); (n1, d1) = scale n d e1
      in if 9007199254740992 \<le> n1 div d1 then e1 + 1 else e1)"

lemma ratio_bounds:
  assumes "0 < n" and "0 < d"
  shows "2 powi (bit_len n - bit_len d - 1) < real_of_int n / real_of_int d"
    and "real_of_int n / real_of_int d < 2 powi (bit_len n - bit_len d + 1)"
proof -
  note n = bit_len_bounds [OF assms(1)] and d = bit_len_bounds [OF assms(2)]
  have pos: "0 < real_of_int d" "0 < real_of_int n" using assms by simp_all
  have "2 powi (bit_len n - bit_len d - 1) * real_of_int d < 2 powi (bit_len n - bit_len d - 1) * 2 powi bit_len d"
    using d(2) by simp
  also have "\<dots> = 2 powi (bit_len n - 1)" by (simp flip: powi_add)
  finally show "2 powi (bit_len n - bit_len d - 1) < real_of_int n / real_of_int d"
    using n(1) pos by (simp add: pos_less_divide_eq)
  have "2 powi bit_len n = (2::real) powi (bit_len n - bit_len d + 1) * 2 powi (bit_len d - 1)"
    by (simp flip: powi_add)
  also have "\<dots> \<le> 2 powi (bit_len n - bit_len d + 1) * real_of_int d" using d(1) by simp
  finally show "real_of_int n / real_of_int d < 2 powi (bit_len n - bit_len d + 1)"
    using n(2) pos by (simp add: pos_divide_less_eq)
qed

lemma le_div_iff:
  fixes a b c :: int
  assumes "0 < b"
  shows "c \<le> a div b \<longleftrightarrow> c * b \<le> a"
proof
  assume "c \<le> a div b"
  then have "c * b \<le> a div b * b" using assms by (intro mult_right_mono) auto
  also have "\<dots> \<le> a" using assms pos_mod_sign [OF assms, of a] div_mult_mod_eq [of a b] by linarith
  finally show "c * b \<le> a" .
next
  assume "c * b \<le> a"
  from zdiv_mono1 [OF this assms] show "c \<le> a div b" using assms by simp
qed

lemma round_exp_spec:
  assumes "0 < n" and "0 < d"
  defines "x \<equiv> real_of_int n / real_of_int d"
  shows "- 1074 \<le> round_exp n d" and "x / 2 powi round_exp n d < 9007199254740992"
    and "round_exp n d = - 1074 \<or> 4503599627370496 \<le> x / 2 powi round_exp n d"
proof -
  let ?L = "bit_len n - bit_len d"
  let ?e1 = "max (- 1074) (?L - 53)"
  have x: "2 powi (?L - 1) < x" "x < 2 powi (?L + 1)"
    using ratio_bounds [OF assms(1,2)] by (simp_all add: x_def)
  obtain n1 d1 where s: "scale n d ?e1 = (n1, d1)" by fastforce
  note r = scale_ratio [OF assms(1,2) s, folded x_def]
  have q: "9007199254740992 \<le> n1 div d1 \<longleftrightarrow> 9007199254740992 \<le> x / 2 powi ?e1"
  proof -
    have "9007199254740992 \<le> n1 div d1 \<longleftrightarrow> 9007199254740992 * d1 \<le> n1"
      using r by (intro le_div_iff) simp
    also have "\<dots> \<longleftrightarrow> 9007199254740992 * real_of_int d1 \<le> real_of_int n1" by linarith
    also have "\<dots> \<longleftrightarrow> 9007199254740992 \<le> real_of_int n1 / real_of_int d1"
      using r by (intro pos_le_divide_eq [symmetric]) simp
    finally show ?thesis using r by simp
  qed
  have e: "round_exp n d = (if 9007199254740992 \<le> x / 2 powi ?e1 then ?e1 + 1 else ?e1)"
    using s q by (simp add: round_exp_def Let_def)
  show "- 1074 \<le> round_exp n d" unfolding e by auto
  have up: "x / 2 powi ?e1 < 18014398509481984"
  proof -
    have "x < 2 powi (?e1 + 54)" using x(2) powi_mono [of "?L + 1" "?e1 + 54"] by linarith
    then show ?thesis by (simp add: powi_add pos_divide_less_eq)
  qed
  show "x / 2 powi round_exp n d < 9007199254740992"
    using up unfolding e by (auto simp: powi_add)
  show "round_exp n d = - 1074 \<or> 4503599627370496 \<le> x / 2 powi round_exp n d"
  proof (cases "9007199254740992 \<le> x / 2 powi ?e1")
    case True
    then show ?thesis unfolding e by (simp add: powi_add)
  next
    case False
    show ?thesis
    proof (cases "?e1 = - 1074")
      case True
      then show ?thesis using False unfolding e by simp
    next
      case low: False
      then have "?L - 1 = 52 + ?e1" by linarith
      then have "2 powi 52 * 2 powi ?e1 < x" using x(1) by (metis powi_add)
      then show ?thesis using False unfolding e by (simp add: pos_le_divide_eq)
    qed
  qed
qed

text \<open>
  What \<open>round_ratio\<close> returns. A finite result is canonical, and no other canonical value
  is nearer to the ratio; an infinite one means the ratio is beyond the largest finite
  value by half a unit in its last place or more.
\<close>

definition f_max :: real where
  "f_max = 9007199254740991 * 2 powi 971"

lemma round_ratio_unfold:
  "round_ratio neg n d =
     (if 1025 < bit_len n - bit_len d then FInf neg
      else
      let e = round_exp n d; (n2, d2) = scale n d e; m = round_half_even n2 d2;
          (m', e') = (if m = 9007199254740992 then (4503599627370496, e + 1) else (m, e))
      in if 971 < e' then FInf neg else FFin neg m' e')"
  by (simp add: round_ratio_def round_exp_def Let_def split_beta)

lemma round_ratio_cases:
  assumes "0 < n" and "0 < d"
  defines "x \<equiv> real_of_int n / real_of_int d"
  obtains
    (fin) m e where "round_ratio neg n d = FFin neg m e" "float_wf (FFin neg m e)"
      "\<bar>of_int m * 2 powi e - x\<bar> \<le> 2 powi (round_exp n d - 1)"
      "of_int m * 2 powi e = real_of_int (round_half_even (fst (scale n d (round_exp n d)))
         (snd (scale n d (round_exp n d)))) * 2 powi round_exp n d"
  | (inf) "round_ratio neg n d = FInf neg" "f_max + 2 powi 970 \<le> x"
proof -
  let ?e = "round_exp n d"
  obtain n2 d2 where s: "scale n d ?e = (n2, d2)" by fastforce
  let ?m = "round_half_even n2 d2" and ?y = "x / 2 powi ?e"
  note e = round_exp_spec [OF assms(1,2), folded x_def]
  have near: "\<bar>real_of_int ?m - ?y\<bar> \<le> 1 / 2"
    using scale_ratio [OF assms(1,2) s] round_half_even_nearest [of d2 n2] by (simp add: x_def)
  have y0: "0 < ?y" using assms by (simp add: x_def)
  have m0: "0 \<le> ?m" using near y0 by linarith
  have m1: "?m \<le> 9007199254740992" using near e(2) by linarith
  have m2: "?e = - 1074 \<or> 4503599627370496 \<le> ?m" using near e(3) by linarith
  have err: "\<bar>of_int ?m * 2 powi ?e - x\<bar> \<le> 2 powi (?e - 1)"
  proof -
    have "of_int ?m * 2 powi ?e - x = (real_of_int ?m - ?y) * 2 powi ?e"
      by (simp add: left_diff_distrib)
    then have "\<bar>of_int ?m * 2 powi ?e - x\<bar> = \<bar>real_of_int ?m - ?y\<bar> * 2 powi ?e"
      by (simp add: abs_mult)
    also have "\<dots> \<le> 1 / 2 * 2 powi ?e" using near by (intro mult_right_mono) auto
    finally show ?thesis by (simp add: powi_diff)
  qed
  show ?thesis
  proof (cases "1025 < bit_len n - bit_len d")
    case True
    then have "(2::real) powi 1025 \<le> 2 powi (bit_len n - bit_len d - 1)" by (intro powi_mono) auto
    also have "\<dots> < x" using ratio_bounds(1) [OF assms(1,2)] by (simp add: x_def)
    finally have "f_max + 2 powi 970 \<le> x" by (simp add: f_max_def)
    then show ?thesis using True inf by (simp add: round_ratio_def)
  next
    case False
    define m' e' where "m' = (if ?m = 9007199254740992 then 4503599627370496 else ?m)"
      and "e' = (if ?m = 9007199254740992 then ?e + 1 else ?e)"
    have r: "round_ratio neg n d = (if 971 < e' then FInf neg else FFin neg m' e')"
      using False s by (simp add: round_ratio_unfold Let_def m'_def e'_def)
    have v: "real_of_int m' * 2 powi e' = real_of_int ?m * 2 powi ?e"
      by (simp add: m'_def e'_def powi_add)
    show ?thesis
    proof (cases "971 < e'")
      case True
      have "(9007199254740991 + 1 / 2) * 2 powi 971 \<le> x"
      proof (cases "?e = 971")
        case True
        with \<open>971 < e'\<close> have "?m = 9007199254740992" by (auto simp: e'_def split: if_splits)
        then have "9007199254740991 + 1 / 2 \<le> ?y" using near by linarith
        then show ?thesis using True by (simp add: pos_le_divide_eq)
      next
        case False
        with \<open>971 < e'\<close> have big: "972 \<le> ?e" by (auto simp: e'_def split: if_splits)
        then have "4503599627370496 \<le> ?y" using e(3) by auto
        then have "4503599627370496 * 2 powi ?e \<le> x" by (simp add: pos_le_divide_eq)
        moreover have "(2::real) powi 972 \<le> 2 powi ?e" using big by (rule powi_mono)
        ultimately show ?thesis by simp
      qed
      then have "f_max + 2 powi 970 \<le> x" by (simp add: f_max_def)
      then show ?thesis using True r inf by simp
    next
      case False
      have "float_wf (FFin neg m' e')"
        using False m0 m1 m2 e(1) by (auto simp: float_wf_def m'_def e'_def)
      then show ?thesis using False r v err s by (intro fin [of m' e']) auto
    qed
  qed
qed

lemma round_ratio_overflow:
  assumes "0 < n" and "0 < d" and "2 powi 1024 \<le> real_of_int n / real_of_int d"
  shows "round_ratio neg n d = FInf neg"
proof -
  have "real_of_int n / real_of_int d < 9007199254740992 * 2 powi round_exp n d"
    using round_exp_spec(2) [OF assms(1,2)] by (subst (asm) pos_divide_less_eq) simp_all
  with assms(3) have "(2::real) powi 1024 < 2 powi (round_exp n d + 53)" by (simp add: powi_add mult.commute)
  then have "\<not> round_exp n d + 53 \<le> 1024" using powi_mono [of "round_exp n d + 53" 1024] by (meson not_less)
  then have "971 < round_exp n d" by simp
  then show ?thesis by (simp add: round_ratio_unfold Let_def split_beta)
qed

lemma nearest_integer:
  "\<bar>real_of_int a - y\<bar> \<le> 1 / 2 \<Longrightarrow> \<bar>real_of_int a - y\<bar> \<le> \<bar>real_of_int k - y\<bar>"
  by (cases "k = a") linarith+

text \<open>No canonical value is nearer to the ratio than the one chosen.\<close>

lemma round_ratio_nearest:
  assumes "0 < n" and "0 < d" and "round_ratio neg n d = FFin neg m e"
    and wf: "float_wf (FFin s m' e')"
  defines "x \<equiv> real_of_int n / real_of_int d"
  shows "\<bar>of_int m * 2 powi e - x\<bar> \<le> \<bar>of_int m' * 2 powi e' - x\<bar>"
proof -
  let ?E = "round_exp n d"
  obtain n2 d2 where s: "scale n d ?E = (n2, d2)" by fastforce
  let ?M = "round_half_even n2 d2" and ?y = "x / 2 powi ?E"
  have v: "of_int m * 2 powi e = real_of_int ?M * 2 powi ?E"
    using round_ratio_cases [OF assms(1,2), of neg] assms(3) s by force
  have near: "\<bar>real_of_int ?M - ?y\<bar> \<le> 1 / 2"
    using scale_ratio [OF assms(1,2) s] round_half_even_nearest [of d2 n2] by (simp add: x_def)
  have goal: "\<bar>real_of_int ?M - ?y\<bar> \<le> \<bar>of_int m' * 2 powi e' / 2 powi ?E - ?y\<bar>"
  proof (cases "?E \<le> e'")
    case True
    then have "2 powi e' / 2 powi ?E = (2::real) ^ nat (e' - ?E)"
      using powi_diff [of e' ?E] power_int_nonneg_exp [of "e' - ?E" "2::real"] by simp
    then have "of_int m' * 2 powi e' / 2 powi ?E = real_of_int (m' * 2 ^ nat (e' - ?E))"
      by (simp flip: times_divide_eq_right)
    with nearest_integer [OF near, of "m' * 2 ^ nat (e' - ?E)"] show ?thesis by (simp only:)
  next
    case False
    with wf round_exp_spec(3) [OF assms(1,2)] have y: "4503599627370496 \<le> ?y"
      by (auto simp: float_wf_def x_def)
    have "real_of_int m' * 2 powi e' \<le> 9007199254740992 * 2 powi e'"
      using wf by (intro mult_right_mono) (auto simp: float_wf_def)
    also have "\<dots> = 4503599627370496 * 2 powi (e' + 1)" by (simp add: powi_add)
    also have "\<dots> \<le> 4503599627370496 * 2 powi ?E" using False by (intro mult_left_mono powi_mono) auto
    finally have "real_of_int m' * 2 powi e' / 2 powi ?E \<le> 4503599627370496" by (simp add: pos_divide_le_eq)
    with nearest_integer [OF near, of 4503599627370496] y show ?thesis by simp
  qed
  have "\<bar>a * 2 powi ?E - x\<bar> = \<bar>a - ?y\<bar> * 2 powi ?E" for a
  proof -
    have "a * 2 powi ?E - x = (a - ?y) * 2 powi ?E" by (simp add: left_diff_distrib)
    then show ?thesis by (simp add: abs_mult)
  qed
  from this [of "of_int ?M"] this [of "of_int m' * 2 powi e' / 2 powi ?E"] mult_right_mono [OF goal, of "2 powi ?E"]
  show ?thesis unfolding v by simp
qed

lemma wf_le_f_max: "float_wf (FFin s m e) \<Longrightarrow> of_int m * 2 powi e \<le> f_max"
proof -
  assume wf: "float_wf (FFin s m e)"
  then have "real_of_int m \<le> 9007199254740991" by (auto simp: float_wf_def)
  moreover have "(2::real) powi e \<le> 2 powi 971" using wf by (intro powi_mono) (simp add: float_wf_def)
  ultimately show ?thesis unfolding f_max_def using wf
    by (intro mult_mono) (auto simp: float_wf_def)
qed

lemma canonical_unique:
  assumes "float_wf (FFin s m e)" and "float_wf (FFin s m' e')" and "0 < m"
    and "of_int m * 2 powi e = (of_int m' * 2 powi e' :: real)"
  shows "m = m' \<and> e = e'"
proof -
  have low: False
    if "float_wf (FFin s a f)" "float_wf (FFin s b g)" "of_int a * 2 powi f = (of_int b * 2 powi g :: real)"
      "f < g" for a b f g
  proof -
    have "4503599627370496 \<le> real_of_int b" using that by (auto simp: float_wf_def)
    moreover have "(2::real) powi (f + 1) \<le> 2 powi g" using that by (intro powi_mono) simp
    ultimately have "4503599627370496 * 2 powi (f + 1) \<le> real_of_int b * 2 powi g" by (intro mult_mono) auto
    then have "9007199254740992 * 2 powi f \<le> real_of_int a * 2 powi f" using that(3) by (simp add: powi_add)
    then show False using that(1) by (auto simp: float_wf_def)
  qed
  have "e = e'"
    using low [OF assms(1,2,4)] low [OF assms(2,1) assms(4) [symmetric]] by (meson linorder_neqE)
  with assms(4) show ?thesis by simp
qed

lemma round_ratio_wf: "0 < n \<Longrightarrow> 0 < d \<Longrightarrow> float_wf (round_ratio neg n d)"
  by (rule round_ratio_cases [of n d neg]) (auto simp: float_wf_def)

text \<open>Rounding is monotone against canonical values, and exact on them.\<close>

lemma round_ratio_le:
  assumes "0 < n" and "0 < d" and "float_wf (FFin s m' e')"
    and "real_of_int n / real_of_int d \<le> of_int m' * 2 powi e'"
  obtains m e where "round_ratio neg n d = FFin neg m e" "float_wf (FFin neg m e)"
    "of_int m * 2 powi e \<le> (of_int m' * 2 powi e' :: real)"
proof -
  have "f_max < f_max + (2::real) powi 970" by simp
  then have "\<not> f_max + 2 powi 970 \<le> real_of_int n / real_of_int d"
    using wf_le_f_max [OF assms(3)] assms(4) by linarith
  then obtain m e where r: "round_ratio neg n d = FFin neg m e" "float_wf (FFin neg m e)"
    using round_ratio_cases [OF assms(1,2), of neg] by metis
  with round_ratio_nearest [OF assms(1,2) r(1) assms(3)] assms(4)
  have "of_int m * 2 powi e \<le> (of_int m' * 2 powi e' :: real)" by linarith
  with r that show ?thesis by blast
qed

lemma round_ratio_ge:
  assumes "0 < n" and "0 < d" and "float_wf (FFin s m' e')"
    and "of_int m' * 2 powi e' \<le> real_of_int n / real_of_int d"
    and "round_ratio neg n d = FFin neg m e"
  shows "(of_int m' * 2 powi e' :: real) \<le> of_int m * 2 powi e"
  using round_ratio_nearest [OF assms(1,2,5,3)] assms(4) by linarith

lemma round_ratio_exact:
  assumes "0 < n" and "0 < d" and "float_wf (FFin neg m' e')"
    and "real_of_int n / real_of_int d = of_int m' * 2 powi e'"
  shows "round_ratio neg n d = FFin neg m' e'"
proof -
  obtain m e where r: "round_ratio neg n d = FFin neg m e" "float_wf (FFin neg m e)"
    "of_int m * 2 powi e \<le> (of_int m' * 2 powi e' :: real)"
    using round_ratio_le [OF assms(1-3)] assms(4) by (metis order_refl)
  have "(of_int m' * 2 powi e' :: real) \<le> of_int m * 2 powi e"
    using round_ratio_ge [OF assms(1-3) _ r(1)] assms(4) by simp
  with r(3) have eq: "of_int m' * 2 powi e' = (of_int m * 2 powi e :: real)" by simp
  have "0 < real_of_int n / real_of_int d" using assms(1,2) by simp
  then have "0 < real_of_int m' * 2 powi e'" using assms(4) by simp
  then have "0 < m'" by (metis of_int_0_less_iff powi_pos zero_less_mult_pos2)
  with canonical_unique [OF assms(3) r(2) _ eq] r(1) show ?thesis by simp
qed

section \<open>Arithmetic on an interval\<close>

text \<open>Non-negative finite values in an interval, and the reals a float64 can hold.\<close>

definition f_range :: "real \<Rightarrow> real \<Rightarrow> float64 \<Rightarrow> bool" where
  "f_range lo hi f \<longleftrightarrow>
     (\<exists>m e. f = FFin False m e \<and> float_wf f \<and> lo \<le> of_int m * 2 powi e \<and> of_int m * 2 powi e \<le> hi)"

definition is_float :: "real \<Rightarrow> bool" where
  "is_float v \<longleftrightarrow> (\<exists>m e. float_wf (FFin False m e) \<and> v = of_int m * 2 powi e)"

lemma f_ratio_spec:
  assumes "0 \<le> m" and "f_ratio m e = (n, d)"
  shows "0 \<le> n \<and> 0 < d \<and> real_of_int n / real_of_int d = of_int m * 2 powi e"
proof (cases "0 \<le> e")
  case True
  then show ?thesis using assms by (auto simp: f_ratio_def ipow_power power_int_nonneg_exp)
next
  case False
  then have "(2::real) powi e = 1 / 2 powi (- e)" by (simp add: power_int_minus_divide)
  with False show ?thesis using assms by (auto simp: f_ratio_def ipow_power power_int_nonneg_exp)
qed

lemma f_zero_wf [simp]: "float_wf (f_zero s)"
  by (simp add: f_zero_def float_wf_def)

lemma f_round_wf: "0 \<le> n \<Longrightarrow> 0 < d \<Longrightarrow> float_wf (f_round neg n d)"
  by (simp add: f_round_def round_ratio_wf)

lemma f_round_range:
  assumes "0 \<le> n" and "0 < d" and "is_float lo" and "is_float hi"
    and "lo \<le> real_of_int n / real_of_int d" and "real_of_int n / real_of_int d \<le> hi"
  shows "f_range lo hi (f_round False n d)"
proof (cases "n = 0")
  case True
  then show ?thesis using assms
    by (auto simp: f_round_def f_zero_def f_range_def float_wf_def)
next
  case False
  with assms(1) have n: "0 < n" by simp
  obtain ml el where l: "float_wf (FFin False ml el)" "lo = of_int ml * 2 powi el"
    using assms(3) by (auto simp: is_float_def)
  obtain mh eh where h: "float_wf (FFin False mh eh)" "hi = of_int mh * 2 powi eh"
    using assms(4) by (auto simp: is_float_def)
  obtain m e where r: "round_ratio False n d = FFin False m e" "float_wf (FFin False m e)"
    "of_int m * 2 powi e \<le> hi"
    using round_ratio_le [OF n assms(2) h(1)] assms(6) h(2) by metis
  moreover have "lo \<le> of_int m * 2 powi e"
    using round_ratio_ge [OF n assms(2) l(1) _ r(1)] assms(5) l(2) by simp
  ultimately show ?thesis using False by (auto simp: f_round_def f_range_def)
qed

lemma f_round_at_least:
  assumes "0 \<le> n" and "0 < d" and "is_float lo" and "lo \<le> real_of_int n / real_of_int d"
  shows "f_round False n d = FInf False \<or> f_range lo f_max (f_round False n d)"
proof (cases "f_round False n d = FInf False")
  case False
  show ?thesis
  proof (cases "n = 0")
    case True
    have "0 \<le> f_max" by (simp add: f_max_def)
    with True assms(4) show ?thesis by (auto simp: f_round_def f_zero_def f_range_def float_wf_def)
  next
    case n: False
    obtain ml el where l: "float_wf (FFin False ml el)" "lo = of_int ml * 2 powi el"
      using assms(3) by (auto simp: is_float_def)
    obtain m e where r: "round_ratio False n d = FFin False m e" "float_wf (FFin False m e)"
      using round_ratio_cases [of n d False] False n assms(1,2) by (metis f_round_def order_less_le)
    have "lo \<le> of_int m * 2 powi e"
      using round_ratio_ge [OF _ assms(2) l(1) _ r(1)] n assms(1,4) l(2) by simp
    with r wf_le_f_max [OF r(2)] n show ?thesis by (auto simp: f_round_def f_range_def)
  qed
qed simp

lemma f_rangeE:
  assumes "f_range lo hi f"
  obtains m e n d where "f = FFin False m e" "float_wf f" "f_ratio m e = (n, d)" "0 \<le> n" "0 < d"
    "lo \<le> real_of_int n / real_of_int d" "real_of_int n / real_of_int d \<le> hi"
    "0 \<le> real_of_int n / real_of_int d"
proof -
  obtain m e where f: "f = FFin False m e" "float_wf f" "lo \<le> of_int m * 2 powi e" "of_int m * 2 powi e \<le> hi"
    using assms by (auto simp: f_range_def)
  then have m: "0 \<le> m" by (simp add: float_wf_def)
  obtain n d where nd: "f_ratio m e = (n, d)" by fastforce
  have "0 \<le> real_of_int m * 2 powi e" using m by simp
  with f_ratio_spec [OF m nd] f that [of m e n d] nd show ?thesis by simp
qed

lemma f_range_weaken: "f_range lo hi f \<Longrightarrow> lo' \<le> lo \<Longrightarrow> hi \<le> hi' \<Longrightarrow> f_range lo' hi' f"
  by (fastforce simp: f_range_def)

lemma f_mul_range:
  assumes "f_range a b x" and "f_range c d y" and "is_float lo" and "is_float hi"
    and "0 \<le> a" and "0 \<le> c" and "lo \<le> a * c" and "b * d \<le> hi"
  shows "f_range lo hi (f_mul x y)"
proof -
  from assms(1) obtain m e n k where x: "x = FFin False m e" "f_ratio m e = (n, k)" "0 \<le> n" "0 < k"
    "a \<le> real_of_int n / real_of_int k" "real_of_int n / real_of_int k \<le> b" by (rule f_rangeE)
  from assms(2) obtain m' e' n' k' where y: "y = FFin False m' e'" "f_ratio m' e' = (n', k')" "0 \<le> n'" "0 < k'"
    "c \<le> real_of_int n' / real_of_int k'" "real_of_int n' / real_of_int k' \<le> d"
    "0 \<le> real_of_int n' / real_of_int k'" by (rule f_rangeE)
  have v: "real_of_int (n * n') / real_of_int (k * k') =
      (real_of_int n / real_of_int k) * (real_of_int n' / real_of_int k')" by simp
  have "a * c \<le> (real_of_int n / real_of_int k) * (real_of_int n' / real_of_int k')"
    using x(3-5) y(5) assms(5,6) by (intro mult_mono) auto
  moreover have "(real_of_int n / real_of_int k) * (real_of_int n' / real_of_int k') \<le> b * d"
    using x(3,4,6) y(6,7) by (intro mult_mono) (auto intro: order_trans [of 0 "real_of_int n / real_of_int k"])
  ultimately have "f_range lo hi (f_round False (n * n') (k * k'))"
    using x(3,4) y(3,4) v assms(3,4,7,8) by (intro f_round_range) auto
  then show ?thesis by (simp add: x(1,2) y(1,2))
qed

lemma f_add_range:
  assumes "f_range a b x" and "f_range c d y" and "is_float lo" and "is_float hi"
    and "lo \<le> a + c" and "b + d \<le> hi"
  shows "f_range lo hi (f_add x y)"
proof -
  from assms(1) obtain m e n k where x: "x = FFin False m e" "f_ratio m e = (n, k)" "0 \<le> n" "0 < k"
    "a \<le> real_of_int n / real_of_int k" "real_of_int n / real_of_int k \<le> b" by (rule f_rangeE)
  from assms(2) obtain m' e' n' k' where y: "y = FFin False m' e'" "f_ratio m' e' = (n', k')" "0 \<le> n'" "0 < k'"
    "c \<le> real_of_int n' / real_of_int k'" "real_of_int n' / real_of_int k' \<le> d" by (rule f_rangeE)
  have v: "real_of_int (n * k' + n' * k) / real_of_int (k * k') =
      real_of_int n / real_of_int k + real_of_int n' / real_of_int k'"
    using x(4) y(4) by (simp add: field_simps)
  have t: "0 \<le> n * k' + n' * k" using x(3,4) y(3,4) by simp
  have "f_range lo hi (f_round False (n * k' + n' * k) (k * k'))"
    using x(4-6) y(4-6) t v assms(3-6) by (intro f_round_range) auto
  then show ?thesis using t by (auto simp: x(1,2) y(1,2) f_signed_def f_round_def Let_def)
qed

lemma f_sub_range:
  assumes "f_range a b x" and "f_range c d y" and "is_float lo" and "is_float hi"
    and "d \<le> a" and "lo \<le> a - d" and "b - c \<le> hi"
  shows "f_range lo hi (f_sub x y)"
proof -
  from assms(1) obtain m e n k where x: "x = FFin False m e" "f_ratio m e = (n, k)" "0 \<le> n" "0 < k"
    "a \<le> real_of_int n / real_of_int k" "real_of_int n / real_of_int k \<le> b" by (rule f_rangeE)
  from assms(2) obtain m' e' n' k' where y: "y = FFin False m' e'" "f_ratio m' e' = (n', k')" "0 \<le> n'" "0 < k'"
    "c \<le> real_of_int n' / real_of_int k'" "real_of_int n' / real_of_int k' \<le> d" by (rule f_rangeE)
  have v: "real_of_int (n * k' - n' * k) / real_of_int (k * k') =
      real_of_int n / real_of_int k - real_of_int n' / real_of_int k'"
    using x(4) y(4) by (simp add: field_simps)
  have "0 \<le> real_of_int n / real_of_int k - real_of_int n' / real_of_int k'" using x(5) y(6) assms(5) by linarith
  then have "0 \<le> real_of_int (n * k' - n' * k)"
    using x(4) y(4) v by (metis divide_less_0_iff mult_pos_pos not_less of_int_0_less_iff)
  then have t: "0 \<le> n * k' - n' * k" by linarith
  have "f_range lo hi (f_round False (n * k' - n' * k) (k * k'))"
    using x(4-6) y(4-6) t v assms(3-7) by (intro f_round_range) auto
  then show ?thesis using t by (auto simp: f_sub_def x(1,2) y(1,2) f_signed_def f_round_def Let_def)
qed

lemma f_div_range:
  assumes "f_range a b x" and "f_range c d y" and "is_float lo" and "is_float hi"
    and "0 \<le> a" and "0 < c" and "lo \<le> a / d" and "b / c \<le> hi"
  shows "f_range lo hi (f_div x y)"
proof -
  from assms(1) obtain m e n k where x: "x = FFin False m e" "f_ratio m e = (n, k)" "0 \<le> n" "0 < k"
    "a \<le> real_of_int n / real_of_int k" "real_of_int n / real_of_int k \<le> b" by (rule f_rangeE)
  from assms(2) obtain m' e' n' k' where y: "y = FFin False m' e'" "f_ratio m' e' = (n', k')" "0 \<le> n'" "0 < k'"
    "c \<le> real_of_int n' / real_of_int k'" "real_of_int n' / real_of_int k' \<le> d" by (rule f_rangeE)
  have n': "0 < n'" using y(3-5) assms(6) by (cases "n' = 0") auto
  then have m': "m' \<noteq> 0" using y(2) by (auto simp: f_ratio_def split: if_splits)
  have v: "real_of_int (n * k') / real_of_int (k * n') =
      (real_of_int n / real_of_int k) / (real_of_int n' / real_of_int k')"
    using x(4) y(4) n' by simp
  have "a / d \<le> (real_of_int n / real_of_int k) / (real_of_int n' / real_of_int k')"
    using x(3-5) y(4-6) n' assms(5,6) by (intro frac_le) auto
  moreover have "(real_of_int n / real_of_int k) / (real_of_int n' / real_of_int k') \<le> b / c"
    using x(3-6) y(4-6) n' assms(5,6) by (intro frac_le) (auto intro: order_trans [of 0 "real_of_int n / real_of_int k"])
  ultimately have "f_range lo hi (f_round False (n * k') (k * n'))"
    using x(3,4) y(4) n' v assms(3,4,7,8) by (intro f_round_range) auto
  then show ?thesis using m' by (simp add: x(1,2) y(1,2))
qed

text \<open>Every operation yields a canonical value.\<close>

lemma f_ratio_signs: "0 \<le> m \<Longrightarrow> 0 \<le> fst (f_ratio m e) \<and> 0 < snd (f_ratio m e)"
  using f_ratio_spec [of m e] by (cases "f_ratio m e") auto

lemma wf_mantissa: "float_wf (FFin s m e) \<Longrightarrow> 0 \<le> m"
  by (simp add: float_wf_def)

lemma f_mul_wf: "float_wf x \<Longrightarrow> float_wf y \<Longrightarrow> float_wf (f_mul x y)"
proof (induction x y rule: f_mul.induct)
  case (1 s m e s' m' e')
  then show ?case
    using f_ratio_signs [OF wf_mantissa, of s m e] f_ratio_signs [OF wf_mantissa, of s' m' e']
    by (auto simp: split_beta Let_def intro!: f_round_wf)
qed (auto simp: float_wf_def)

lemma f_add_wf: "float_wf x \<Longrightarrow> float_wf y \<Longrightarrow> float_wf (f_add x y)"
proof (induction x y rule: f_add.induct)
  case (1 s m e s' m' e')
  then show ?case
    using f_ratio_signs [OF wf_mantissa, of s m e] f_ratio_signs [OF wf_mantissa, of s' m' e']
    by (auto simp: split_beta Let_def intro!: f_round_wf)
qed (auto simp: float_wf_def)

lemma f_of_int_wf: "float_wf (f_of_int n)"
  by (simp add: f_of_int_def f_round_wf)

text \<open>Integers of at most 53 bits are exact.\<close>

lemma is_floatI: "float_wf (FFin False m e) \<Longrightarrow> v = of_int m * 2 powi e \<Longrightarrow> is_float v"
  by (auto simp: is_float_def)

lemma is_float_scaled:
  "0 \<le> m \<Longrightarrow> m \<le> 9007199254740992 \<Longrightarrow> e = int k - 1074 \<Longrightarrow> e \<le> 970 \<Longrightarrow> is_float (of_int m * 2 powi e)"
proof (induction k arbitrary: m e)
  case 0
  show ?case
  proof (cases "m = 9007199254740992")
    case True
    with 0 show ?thesis
      by (intro is_floatI [of 4503599627370496 "e + 1"]) (simp_all only: float_wf_def powi_add, simp_all)
  next
    case False
    with 0 show ?thesis by (intro is_floatI [of m e]) (auto simp: float_wf_def)
  qed
next
  case (Suc k)
  consider "m = 9007199254740992" | "4503599627370496 \<le> m" "m < 9007199254740992" | "m < 4503599627370496"
    using Suc.prems by linarith
  then show ?case
  proof cases
    case 1
    with Suc.prems show ?thesis
      by (intro is_floatI [of 4503599627370496 "e + 1"]) (simp_all only: float_wf_def powi_add, simp_all)
  next
    case 2
    with Suc.prems show ?thesis by (intro is_floatI [of m e]) (auto simp: float_wf_def)
  next
    case 3
    with Suc.prems Suc.IH [of "2 * m" "e - 1"] show ?thesis by (simp add: powi_diff)
  qed
qed

lemma is_float_int: "0 \<le> m \<Longrightarrow> m \<le> 9007199254740992 \<Longrightarrow> is_float (of_int m)"
  using is_float_scaled [of m 0 1074] by simp

lemma is_float_numeral:
  "is_float 0" "is_float 1" "numeral k \<le> (9007199254740992::int) \<Longrightarrow> is_float (numeral k)"
  using is_float_int [of 0] is_float_int [of 1] is_float_int [of "numeral k"] by simp_all

lemma f_range_point: "f_range v v f \<Longrightarrow> is_float v"
  by (force simp: f_range_def is_float_def)

lemma f_range_is_float:
  assumes "f_range lo hi f" obtains v where "f_range v v f" "is_float v" "lo \<le> v" "v \<le> hi"
  using assms by (force simp: f_range_def is_float_def)

lemma f_of_int_range: "0 \<le> n \<Longrightarrow> n \<le> 9007199254740992 \<Longrightarrow> f_range (of_int n) (of_int n) (f_of_int n)"
  unfolding f_of_int_def using f_round_range [of n 1 "of_int n" "of_int n"] is_float_int [of n] by simp

lemma f_trunc_range:
  assumes "f_range lo hi f"
  shows "\<lfloor>lo\<rfloor> \<le> f_trunc f \<and> of_int (f_trunc f) \<le> hi \<and> 0 \<le> f_trunc f"
proof -
  from assms obtain m e n d where f: "f = FFin False m e" "f_ratio m e = (n, d)" "0 \<le> n" "0 < d"
    "lo \<le> real_of_int n / real_of_int d" "real_of_int n / real_of_int d \<le> hi" by (rule f_rangeE)
  then have t: "f_trunc f = \<lfloor>real_of_int n / real_of_int d\<rfloor>"
    by (simp add: f_trunc_def f_signed_def floor_divide_of_int_eq)
  have "of_int (f_trunc f) \<le> hi" unfolding t using f(6) of_int_floor_le order_trans by blast
  moreover have "0 \<le> f_trunc f" unfolding t using f(3,4) by simp
  ultimately show ?thesis unfolding t using f(5) by (simp add: floor_mono)
qed

lemma f_less_range:
  assumes "f_range a b x" and "f_range c d y"
  shows "b < c \<Longrightarrow> f_less x y" and "d \<le> a \<Longrightarrow> \<not> f_less x y"
proof -
  from assms(1) obtain m e n k where x: "x = FFin False m e" "f_ratio m e = (n, k)" "0 \<le> n" "0 < k"
    "a \<le> real_of_int n / real_of_int k" "real_of_int n / real_of_int k \<le> b" by (rule f_rangeE)
  from assms(2) obtain m' e' n' k' where y: "y = FFin False m' e'" "f_ratio m' e' = (n', k')" "0 \<le> n'" "0 < k'"
    "c \<le> real_of_int n' / real_of_int k'" "real_of_int n' / real_of_int k' \<le> d" by (rule f_rangeE)
  have "f_less x y \<longleftrightarrow> n * k' < n' * k" by (simp add: x(1,2) y(1,2) f_signed_def)
  also have "\<dots> \<longleftrightarrow> real_of_int n * real_of_int k' < real_of_int n' * real_of_int k" by (simp flip: of_int_mult)
  also have "\<dots> \<longleftrightarrow> real_of_int n / real_of_int k < real_of_int n' / real_of_int k'"
    using x(4) y(4) by (simp add: divide_less_eq less_divide_eq mult.commute)
  finally have l: "f_less x y \<longleftrightarrow> real_of_int n / real_of_int k < real_of_int n' / real_of_int k'" .
  show "b < c \<Longrightarrow> f_less x y" and "d \<le> a \<Longrightarrow> \<not> f_less x y" unfolding l using x(5,6) y(5,6) by linarith+
qed

lemma f_range_zero: "f_range lo hi f \<Longrightarrow> f_range 0 hi f"
proof -
  assume "f_range lo hi f"
  then obtain m e where f: "f = FFin False m e" "float_wf f" "of_int m * 2 powi e \<le> hi"
    by (auto simp: f_range_def)
  then have "0 \<le> real_of_int m" by (simp add: float_wf_def)
  then have "0 \<le> real_of_int m * 2 powi e" by simp
  with f show ?thesis by (simp add: f_range_def)
qed

lemma f_mul_commute: "f_mul x y = f_mul y x"
proof (cases "x = FNaN \<or> y = FNaN")
  case True
  then show ?thesis by (cases x; cases y) auto
next
  case False
  have "(s \<noteq> s') = (s' \<noteq> s)" for s s' :: bool by blast
  then show ?thesis using False by (cases x; cases y) (simp_all add: split_beta Let_def mult.commute)
qed

section \<open>Parsed numbers\<close>

lemma digit_val_nonneg: "digit_val c = Some d \<Longrightarrow> 0 \<le> d"
  by (auto simp: digit_val_def is_digit_def is_lower_def is_upper_def split: if_splits)

lemma mant_loop_nonneg: "mant_loop hex m fr dot digs s = (m', fr', digs', r) \<Longrightarrow> 0 \<le> m \<Longrightarrow> 0 \<le> m'"
proof (induction hex m fr dot digs s rule: mant_loop.induct)
  case (2 hex m fr dot digs c cs)
  then show ?case
    by (auto split: if_splits option.splits dest: digit_val_nonneg simp: mult_nonneg_nonneg add_nonneg_nonneg)
qed simp

lemma ratio_float_wf: "0 \<le> m \<Longrightarrow> float_wf (ratio_float neg hex m k)"
proof -
  assume "0 \<le> m"
  moreover have "0 < ipow b e" if "0 < b" for b e using that by (simp add: ipow_power)
  ultimately show ?thesis
    by (auto simp: ratio_float_def Let_def float_wf_def [of "FInf neg"] intro!: round_ratio_wf mult_pos_pos)
qed

text \<open>What \<open>ParseFloat\<close> returns is canonical on every input, errors included.\<close>

lemma ParseFloat_wf: "float_wf (fst (ParseFloat s))"
proof (cases "special_float s")
  case (Some f)
  then show ?thesis by (auto simp: ParseFloat_def special_float_def Let_def float_wf_def split: if_splits)
next
  case none: None
  show ?thesis
  proof (cases "read_float s")
    case None
    with none show ?thesis by (simp add: ParseFloat_def)
  next
    case (Some t)
    then obtain neg hex m k where t: "t = (neg, hex, m, k)" by (cases t)
    have "0 \<le> m"
      using Some t mant_loop_nonneg
      by (auto simp: read_float_def Let_def split: prod.splits if_splits option.splits)
    from ratio_float_wf [OF this, of neg hex k] none Some t show ?thesis
      by (auto simp: ParseFloat_def Let_def split: float64.splits)
  qed
qed

end
