(* ===== verification/GoMath.thy ===== *)
theory GoMath
  imports FloatFacts
begin

text \<open>
  The functions of Go's package \<open>math\<close> the program calls: \<open>Frexp\<close>, \<open>Ldexp\<close> and, for
  the integral exponents it is called with, \<open>Pow\<close>; \<open>Round\<close>. Each follows the library's own
  algorithm, so that its rounding is the library's.
\<close>

section \<open>Definitions\<close>

definition f_one :: float64 where "f_one = FFin False 4503599627370496 (- 52)"
definition f_half :: float64 where "f_half = FFin False 4503599627370496 (- 53)"

text \<open>\<open>Frexp\<close>: a fraction in \<open>[1/2, 1)\<close> and an exponent.\<close>

fun Frexp :: "float64 \<Rightarrow> float64 \<times> int" where
  "Frexp (FFin s m e) =
     (if m = 0 then (FFin s m e, 0)
      else (FFin s (m * ipow 2 (53 - bit_len m)) (- 53), e + bit_len m))"
| "Frexp f = (f, 0)"

fun Ldexp :: "float64 \<Rightarrow> int \<Rightarrow> float64" where
  "Ldexp (FFin s m e) k =
     (if m = 0 then FFin s m e else (let (n, d) = f_ratio m (e + k) in f_round s n d))"
| "Ldexp f k = f"

text \<open>The squaring loop of \<open>Pow\<close>; it leaves early when the exponent cannot come back.\<close>

function pow_loop :: "int \<Rightarrow> float64 \<Rightarrow> int \<Rightarrow> float64 \<Rightarrow> int \<Rightarrow> float64 \<times> int" where
  "pow_loop i x1 xe a1 ae =
     (if i \<le> 0 then (a1, ae)
      else if xe < - 4096 \<or> 4096 < xe then (a1, ae + xe)
      else
        let (a1', ae') = (if odd i then (f_mul a1 x1, ae + xe) else (a1, ae));
            x2 = f_mul x1 x1;
            (x3, xe3) = (if f_less x2 f_half then (f_add x2 x2, 2 * xe - 1) else (x2, 2 * xe))
        in pow_loop (i div 2) x3 xe3 a1' ae')"
  by pat_completeness auto
termination
  by (relation "measure (\<lambda>(i, x1, xe, a1, ae). nat i)") auto

declare pow_loop.simps [simp del]

text \<open>\<open>Pow(x, y)\<close> for a \<open>y\<close> that is a non-negative integer, the only ones the program passes.\<close>

definition math_Pow :: "float64 \<Rightarrow> int \<Rightarrow> float64" where
  "math_Pow x y =
     (if y = 0 \<or> x = f_one then f_one
      else if y = 1 then x
      else case x of
        FNaN \<Rightarrow> FNaN
      | FInf neg \<Rightarrow> FInf (neg \<and> odd y)
      | FFin s m e \<Rightarrow>
          if m = 0 then f_zero (s \<and> odd y)
          else if 9223372036854775808 \<le> y then
            (if x = f_neg f_one then f_one
             else if f_less (FFin False m e) f_one then f_zero False else FInf False)
          else (let (x1, xe) = Frexp x; (a1, ae) = pow_loop y x1 xe f_one 0 in Ldexp a1 ae))"

text \<open>\<open>Round\<close>: to the nearest integer, halves away from zero.\<close>

definition math_Round :: "float64 \<Rightarrow> float64" where
  "math_Round f =
     (case f of
        FFin s m e \<Rightarrow>
          if 0 \<le> e then f
          else (let d = ipow 2 (- e) in f_round s ((2 * m + d) div (2 * d)) 1)
      | _ \<Rightarrow> f)"

section \<open>Powers of two are exact\<close>

definition p2 :: "int \<Rightarrow> float64" where
  "p2 k = FFin False 4503599627370496 (k - 52)"

lemma p2_wf: "- 1022 \<le> k \<Longrightarrow> k \<le> 1023 \<Longrightarrow> float_wf (p2 k)"
  by (simp add: p2_def float_wf_def)

lemma p2_value: "4503599627370496 * (2::real) powi (k - 52) = 2 powi k"
  by (simp add: powi_diff)

lemma f_mul_p2:
  assumes "- 1022 \<le> a + b" and "a + b \<le> 1023"
  shows "f_mul (p2 a) (p2 b) = p2 (a + b)"
proof -
  obtain n d where nd: "f_ratio 4503599627370496 (a - 52) = (n, d)" by fastforce
  obtain n' d' where nd': "f_ratio 4503599627370496 (b - 52) = (n', d')" by fastforce
  note r = f_ratio_spec [OF _ nd] and r' = f_ratio_spec [OF _ nd']
  have v: "real_of_int n / real_of_int d = 2 powi a" "real_of_int n' / real_of_int d' = 2 powi b"
    using r r' by (simp_all add: p2_value)
  then have nz: "n \<noteq> 0" "n' \<noteq> 0" by auto
  then have pos: "0 < n * n'" "0 < d * d'" using r r' by simp_all
  have "real_of_int (n * n') / real_of_int (d * d') = 2 powi a * 2 powi b"
    using v by (simp flip: times_divide_times_eq)
  then have "round_ratio False (n * n') (d * d') = p2 (a + b)"
    unfolding p2_def using assms p2_wf [of "a + b"] pos
    by (intro round_ratio_exact) (simp_all add: p2_def p2_value powi_add)
  then show ?thesis using nz by (simp add: p2_def [of a] p2_def [of b] nd nd' f_round_def)
qed

lemma f_half_p2: "f_half = p2 (- 1)" and f_one_p2: "f_one = p2 0"
  by (simp_all add: f_half_def f_one_def p2_def)

lemma half_squared: "f_mul f_half f_half = p2 (- 2)"
  by (simp add: f_half_p2 f_mul_p2)

lemma half_step: "f_less (p2 (- 2)) f_half" "f_add (p2 (- 2)) (p2 (- 2)) = f_half"
  by code_simp+

text \<open>
  The loop on base two keeps \<open>x1\<close> at one half: after \<open>j\<close> rounds its exponent is
  \<open>2^j + 1\<close>, and the result so far is a power of two. Either the loop adds up the whole
  exponent or it leaves with one far beyond the largest.
\<close>

lemma pow_loop_two:
  assumes "j \<le> 12" and "0 \<le> c" and "c \<le> int j" and "0 \<le> i"
  shows "\<exists>c' ae'. pow_loop i f_half (2 ^ j + 1) (p2 (- c)) ae = (p2 (- c'), ae') \<and> 0 \<le> c' \<and> c' \<le> 12
       \<and> (ae' - c' = ae - c + i * 2 ^ j \<or> ae - c + 4096 \<le> ae' - c' \<and> 4096 \<le> i * 2 ^ j)"
  using assms
proof (induction "12 - j" arbitrary: j i c ae)
  case 0
  then have j: "j = 12" by simp
  show ?case
  proof (cases "i = 0")
    case True
    then show ?thesis using 0 j by (subst pow_loop.simps) auto
  next
    case False
    then have "1 * 4096 \<le> i * 4096" using 0 by simp
    with False show ?thesis using 0 j by (subst pow_loop.simps) auto
  qed
next
  case (Suc k)
  show ?case
  proof (cases "i = 0")
    case True
    then show ?thesis using Suc.prems by (subst pow_loop.simps) auto
  next
    case False
    have j: "j \<le> 11" using Suc by simp
    have "(2::int) ^ j \<le> 2048" using power_increasing [OF j, of "2::int"] by simp
    moreover have "(0::int) < 2 ^ j" by simp
    ultimately have "- 4096 \<le> (2::int) ^ j + 1" "(2::int) ^ j + 1 \<le> 4096" by linarith+
    then have xe: "\<not> ((2::int) ^ j + 1 < - 4096 \<or> 4096 < (2::int) ^ j + 1)" by linarith
    define c1 where "c1 = (if odd i then c + 1 else c)"
    define ae1 where "ae1 = (if odd i then ae + (2 ^ j + 1) else ae)"
    have a1: "f_mul (p2 (- c)) f_half = p2 (- (c + 1))" using Suc.prems j by (simp add: f_half_p2 f_mul_p2)
    have step: "pow_loop i f_half (2 ^ j + 1) (p2 (- c)) ae =
        pow_loop (i div 2) f_half (2 ^ Suc j + 1) (p2 (- c1)) ae1"
      using False Suc.prems(4) xe a1
      by (subst pow_loop.simps) (simp add: half_squared half_step c1_def ae1_def add.commute)
    have "12 - Suc j = k" "0 \<le> c1" "c1 \<le> int (Suc j)" "0 \<le> i div 2"
      using Suc by (auto simp: c1_def)
    from Suc.hyps(1) [OF this(1) [symmetric] _ this(2-4), of ae1] j obtain c' ae' where
      ih: "pow_loop (i div 2) f_half (2 ^ Suc j + 1) (p2 (- c1)) ae1 = (p2 (- c'), ae')" "0 \<le> c'" "c' \<le> 12"
        "ae' - c' = ae1 - c1 + i div 2 * 2 ^ Suc j
           \<or> ae1 - c1 + 4096 \<le> ae' - c' \<and> 4096 \<le> i div 2 * 2 ^ Suc j"
      by auto
    define b where "b = (if odd i then (2::int) ^ j else 0)"
    have "0 \<le> b" and "ae1 - c1 = ae - c + b" by (simp_all add: ae1_def c1_def b_def)
    moreover have "i * 2 ^ j = i div 2 * 2 ^ Suc j + b"
      unfolding b_def by (cases "odd i") (auto elim!: oddE evenE simp: algebra_simps)
    ultimately have "ae' - c' = ae - c + i * 2 ^ j \<or> ae - c + 4096 \<le> ae' - c' \<and> 4096 \<le> i * 2 ^ j"
      using ih(4) by linarith
    with ih step show ?thesis by auto
  qed
qed

lemma Ldexp_p2:
  assumes "- 1022 \<le> k - c"
  shows "Ldexp (p2 (- c)) k = (if k - c \<le> 1023 then p2 (k - c) else FInf False)"
proof -
  obtain n d where nd: "f_ratio 4503599627370496 (k - c - 52) = (n, d)" by fastforce
  have v: "0 \<le> n" "0 < d" "real_of_int n / real_of_int d = 2 powi (k - c)"
    using f_ratio_spec [OF _ nd] p2_value [of "k - c"] by simp_all
  then have n: "0 < n" by (cases "n = 0") auto
  have "Ldexp (p2 (- c)) k = round_ratio False n d"
    using nd n by (simp add: p2_def f_round_def algebra_simps)
  also have "\<dots> = (if k - c \<le> 1023 then p2 (k - c) else FInf False)"
  proof (cases "k - c \<le> 1023")
    case True
    then show ?thesis unfolding p2_def using assms v n p2_wf [of "k - c"] p2_value [of "k - c"]
      by (simp add: p2_def) (intro round_ratio_exact, simp_all)
  next
    case False
    then have "(2::real) powi 1024 \<le> 2 powi (k - c)" by (intro powi_mono) simp
    with False v n show ?thesis by (simp add: round_ratio_overflow)
  qed
  finally show ?thesis .
qed

lemma Frexp_two: "Frexp (FFin False 4503599627370496 (- 51)) = (f_half, 2)"
  by code_simp

lemma math_Pow_two:
  assumes "0 \<le> y"
  shows "math_Pow (p2 1) y = (if y \<le> 1023 then p2 y else FInf False)"
proof -
  consider "y = 0" | "y = 1" | "9223372036854775808 \<le> y" | "2 \<le> y" "y < 9223372036854775808"
    using assms by linarith
  then show ?thesis
  proof cases
    case 1
    then show ?thesis by (simp add: math_Pow_def f_one_p2)
  next
    case 2
    then show ?thesis by (simp add: math_Pow_def f_one_p2 p2_def)
  next
    case 3
    have "\<not> f_less (p2 1) f_one" by code_simp
    with 3 show ?thesis by (simp add: math_Pow_def f_one_p2 p2_def)
  next
    case 4
    from pow_loop_two [of 0 0 y 0] assms obtain c ae where
      l: "pow_loop y f_half 2 (p2 0) 0 = (p2 (- c), ae)"
        "ae - c = y \<or> 4096 \<le> ae - c \<and> 4096 \<le> y" by auto
    have "math_Pow (p2 1) y = Ldexp (p2 (- c)) ae"
      using 4 l(1) Frexp_two by (simp add: math_Pow_def p2_def [of 1] f_one_def p2_def [of 0] del: Frexp.simps)
    with l(2) 4 show ?thesis by (auto simp: Ldexp_p2)
  qed
qed

section \<open>Powers of a positive base\<close>

text \<open>
  A non-negative value that is a number: what a backoff factor has to be for the delay
  to be one. The loop stays within \<open>[0, 1]\<close>, so that the result never becomes a NaN.
\<close>

fun f_nonneg :: "float64 \<Rightarrow> bool" where
  "f_nonneg FNaN \<longleftrightarrow> False"
| "f_nonneg (FInf s) \<longleftrightarrow> \<not> s"
| "f_nonneg (FFin s m e) \<longleftrightarrow> \<not> s \<and> float_wf (FFin s m e)"

lemma f_range_f_nonneg: "f_range a b f \<Longrightarrow> f_nonneg f"
  by (auto simp: f_range_def)

lemma f_nonneg_range: "f_nonneg f \<Longrightarrow> f = FInf False \<or> f_range 0 f_max f"
  using wf_le_f_max by (cases f) (auto simp: f_range_def dest: wf_mantissa)

lemma f_round_nonneg: "0 \<le> n \<Longrightarrow> 0 < d \<Longrightarrow> f_nonneg (f_round False n d)"
  using f_round_wf [of n d False]
  by (cases "n = 0"; cases "0 < n") (auto simp: f_round_def f_zero_def intro: round_ratio_cases [of n d False])

lemma pow_loop_unit:
  assumes "f_range 0 1 x1" and "f_range 0 1 a1"
  shows "f_range 0 1 (fst (pow_loop i x1 xe a1 ae))"
  using assms
proof (induction i x1 xe a1 ae rule: pow_loop.induct)
  case (1 i x1 xe a1 ae)
  note unit = is_float_numeral(1,2)
  have sq: "f_range 0 1 (f_mul x1 x1)" "f_range 0 1 (f_mul a1 x1)"
    using "1.prems" unit by (auto intro: f_mul_range)
  have dbl: "f_range 0 1 (f_add (f_mul x1 x1) (f_mul x1 x1))" if "f_less (f_mul x1 x1) f_half"
  proof -
    obtain v where v: "f_range v v (f_mul x1 x1)" "0 \<le> v" using sq(1) by (rule f_range_is_float)
    have h: "f_range (1 / 2) (1 / 2) f_half"
      by (auto simp: f_half_def f_range_def float_wf_def)
    have "v \<le> 1 / 2" using f_less_range(2) [OF v(1) h] that by linarith
    with v unit show ?thesis by (intro f_add_range [of v v _ v v]) auto
  qed
  show ?case
    using 1 sq dbl by (subst pow_loop.simps) (auto simp: Let_def split: prod.splits)
qed

lemma Frexp_unit:
  assumes "float_wf (FFin False m e)" and "m \<noteq> 0"
  shows "f_range 0 1 (fst (Frexp (FFin False m e)))"
proof -
  have m: "0 < m" "m < 9007199254740992" using assms by (auto simp: float_wf_def)
  obtain k where k: "bit_len m = int (Suc k)" "2 ^ k \<le> m" "m < 2 ^ Suc k" using bit_len_ex [OF m(1)] by blast
  have "(2::int) ^ k < 2 ^ 53" using k(2) m(2) by simp
  then have "k < 53" by (rule power_less_imp_less_exp [rotated]) simp
  then have k53: "Suc k \<le> 53" by simp
  have p: "ipow 2 (53 - bit_len m) = 2 ^ (53 - Suc k)" using k53 by (simp add: ipow_power k(1) nat_diff_distrib)
  have "2 ^ k * 2 ^ (53 - Suc k) \<le> m * 2 ^ (53 - Suc k)" "m * 2 ^ (53 - Suc k) < 2 ^ Suc k * 2 ^ (53 - Suc k)"
    using k(2,3) by simp_all
  moreover have "(2::int) ^ k * 2 ^ (53 - Suc k) = 4503599627370496"
    "(2::int) ^ Suc k * 2 ^ (53 - Suc k) = 9007199254740992"
    using k53 by (simp_all only: power_add [symmetric]) simp_all
  ultimately have b: "4503599627370496 \<le> m * 2 ^ (53 - Suc k)" "m * 2 ^ (53 - Suc k) < 9007199254740992"
    by linarith+
  then have "float_wf (FFin False (m * 2 ^ (53 - Suc k)) (- 53))" by (simp add: float_wf_def)
  with b show ?thesis using assms(2) p by (auto simp: f_range_def)
qed

lemma Ldexp_nonneg: "f_range 0 1 a \<Longrightarrow> f_nonneg (Ldexp a k)"
proof -
  assume "f_range 0 1 a"
  then obtain m e where a: "a = FFin False m e" "float_wf (FFin False m e)" by (auto simp: f_range_def)
  obtain n d where nd: "f_ratio m (e + k) = (n, d)" by fastforce
  from f_ratio_spec [OF wf_mantissa [OF a(2)] nd] have "f_nonneg (f_round False n d)" by (intro f_round_nonneg) auto
  with a nd show ?thesis by auto
qed

lemma math_Pow_nonneg:
  assumes "f_nonneg x"
  shows "f_nonneg (math_Pow x y)"
proof (cases x)
  case (FFin s m e)
  have one: "f_range 0 1 f_one" by (auto simp: f_range_def f_one_def float_wf_def)
  obtain x1 xe where f: "Frexp x = (x1, xe)" by fastforce
  obtain a1 ae where l: "pow_loop y x1 xe f_one 0 = (a1, ae)" by fastforce
  have "f_nonneg (Ldexp a1 ae)" if "m \<noteq> 0"
    using that assms FFin f l one Frexp_unit [of m e] pow_loop_unit [of x1 f_one y xe 0] by (auto intro!: Ldexp_nonneg)
  then show ?thesis
    using assms FFin f l by (auto simp: math_Pow_def f_one_def f_zero_def float_wf_def simp del: Frexp.simps)
qed (use assms in \<open>auto simp: math_Pow_def f_one_def float_wf_def\<close>)

lemma f_mul_nonneg:
  assumes "f_nonneg x" and "f_range a b y" and "0 < a"
  shows "f_nonneg (f_mul x y)"
proof -
  from assms(2) obtain m' e' n' k' where y: "y = FFin False m' e'" "f_ratio m' e' = (n', k')" "0 \<le> n'" "0 < k'"
    "a \<le> real_of_int n' / real_of_int k'" by (rule f_rangeE)
  have "n' \<noteq> 0" using y(5) assms(3) by auto
  then have m': "m' \<noteq> 0" using y(2) by (auto simp: f_ratio_def split: if_splits)
  show ?thesis
  proof (cases x)
    case (FFin s m e)
    then have m: "0 \<le> m" "\<not> s" using assms(1) by (auto dest: wf_mantissa)
    obtain n k where nk: "f_ratio m e = (n, k)" by fastforce
    from f_ratio_spec [OF m(1) nk] y(3,4) have "f_nonneg (f_round False (n * n') (k * k'))"
      by (intro f_round_nonneg) auto
    then show ?thesis using FFin m(2) y(1,2) nk by simp
  qed (use assms(1) y(1) m' in auto)
qed

end
