(* ===== verification/Runner.thy ===== *)
theory Runner
  imports Venue GoMath "HOL-Library.Sublist"
begin

text \<open>
  The connection supervisor of \<open>internal/venue/venue.go\<close>: \<open>Backoff.Delay\<close>, the Gorilla
  dialer, \<open>Runner.session\<close> and \<open>Runner.Run\<close>.

  What the network and the scheduler do is data: a \<open>Session_env\<close> says how the dial, the
  subscription writes and the reads of one session turn out, a \<open>Round\<close> adds what \<open>Run\<close>
  sees around it. A script that ends while the session is still reading leaves the loop
  \<open>RunPending\<close>, so every prefix of an endless run is a run of the model. What the code does
  to the outside is a list of effects, in order.

  A float expression is rounded after every operation, as the amd64 compiler does; a
  conversion of a float that no \<open>int64\<close> holds is the platform's, the argument \<open>conv\<close>.
\<close>

section \<open>Backoff\<close>

record Backoff =
  bo_Base :: int64
  bo_Max :: int64
  bo_Factor :: float64
  bo_Jitter :: float64

definition DefaultBackoff :: Backoff where
  "DefaultBackoff =
     \<lparr>bo_Base = 500 * 1000000, bo_Max = 30 * 1000000000, bo_Factor = f_of_int 2,
      bo_Jitter = f_round False 3 10\<rparr>"

definition float_to_int64 :: "(float64 \<Rightarrow> int64) \<Rightarrow> float64 \<Rightarrow> int64" where
  "float_to_int64 conv f =
     (case f of
        FFin _ _ _ \<Rightarrow> if in_int64 (f_trunc f) then f_trunc f else conv f
      | _ \<Rightarrow> conv f)"

definition Delay :: "(float64 \<Rightarrow> int64) \<Rightarrow> Backoff \<Rightarrow> int64 \<Rightarrow> float64 \<Rightarrow> int64" where
  "Delay conv b attempt rnd =
     (let attempt = (if attempt < 0 then 0 else attempt);
          d = f_mul (f_of_int (bo_Base b)) (math_Pow (bo_Factor b) (f_trunc (f_of_int attempt)));
          d = (if f_less (f_of_int (bo_Max b)) d \<or> d = FInf False then f_of_int (bo_Max b) else d);
          d = (if f_less (f_zero False) (bo_Jitter b)
               then (let span = f_mul d (bo_Jitter b)
                     in f_add (f_sub d (f_div span (f_of_int 2))) (f_mul span rnd))
               else d);
          d = (if f_less d (f_zero False) then f_zero False else d)
      in float_to_int64 conv d)"

section \<open>The dialer\<close>

text \<open>
  \<open>websocket.Dialer\<close> is the library's: its \<open>DialContext\<close> is an argument, which returns
  the error and, when there was a response, its status code.
\<close>

record GorillaDialer =
  gd_HandshakeTimeout :: int64

record WebsocketDialer =
  wd_HandshakeTimeout :: int64
  wd_ReadBufferSize :: int
  wd_WriteBufferSize :: int

record gorillaConn =
  gc_ReadLimit :: int

definition Gorilla_Dial ::
  "(WebsocketDialer \<Rightarrow> string \<Rightarrow> (goerror \<times> int option) option) \<Rightarrow> GorillaDialer \<Rightarrow> string \<Rightarrow>
   gorillaConn result"
where
  "Gorilla_Dial DialContext g url =
     (let d = \<lparr>wd_HandshakeTimeout = (if gd_HandshakeTimeout g = 0 then 15 * 1000000000 else gd_HandshakeTimeout g),
               wd_ReadBufferSize = 64 * 1024, wd_WriteBufferSize = 16 * 1024\<rparr>
      in case DialContext d url of
           Some (err, Some status) \<Rightarrow>
             Inl (Errorf ''dial %s: %w (http %d)'' [url, FormatInt status] (Some err))
         | Some (err, None) \<Rightarrow> Inl (Errorf ''dial %s: %w'' [url] (Some err))
         | None \<Rightarrow> Inr \<lparr>gc_ReadLimit = 8388608\<rparr>)"

section \<open>One session\<close>

text \<open>The \<open>Decoder\<close> interface, over a decoder's state and the type of its messages.\<close>

record ('s, 'm) Decoder =
  dec_Name :: "'s \<Rightarrow> string"
  dec_URL :: "'s \<Rightarrow> string"
  dec_Subscriptions :: "'s \<Rightarrow> string list \<Rightarrow> 's \<times> 'm list"
  dec_Decode :: "'s \<Rightarrow> string \<Rightarrow> gotime \<Rightarrow> 's \<times> Event list result"

text \<open>
  One turn of the read loop: the context is done, the deadline cannot be set, the read
  fails, or a frame arrives. Every turn but the first kind starts with a clock reading for
  the deadline; a frame has its own for the decoder. While the events of a frame are sent,
  the context may be done after some of them.
\<close>

datatype read_step =
    CtxDone goerror
  | DeadlineFails gotime goerror
  | ReadFails gotime goerror
  | Delivers gotime string gotime "(nat \<times> goerror) option"

datatype 'm effect =
    Dialed string
  | Wrote 'm
  | Connected string
  | DeadlineSet gotime
  | Sent Event
  | ConnClosed
  | BackedOff int64

record Session_env =
  se_dial :: "string \<Rightarrow> goerror option"
  se_writes :: "nat \<Rightarrow> goerror option"
  se_reads :: "read_step list"

text \<open>
  The configuration of a runner. \<open>OnConnect\<close> acts on the decoder's own state (the reset
  hooks of \<open>main\<close>) and outside, which is the effect \<open>Connected\<close>.
\<close>

record 's Runner =
  r_Symbols :: "string list"
  r_Backoff :: Backoff
  r_ReadTimeout :: int64
  r_OnConnect :: "('s \<Rightarrow> string \<Rightarrow> 's) option"
  r_MaxAttempts :: int64

fun read_loop ::
  "('s, 'm) Decoder \<Rightarrow> 's Runner \<Rightarrow> string \<Rightarrow> 's \<Rightarrow> read_step list \<Rightarrow>
   's \<times> 'm effect list \<times> goerror option"
where
  "read_loop D r name s [] = (s, [], None)"
| "read_loop D r name s (CtxDone err # _) = (s, [], Some err)"
| "read_loop D r name s (DeadlineFails t err # _) =
     (s, [], Some (Errorf ''set read deadline %s: %w'' [name] (Some err)))"
| "read_loop D r name s (ReadFails t err # _) =
     (s, [DeadlineSet (t + r_ReadTimeout r)], Some (Errorf ''read %s: %w'' [name] (Some err)))"
| "read_loop D r name s (Delivers t raw now stop # steps) =
     (case dec_Decode D s raw now of
        (s1, Inl err) \<Rightarrow>
          (let (s2, fx, res) = read_loop D r name s1 steps
           in (s2, DeadlineSet (t + r_ReadTimeout r) # fx, res))
      | (s1, Inr events) \<Rightarrow>
          (case stop of
             Some (k, err) \<Rightarrow>
               if k < length events
               then (s1, DeadlineSet (t + r_ReadTimeout r) # map Sent (take k events), Some err)
               else (let (s2, fx, res) = read_loop D r name s1 steps
                     in (s2, DeadlineSet (t + r_ReadTimeout r) # map Sent events @ fx, res))
           | None \<Rightarrow>
               (let (s2, fx, res) = read_loop D r name s1 steps
                in (s2, DeadlineSet (t + r_ReadTimeout r) # map Sent events @ fx, res))))"

fun write_subs :: "string \<Rightarrow> (nat \<Rightarrow> goerror option) \<Rightarrow> nat \<Rightarrow> 'm list \<Rightarrow> 'm effect list \<times> goerror option" where
  "write_subs name writes i [] = ([], None)"
| "write_subs name writes i (sub # subs) =
     (case writes i of
        Some err \<Rightarrow> ([], Some (Errorf ''subscribe %s: %w'' [name] (Some err)))
      | None \<Rightarrow> (let (fx, res) = write_subs name writes (Suc i) subs in (Wrote sub # fx, res)))"

text \<open>The deferred \<open>Close\<close> runs when the session ends, whatever its error.\<close>

definition close_deferred :: "'m effect list \<Rightarrow> goerror option \<Rightarrow> 'm effect list" where
  "close_deferred fx res = (case res of None \<Rightarrow> fx | Some _ \<Rightarrow> fx @ [ConnClosed])"

definition session ::
  "('s, 'm) Decoder \<Rightarrow> 's Runner \<Rightarrow> 's \<Rightarrow> Session_env \<Rightarrow> 's \<times> 'm effect list \<times> goerror option"
where
  "session D r s env =
     (let name = dec_Name D s; url = dec_URL D s
      in case se_dial env url of
           Some err \<Rightarrow> (s, [Dialed url], Some err)
         | None \<Rightarrow>
             (let (s1, subs) = dec_Subscriptions D s (r_Symbols r);
                  (wfx, werr) = write_subs name (se_writes env) 0 subs
              in case werr of
                   Some err \<Rightarrow> (s1, Dialed url # close_deferred wfx werr, werr)
                 | None \<Rightarrow>
                     (let s2 = (case r_OnConnect r of None \<Rightarrow> s1 | Some f \<Rightarrow> f s1 name);
                          cfx = (case r_OnConnect r of None \<Rightarrow> [] | Some _ \<Rightarrow> [Connected name]);
                          (s3, fx, res) = read_loop D r name s2 (se_reads env)
                      in (s3, Dialed url # wfx @ cfx @ close_deferred fx res, res))))"

section \<open>Run\<close>

definition context_Canceled :: goerror where
  "context_Canceled = Sentinel ''context canceled''"

text \<open>
  One iteration of \<open>Run\<close> as its environment: whether the context is done at the head, the
  session, the random number for the delay, and whether the context is done before the
  delay has passed.
\<close>

record Round =
  rd_done :: bool
  rd_session :: Session_env
  rd_rnd :: float64
  rd_done_waiting :: bool

datatype run_result = RunPending | RunReturned "goerror option"

definition errGivingUp :: "string \<Rightarrow> int64 \<Rightarrow> goerror \<Rightarrow> goerror" where
  "errGivingUp name attempt err =
     Errorf ''venue %s: giving up after %d attempts: %w'' [name, FormatInt attempt] (Some err)"

fun reconnect_loop ::
  "(float64 \<Rightarrow> int64) \<Rightarrow> ('s, 'm) Decoder \<Rightarrow> 's Runner \<Rightarrow> string \<Rightarrow> 's \<Rightarrow> int64 \<Rightarrow> Round list \<Rightarrow>
   's \<times> 'm effect list \<times> run_result"
where
  "reconnect_loop conv D r name s attempt [] = (s, [], RunPending)"
| "reconnect_loop conv D r name s attempt (rd # rds) =
     (if rd_done rd then (s, [], RunReturned None)
      else case session D r s (rd_session rd) of
        (s1, fx, None) \<Rightarrow> (s1, fx, RunPending)
      | (s1, fx, Some err) \<Rightarrow>
          if errors_is err context_Canceled then (s1, fx, RunReturned None)
          else
            (let attempt = wrap64 (attempt + 1)
             in if 0 < r_MaxAttempts r \<and> r_MaxAttempts r \<le> attempt
                then (s1, fx, RunReturned (Some (errGivingUp name attempt err)))
                else
                  (let delay = Delay conv (r_Backoff r) (wrap64 (attempt - 1)) (rd_rnd rd)
                   in if rd_done_waiting rd then (s1, fx @ [BackedOff delay], RunReturned None)
                      else (let (s2, fx', res) = reconnect_loop conv D r name s1 attempt rds
                            in (s2, fx @ BackedOff delay # fx', res)))))"

definition runner_defaults :: "'s Runner \<Rightarrow> 's Runner" where
  "runner_defaults r =
     r\<lparr>r_Backoff := (if bo_Base (r_Backoff r) = 0 then DefaultBackoff else r_Backoff r),
       r_ReadTimeout := (if r_ReadTimeout r = 0 then 45 * 1000000000 else r_ReadTimeout r)\<rparr>"

definition Run ::
  "(float64 \<Rightarrow> int64) \<Rightarrow> ('s, 'm) Decoder \<Rightarrow> 's Runner \<Rightarrow> 's \<Rightarrow> Round list \<Rightarrow>
   's \<times> 'm effect list \<times> run_result"
where
  "Run conv D r s rounds = reconnect_loop conv D (runner_defaults r) (dec_Name D s) s 0 rounds"

section \<open>Reading a run\<close>

text \<open>The events sent, the delays waited, and the frames a script delivers before it ends.\<close>

fun sent :: "'m effect list \<Rightarrow> Event list" where
  "sent [] = []"
| "sent (Sent e # fx) = e # sent fx"
| "sent (_ # fx) = sent fx"

fun backoffs :: "'m effect list \<Rightarrow> int64 list" where
  "backoffs [] = []"
| "backoffs (BackedOff d # fx) = d # backoffs fx"
| "backoffs (_ # fx) = backoffs fx"

fun connects :: "'m effect list \<Rightarrow> string list" where
  "connects [] = []"
| "connects (Connected name # fx) = name # connects fx"
| "connects (_ # fx) = connects fx"

fun frames_of :: "read_step list \<Rightarrow> (string \<times> gotime) list" where
  "frames_of (Delivers t raw now stop # steps) = (raw, now) # frames_of steps"
| "frames_of _ = []"

fun ends_reading :: "read_step \<Rightarrow> bool" where
  "ends_reading (Delivers _ _ _ _) = False"
| "ends_reading _ = True"

fun uninterrupted :: "read_step \<Rightarrow> bool" where
  "uninterrupted (Delivers _ _ _ (Some _)) = False"
| "uninterrupted _ = True"

text \<open>The decoder's state when the session starts to read.\<close>

definition subscribed :: "('s, 'm) Decoder \<Rightarrow> 's Runner \<Rightarrow> 's \<Rightarrow> 's" where
  "subscribed D r s =
     (let s1 = fst (dec_Subscriptions D s (r_Symbols r))
      in case r_OnConnect r of None \<Rightarrow> s1 | Some f \<Rightarrow> f s1 (dec_Name D s))"

definition session_fails :: "('s, 'm) Decoder \<Rightarrow> 's Runner \<Rightarrow> Session_env \<Rightarrow> bool" where
  "session_fails D r env \<longleftrightarrow>
     (\<forall>s. \<exists>s' fx err. session D r s env = (s', fx, Some err) \<and> \<not> errors_is err context_Canceled)"

section \<open>Delays\<close>

lemma f_mul_at_least:
  assumes "f_range a b x" and "f_range c d y" and "is_float lo" and "0 \<le> a" and "0 \<le> c" and "lo \<le> a * c"
  shows "f_mul x y = FInf False \<or> f_range lo f_max (f_mul x y)"
proof -
  from assms(1) obtain m e n k where x: "x = FFin False m e" "f_ratio m e = (n, k)" "0 \<le> n" "0 < k"
    "a \<le> real_of_int n / real_of_int k" by (rule f_rangeE)
  from assms(2) obtain m' e' n' k' where y: "y = FFin False m' e'" "f_ratio m' e' = (n', k')" "0 \<le> n'" "0 < k'"
    "c \<le> real_of_int n' / real_of_int k'" by (rule f_rangeE)
  have "a * c \<le> (real_of_int n / real_of_int k) * (real_of_int n' / real_of_int k')"
    using x(3-5) y(5) assms(4,5) by (intro mult_mono) auto
  then have "lo \<le> real_of_int (n * n') / real_of_int (k * k')" using assms(6) by simp
  then have "f_round False (n * n') (k * k') = FInf False \<or> f_range lo f_max (f_round False (n * n') (k * k'))"
    using x(3,4) y(3,4) assms(3) by (intro f_round_at_least) auto
  then show ?thesis by (simp add: x(1,2) y(1,2))
qed

lemma attempt_float:
  assumes "0 \<le> n" and "n \<le> max_int64"
  shows "f_trunc (f_of_int n) = n \<or> 9007199254740992 \<le> n \<and> 9007199254740992 \<le> f_trunc (f_of_int n)"
proof (cases "n \<le> 9007199254740992")
  case True
  from f_trunc_range [OF f_of_int_range [OF assms(1) True]] show ?thesis by auto
next
  case False
  have "is_float 9223372036854775808" using is_float_scaled [of 1 63 1137] by simp
  moreover have "is_float 9007199254740992" using is_float_int [of 9007199254740992] by simp
  ultimately have "f_range 9007199254740992 9223372036854775808 (f_of_int n)"
    unfolding f_of_int_def using False assms by (simp, intro f_round_range, auto)
  then show ?thesis using False f_trunc_range by fastforce
qed

text \<open>The delay before jitter: base times power, capped.\<close>

definition capped :: "Backoff \<Rightarrow> int64 \<Rightarrow> float64" where
  "capped b attempt =
     (let d = f_mul (f_of_int (bo_Base b)) (math_Pow (bo_Factor b) (f_trunc (f_of_int attempt)))
      in if f_less (f_of_int (bo_Max b)) d \<or> d = FInf False then f_of_int (bo_Max b) else d)"

definition jittered :: "float64 \<Rightarrow> float64 \<Rightarrow> float64 \<Rightarrow> float64" where
  "jittered d jitter rnd =
     (let span = f_mul d jitter in f_add (f_sub d (f_div span (f_of_int 2))) (f_mul span rnd))"

lemma Delay_range:
  assumes "f_range lo hi (if f_less (f_zero False) (bo_Jitter b)
      then jittered (capped b attempt) (bo_Jitter b) rnd else capped b attempt)"
    and "0 \<le> attempt" and "hi \<le> 9007199254740992"
  shows "\<lfloor>lo\<rfloor> \<le> Delay conv b attempt rnd" and "of_int (Delay conv b attempt rnd) \<le> hi"
    and "0 \<le> Delay conv b attempt rnd"
proof -
  let ?d = "if f_less (f_zero False) (bo_Jitter b)
      then jittered (capped b attempt) (bo_Jitter b) rnd else capped b attempt"
  have "f_range 0 0 (f_zero False)" by (simp add: f_range_def f_zero_def float_wf_def)
  moreover have "f_range 0 hi ?d" using assms(1) by (rule f_range_zero)
  ultimately have "\<not> f_less ?d (f_zero False)" using f_less_range(2) [of 0 hi ?d 0 0] by blast
  moreover have pos: "\<not> attempt < 0" using assms(2) by simp
  have "Delay conv b attempt rnd = float_to_int64 conv (if f_less ?d (f_zero False) then f_zero False else ?d)"
    unfolding Delay_def capped_def jittered_def Let_def if_not_P [OF pos] by (rule refl)
  ultimately have D: "Delay conv b attempt rnd = float_to_int64 conv ?d" by (simp only: if_False)
  note t = f_trunc_range [OF assms(1)]
  have "in_int64 (f_trunc ?d)" using t assms(3) by (simp add: in_int64_def)
  then have "float_to_int64 conv ?d = f_trunc ?d"
    using assms(1) by (auto simp: float_to_int64_def f_range_def)
  with D t show "\<lfloor>lo\<rfloor> \<le> Delay conv b attempt rnd" "of_int (Delay conv b attempt rnd) \<le> hi"
    "0 \<le> Delay conv b attempt rnd" by simp_all
qed

lemma capped_default:
  assumes "0 \<le> attempt" and "attempt \<le> max_int64"
  shows "capped DefaultBackoff attempt =
           f_of_int (if attempt < 6 then 500000000 * 2 ^ nat attempt else 30000000000)"
proof (cases "attempt < 6")
  case True
  then have "attempt \<in> {0, 1, 2, 3, 4, 5}" using assms(1) by auto
  moreover have "capped DefaultBackoff 0 = f_of_int 500000000" "capped DefaultBackoff 1 = f_of_int 1000000000"
    "capped DefaultBackoff 2 = f_of_int 2000000000" "capped DefaultBackoff 3 = f_of_int 4000000000"
    "capped DefaultBackoff 4 = f_of_int 8000000000" "capped DefaultBackoff 5 = f_of_int 16000000000"
    by code_simp+
  ultimately show ?thesis by auto
next
  case False
  define y where "y = f_trunc (f_of_int attempt)"
  have y: "6 \<le> y" using attempt_float [OF assms] False by (auto simp: y_def)
  have two: "bo_Factor DefaultBackoff = p2 1" and base: "bo_Base DefaultBackoff = 500000000"
    and mx: "bo_Max DefaultBackoff = 30000000000"
    by (simp_all add: DefaultBackoff_def) code_simp
  have b: "f_range 500000000 500000000 (f_of_int 500000000)" "f_range 30000000000 30000000000 (f_of_int 30000000000)"
    using f_of_int_range [of 500000000] f_of_int_range [of 30000000000] by simp_all
  let ?d = "f_mul (f_of_int 500000000) (math_Pow (p2 1) y)"
  have "?d = FInf False \<or> f_range 32000000000 f_max ?d"
  proof (cases "y \<le> 1023")
    case True
    have "(2::real) powi 6 \<le> 2 powi y" using y by (rule powi_mono)
    then have "f_range 64 (2 powi y) (p2 y)"
      using p2_wf [of y] y True p2_value [of y] by (auto simp: f_range_def p2_def)
    from f_mul_at_least [OF b(1) this, of 32000000000] is_float_int [of 32000000000]
    show ?thesis using math_Pow_two [of y] y True by simp
  next
    case False
    obtain m e n k where x: "f_of_int 500000000 = FFin False m e" "f_ratio m e = (n, k)"
      "500000000 \<le> real_of_int n / real_of_int k" using b(1) by (rule f_rangeE) blast
    then have "m \<noteq> 0" by (auto simp: f_ratio_def split: if_splits)
    with x(1) show ?thesis using math_Pow_two [of y] y False by simp
  qed
  then have "f_less (f_of_int 30000000000) ?d \<or> ?d = FInf False"
    using f_less_range(1) [OF b(2)] by force
  then show ?thesis using False by (simp add: capped_def two base mx flip: y_def)
qed

lemma jittered_default:
  assumes "d \<in> {500000000, 1000000000, 2000000000, 4000000000, 8000000000, 16000000000, 30000000000}"
    and "f_range 0 1 rnd"
  shows "f_range (of_int (85 * d div 100)) (of_int (115 * d div 100))
           (jittered (f_of_int d) (bo_Jitter DefaultBackoff) rnd)"
proof -
  let ?J = "bo_Jitter DefaultBackoff"
  have "f_mul (f_of_int d) ?J = f_of_int (30 * d div 100) \<and>
      f_sub (f_of_int d) (f_div (f_of_int (30 * d div 100)) (f_of_int 2)) = f_of_int (85 * d div 100)"
    using assms(1) by (elim insertE emptyE; hypsubst; code_simp)
  then have j: "jittered (f_of_int d) ?J rnd = f_add (f_of_int (85 * d div 100)) (f_mul (f_of_int (30 * d div 100)) rnd)"
    by (simp add: jittered_def Let_def)
  have s: "30 * d div 100 + 85 * d div 100 = 115 * d div 100" "0 \<le> d" "d \<le> 30000000000"
    using assms(1) by auto
  have "f_range 0 (of_int (30 * d div 100)) (f_mul (f_of_int (30 * d div 100)) rnd)"
    using f_of_int_range [of "30 * d div 100"] is_float_int [of 0] is_float_int [of "30 * d div 100"] s assms(2)
    by (intro f_mul_range [of "of_int (30 * d div 100)" "of_int (30 * d div 100)" _ 0 1]) auto
  moreover have "f_range (of_int (85 * d div 100)) (of_int (85 * d div 100)) (f_of_int (85 * d div 100))"
    using f_of_int_range [of "85 * d div 100"] s by simp
  ultimately show ?thesis
    unfolding j using is_float_int [of "85 * d div 100"] is_float_int [of "115 * d div 100"] s
    by (intro f_add_range) (auto simp flip: s(1))
qed

lemma default_jitter_on: "f_less (f_zero False) (bo_Jitter DefaultBackoff)"
  by code_simp

definition default_delay :: "int64 \<Rightarrow> int64" where
  "default_delay attempt = (if attempt < 6 then 500000000 * 2 ^ nat attempt else 30000000000)"

lemma Delay_default:
  assumes "0 \<le> attempt" and "attempt \<le> max_int64" and "f_range 0 1 rnd"
  shows "85 * default_delay attempt div 100 \<le> Delay conv DefaultBackoff attempt rnd"
    and "Delay conv DefaultBackoff attempt rnd \<le> 115 * default_delay attempt div 100"
proof -
  let ?d = "default_delay attempt"
  have d: "?d \<in> {500000000, 1000000000, 2000000000, 4000000000, 8000000000, 16000000000, 30000000000}"
  proof (cases "attempt < 6")
    case True
    then have "attempt \<in> {0, 1, 2, 3, 4, 5}" using assms(1) by auto
    then show ?thesis by (auto simp: default_delay_def)
  qed (simp add: default_delay_def)
  then have "?d \<le> 30000000000" by auto
  then have "of_int (115 * ?d div 100) \<le> (9007199254740992 :: real)" by linarith
  from Delay_range [where b = DefaultBackoff, OF _ assms(1) this, of "of_int (85 * ?d div 100)" rnd conv]
    jittered_default [OF d assms(3)] default_jitter_on capped_default [OF assms(1,2)]
  show "85 * ?d div 100 \<le> Delay conv DefaultBackoff attempt rnd"
    and "Delay conv DefaultBackoff attempt rnd \<le> 115 * ?d div 100"
    by (simp_all add: default_delay_def)
qed

text \<open>
  With a jitter in the documented range and a factor that is a non-negative number, the
  delay is a number between zero and twice the maximum.
\<close>

lemma capped_range:
  assumes "0 < bo_Base b" and "bo_Base b \<le> 9007199254740992" and "f_nonneg (bo_Factor b)"
    and "0 \<le> bo_Max b" and "bo_Max b \<le> 9007199254740992"
  shows "f_range 0 (of_int (bo_Max b)) (capped b attempt)"
proof -
  let ?p = "math_Pow (bo_Factor b) (f_trunc (f_of_int attempt))" and ?M = "f_of_int (bo_Max b)"
  let ?d = "f_mul (f_of_int (bo_Base b)) ?p"
  have M: "f_range (of_int (bo_Max b)) (of_int (bo_Max b)) ?M" using f_of_int_range assms(4,5) by blast
  have "f_nonneg (f_mul ?p (f_of_int (bo_Base b)))"
    using assms(1,2) math_Pow_nonneg [OF assms(3)] f_of_int_range [of "bo_Base b"]
    by (intro f_mul_nonneg [of _ "of_int (bo_Base b)"]) auto
  then have "f_nonneg ?d" by (simp add: f_mul_commute)
  then have "?d = FInf False \<or> f_range 0 f_max ?d" by (rule f_nonneg_range)
  then show ?thesis
  proof
    assume "?d = FInf False"
    then show ?thesis using f_range_zero [OF M] by (simp add: capped_def)
  next
    assume r: "f_range 0 f_max ?d"
    then obtain v where v: "f_range v v ?d" by (rule f_range_is_float)
    show ?thesis
    proof (cases "f_less ?M ?d \<or> ?d = FInf False")
      case True
      then show ?thesis using f_range_zero [OF M] by (simp add: capped_def)
    next
      case False
      then have "v \<le> of_int (bo_Max b)" using f_less_range(1) [OF M v] by linarith
      with v have "f_range 0 (of_int (bo_Max b)) ?d" using f_range_zero f_range_weaken by blast
      with False show ?thesis by (simp add: capped_def)
    qed
  qed
qed

lemma jittered_range:
  assumes "f_range 0 (of_int mx) d" and "f_range 0 1 jitter" and "f_range 0 1 rnd" and "0 \<le> mx" and "mx \<le> 4503599627370496"
  shows "f_range 0 (of_int (2 * mx)) (jittered d jitter rnd)"
proof -
  from assms(1) obtain v where v: "f_range v v d" "is_float v" "0 \<le> v" "v \<le> of_int mx" by (rule f_range_is_float)
  note z = is_float_int [of 0, simplified]
  have span: "f_range 0 v (f_mul d jitter)" using v z assms(2) by (intro f_mul_range [of v v _ 0 1]) auto
  have "f_range 2 2 (f_of_int 2)" using f_of_int_range [of 2] by simp
  with span v z have "f_range 0 v (f_div (f_mul d jitter) (f_of_int 2))"
    by (intro f_div_range [of 0 v _ 2 2]) auto
  with v z have A: "f_range 0 v (f_sub d (f_div (f_mul d jitter) (f_of_int 2)))"
    by (intro f_sub_range [of v v _ 0 v]) auto
  have "f_range 0 v (f_mul (f_mul d jitter) rnd)" 
    by (rule f_mul_range [OF span assms(3)]) (use v z in auto)
  with A v z show ?thesis
    unfolding jittered_def Let_def using is_float_int [of "2 * mx"] assms(4,5) by (intro f_add_range) auto
qed

section \<open>Sessions\<close>

lemma connects_iff: "name \<in> set (connects fx) \<longleftrightarrow> Connected name \<in> set fx"
  by (induction fx rule: connects.induct) auto

lemma sent_append [simp]: "sent (xs @ ys) = sent xs @ sent ys"
  by (induction xs rule: sent.induct) auto

lemma sent_map [simp]: "sent (map Sent es) = es" "sent (map Wrote ms) = []"
  by (induction es, auto) (induction ms, auto)

lemma backoffs_append [simp]: "backoffs (xs @ ys) = backoffs xs @ backoffs ys"
  by (induction xs rule: backoffs.induct) auto

text \<open>A delivered frame either ends the session while its events are sent or the loop goes on.\<close>

definition frame_events :: "Event list result \<Rightarrow> Event list" where
  "frame_events d = (case d of Inl _ \<Rightarrow> [] | Inr es \<Rightarrow> es)"

lemma pump_Cons:
  "dec s raw now = (s1, d) \<Longrightarrow>
     pump dec s ((raw, now) # fs) = (fst (pump dec s1 fs), frame_events d @ snd (pump dec s1 fs))"
  by (cases d) (auto simp: frame_events_def split_beta)

lemma read_loop_Delivers:
  assumes "read_loop D r name s (Delivers t raw now stop # steps) = (s', fx, res)"
  obtains
    (cut) es k err where "dec_Decode D s raw now = (s', Inr es)" "stop = Some (k, err)" "k < length es"
      "fx = DeadlineSet (t + r_ReadTimeout r) # map Sent (take k es)" "res = Some err"
  | (on) s1 d fx1 where "dec_Decode D s raw now = (s1, d)" "read_loop D r name s1 steps = (s', fx1, res)"
      "fx = DeadlineSet (t + r_ReadTimeout r) # map Sent (frame_events d) @ fx1"
proof -
  obtain s1 d where d: "dec_Decode D s raw now = (s1, d)" by fastforce
  show ?thesis
  proof (cases "\<exists>es k err. d = Inr es \<and> stop = Some (k, err) \<and> k < length es")
    case True
    with assms d cut show ?thesis by auto
  next
    case False
    obtain s2 fx1 res1 where l: "read_loop D r name s1 steps = (s2, fx1, res1)" by (metis prod_cases3)
    have "(s', fx, res) = (s2, DeadlineSet (t + r_ReadTimeout r) # map Sent (frame_events d) @ fx1, res1)"
      using assms d l False by (cases d; cases stop) (auto simp: frame_events_def)
    with d l on [of s1 d fx1] show ?thesis by simp
  qed
qed

lemma read_loop_sent:
  assumes "read_loop D r name s steps = (s', fx, res)"
  shows "prefix (sent fx) (snd (pump (dec_Decode D) s (frames_of steps)))
       \<and> (list_all uninterrupted steps \<longrightarrow> pump (dec_Decode D) s (frames_of steps) = (s', sent fx))"
  using assms
proof (induction steps arbitrary: s s' fx res)
  case (Cons st steps)
  show ?case
  proof (cases st)
    case (Delivers t raw now stop)
    with Cons.prems have "read_loop D r name s (Delivers t raw now stop # steps) = (s', fx, res)" by simp
    then show ?thesis
    proof (cases rule: read_loop_Delivers)
      case (cut es k err)
      have "prefix (take k es) (es @ ys)" for ys
        by (rule prefixI [of _ _ "drop k es @ ys"]) (simp flip: append.assoc)
      with cut Delivers show ?thesis by (simp add: split_beta)
    next
      case (on s1 d fx1)
      with Cons.IH [OF on(2)] Delivers show ?thesis
        by (cases stop) (auto simp: pump_Cons [of "dec_Decode D", OF on(1)] simp del: pump.simps)
    qed
  qed (use Cons.prems in auto)
qed auto

lemma read_loop_ends:
  "read_loop D r name s steps = (s', fx, None) \<Longrightarrow> list_all (Not \<circ> ends_reading) steps"
proof (induction steps arbitrary: s s' fx)
  case (Cons st steps)
  show ?case
  proof (cases st)
    case (Delivers t raw now stop)
    with Cons.prems have "read_loop D r name s (Delivers t raw now stop # steps) = (s', fx, None)" by simp
    then show ?thesis by (cases rule: read_loop_Delivers) (use Cons.IH Delivers in auto)
  qed (use Cons.prems in auto)
qed simp

lemma read_loop_effects:
  "read_loop D r name s steps = (s', fx, res) \<Longrightarrow> x \<in> set fx \<Longrightarrow> (\<exists>t. x = DeadlineSet t) \<or> (\<exists>e. x = Sent e)"
proof (induction steps arbitrary: s s' fx res)
  case (Cons st steps)
  show ?case
  proof (cases st)
    case (Delivers t raw now stop)
    with Cons.prems have "read_loop D r name s (Delivers t raw now stop # steps) = (s', fx, res)" by simp
    then show ?thesis by (cases rule: read_loop_Delivers) (use Cons in auto)
  qed (use Cons.prems in auto)
qed simp

lemma read_loop_hd:
  "read_loop D r name s steps = (s', fx, res) \<Longrightarrow> fx = [] \<or> (\<exists>t. hd fx = DeadlineSet t)"
proof (cases steps)
  case (Cons st steps')
  assume l: "read_loop D r name s steps = (s', fx, res)"
  show ?thesis
  proof (cases st)
    case (Delivers t raw now stop)
    with l Cons have "read_loop D r name s (Delivers t raw now stop # steps') = (s', fx, res)" by simp
    then show ?thesis by (cases rule: read_loop_Delivers) auto
  qed (use l Cons in auto)
qed simp

lemma split_after_prefix:
  "A @ B = pre @ x # post \<Longrightarrow> x \<notin> set A \<Longrightarrow> \<exists>mid. pre = A @ mid \<and> B = mid @ x # post"
  by (induction A arbitrary: pre) (auto simp: Cons_eq_append_conv)

lemma write_subs_spec:
  "write_subs name writes i subs = (fx, res) \<Longrightarrow>
     \<exists>k \<le> length subs. fx = map Wrote (take k subs) \<and> (res = None \<longleftrightarrow> k = length subs)
       \<and> (res = None \<longleftrightarrow> (\<forall>j < length subs. writes (i + j) = None))"
proof (induction subs arbitrary: i fx res)
  case (Cons sub subs)
  show ?case
  proof (cases "writes i")
    case None
    obtain fx' res' where w: "write_subs name writes (Suc i) subs = (fx', res')" by fastforce
    from Cons.IH [OF w] obtain k where k: "k \<le> length subs" "fx' = map Wrote (take k subs)"
      "res' = None \<longleftrightarrow> k = length subs" "res' = None \<longleftrightarrow> (\<forall>j < length subs. writes (Suc i + j) = None)" by blast
    have all: "(\<forall>j < length (sub # subs). writes (i + j) = None) \<longleftrightarrow> (\<forall>j < length subs. writes (Suc i + j) = None)"
      using None by (auto simp: less_Suc_eq_0_disj)
    show ?thesis
      using Cons.prems None w k all by (intro exI [of _ "Suc k"]) auto
  next
    case (Some err)
    with Cons.prems show ?thesis by (intro exI [of _ 0]) force
  qed
qed auto

text \<open>The stages of a session, as the cases a proof about it goes through.\<close>

lemma session_cases:
  assumes "session D r s env = (s', fx, res)"
  obtains
    (refused) err where "se_dial env (dec_URL D s) = Some err" "s' = s" "fx = [Dialed (dec_URL D s)]" "res = Some err"
  | (unsubscribed) k err where "se_dial env (dec_URL D s) = None"
      "k < length (snd (dec_Subscriptions D s (r_Symbols r)))" "\<exists>j. se_writes env j \<noteq> None" "res = Some err"
      "fx = Dialed (dec_URL D s) # map Wrote (take k (snd (dec_Subscriptions D s (r_Symbols r)))) @ [ConnClosed]"
  | (reading) rfx where "se_dial env (dec_URL D s) = None"
      "read_loop D r (dec_Name D s) (subscribed D r s) (se_reads env) = (s', rfx, res)"
      "fx = Dialed (dec_URL D s) # map Wrote (snd (dec_Subscriptions D s (r_Symbols r)))
         @ (case r_OnConnect r of None \<Rightarrow> [] | Some _ \<Rightarrow> [Connected (dec_Name D s)]) @ close_deferred rfx res"
proof (cases "se_dial env (dec_URL D s)")
  case (Some err)
  with assms show ?thesis by (intro refused [of err]) (auto simp: session_def)
next
  case None
  obtain s1 subs where sub: "dec_Subscriptions D s (r_Symbols r) = (s1, subs)" by fastforce
  obtain wfx werr where w: "write_subs (dec_Name D s) (se_writes env) 0 subs = (wfx, werr)" by fastforce
  from write_subs_spec [OF w] obtain k where k: "k \<le> length subs" "wfx = map Wrote (take k subs)"
    "werr = None \<longleftrightarrow> k = length subs" "werr = None \<longleftrightarrow> (\<forall>j < length subs. se_writes env (0 + j) = None)" by blast
  show ?thesis
  proof (cases werr)
    case (Some err)
    with assms None sub w k show ?thesis
      by (intro unsubscribed [of k err]) (auto simp: session_def close_deferred_def)
  next
    case ok: None
    obtain s3 rfx rres where l: "read_loop D r (dec_Name D s) (subscribed D r s) (se_reads env) = (s3, rfx, rres)"
      by (metis prod_cases3)
    with assms None sub w k ok show ?thesis
      by (intro reading [of rfx]) (auto simp: session_def subscribed_def)
  qed
qed

lemma session_ends:
  assumes "list_ex ends_reading (se_reads env)"
  shows "snd (snd (session D r s env)) \<noteq> None"
proof -
  obtain s' fx res where e: "session D r s env = (s', fx, res)" by (metis prod_cases3)
  then have "res \<noteq> None"
  proof (cases rule: session_cases)
    case (reading rfx)
    with read_loop_ends [of D r "dec_Name D s" "subscribed D r s" "se_reads env" s' rfx] assms show ?thesis
      by (auto simp: list_all_iff list_ex_iff)
  qed auto
  with e show ?thesis by simp
qed

section \<open>The reconnect loop\<close>

lemma session_no_backoff: "session D r s env = (s', fx, res) \<Longrightarrow> backoffs fx = []"
proof -
  have none: "(\<And>x. x \<in> set fx \<Longrightarrow> \<forall>d. x \<noteq> BackedOff d) \<Longrightarrow> backoffs fx = []" for fx :: "'m effect list"
    by (induction fx rule: backoffs.induct) auto
  assume "session D r s env = (s', fx, res)"
  then show ?thesis
  proof (cases rule: session_cases)
    case (reading rfx)
    then show ?thesis using read_loop_effects [OF reading(2)]
      by (intro none) (auto simp: close_deferred_def split: option.splits)
  qed (auto intro!: none)
qed

text \<open>
  One iteration that fails and is not cancelled: it waits and goes on, or gives up at
  the bound.
\<close>

lemma reconnect_fail:
  assumes "session_fails D r (rd_session rd)" and "\<not> rd_done rd" and "\<not> rd_done_waiting rd"
    and "0 \<le> a" and "a < max_int64"
  obtains s1 fx err where "session D r s (rd_session rd) = (s1, fx, Some err)" "backoffs fx = []"
    "reconnect_loop conv D r name s a (rd # rds) =
       (if 0 < r_MaxAttempts r \<and> r_MaxAttempts r \<le> a + 1
        then (s1, fx, RunReturned (Some (errGivingUp name (a + 1) err)))
        else (let (s2, fx', res) = reconnect_loop conv D r name s1 (a + 1) rds
              in (s2, fx @ BackedOff (Delay conv (r_Backoff r) a (rd_rnd rd)) # fx', res)))"
proof -
  obtain s1 fx err where e: "session D r s (rd_session rd) = (s1, fx, Some err)" "\<not> errors_is err context_Canceled"
    using assms(1) by (auto simp: session_fails_def) metis
  have w: "wrap64 (a + 1) = a + 1" "wrap64 a = a" using assms(4,5) by (auto simp: wrap_simps in_int64_def wrap64_def)
  show thesis
    using e assms(2,3) w session_no_backoff [OF e(1)] by (intro that [of s1 fx err]) (simp_all add: Let_def)
qed

lemma reconnect_gives_up:
  assumes "\<forall>rd \<in> set rounds. session_fails D r (rd_session rd) \<and> \<not> rd_done rd \<and> \<not> rd_done_waiting rd"
    and "0 \<le> a" and "a < r_MaxAttempts r" and "r_MaxAttempts r \<le> max_int64"
    and "r_MaxAttempts r \<le> a + int (length rounds)"
  shows "\<exists>s' fx err. reconnect_loop conv D r name s a rounds =
           (s', fx, RunReturned (Some (errGivingUp name (r_MaxAttempts r) err)))
         \<and> int (length (backoffs fx)) = r_MaxAttempts r - a - 1"
  using assms
proof (induction rounds arbitrary: s a)
  case (Cons rd rds)
  have fail: "session_fails D r (rd_session rd)" "\<not> rd_done rd" "\<not> rd_done_waiting rd" "a < max_int64"
    using Cons.prems by auto
  obtain s1 fx err where e: "backoffs fx = []"
    "reconnect_loop conv D r name s a (rd # rds) =
       (if 0 < r_MaxAttempts r \<and> r_MaxAttempts r \<le> a + 1
        then (s1, fx, RunReturned (Some (errGivingUp name (a + 1) err)))
        else (let (s2, fx', res) = reconnect_loop conv D r name s1 (a + 1) rds
              in (s2, fx @ BackedOff (Delay conv (r_Backoff r) a (rd_rnd rd)) # fx', res)))"
    using reconnect_fail [OF fail(1-3) Cons.prems(2) fail(4)] by metis
  show ?case
  proof (cases "r_MaxAttempts r \<le> a + 1")
    case True
    then have "r_MaxAttempts r = a + 1" using Cons.prems(3) by simp
    with e Cons.prems show ?thesis by auto
  next
    case False
    with Cons.IH [of "a + 1" s1] Cons.prems obtain s2 fx' err' where
      "reconnect_loop conv D r name s1 (a + 1) rds = (s2, fx', RunReturned (Some (errGivingUp name (r_MaxAttempts r) err')))"
      "int (length (backoffs fx')) = r_MaxAttempts r - (a + 1) - 1" by auto
    with e False Cons.prems show ?thesis by auto
  qed
qed simp

lemma reconnect_terminates:
  assumes "\<forall>rd \<in> set rounds. list_ex ends_reading (se_reads (rd_session rd))"
    and "0 \<le> a" and "a < r_MaxAttempts r" and "r_MaxAttempts r \<le> max_int64"
    and "r_MaxAttempts r \<le> a + int (length rounds)"
  shows "snd (snd (reconnect_loop conv D r name s a rounds)) \<noteq> RunPending
       \<and> reconnect_loop conv D r name s a rounds =
         reconnect_loop conv D r name s a (take (nat (r_MaxAttempts r - a)) rounds)"
  using assms
proof (induction rounds arbitrary: s a)
  case (Cons rd rds)
  obtain s1 fx res where e: "session D r s (rd_session rd) = (s1, fx, res)" by (metis prod_cases3)
  with session_ends [of "rd_session rd" D r s] Cons.prems(1) obtain err where res: "res = Some err" by auto
  have w: "wrap64 (a + 1) = a + 1" "wrap64 a = a" using Cons.prems by (auto simp: in_int64_def wrap64_def)
  have n: "nat (r_MaxAttempts r - a) = Suc (nat (r_MaxAttempts r - (a + 1)))" using Cons.prems(3) by simp
  show ?case
  proof (cases "r_MaxAttempts r \<le> a + 1")
    case True
    with e res w n Cons.prems show ?thesis by (auto simp: Let_def)
  next
    case False
    with Cons.IH [of "a + 1" s1] Cons.prems have
      "snd (snd (reconnect_loop conv D r name s1 (a + 1) rds)) \<noteq> RunPending"
      "reconnect_loop conv D r name s1 (a + 1) rds =
         reconnect_loop conv D r name s1 (a + 1) (take (nat (r_MaxAttempts r - (a + 1))) rds)" by auto
    with e res w n False show ?thesis by (auto simp: Let_def split_beta)
  qed
qed simp

lemma reconnect_reaches:
  assumes "\<forall>rd \<in> set pre. session_fails D r (rd_session rd) \<and> \<not> rd_done rd \<and> \<not> rd_done_waiting rd"
    and "r_MaxAttempts r \<le> 0" and "0 \<le> a" and "a + int (length pre) \<le> max_int64"
  shows "\<exists>s1 fx1. reconnect_loop conv D r name s a (pre @ rds) =
           (let (s2, fx2, res) = reconnect_loop conv D r name s1 (a + int (length pre)) rds in (s2, fx1 @ fx2, res))
         \<and> backoffs fx1 = map (\<lambda>i. Delay conv (r_Backoff r) (a + int i) (rd_rnd (pre ! i))) [0..<length pre]"
  using assms
proof (induction pre arbitrary: s a)
  case (Cons rd pre)
  have fail: "session_fails D r (rd_session rd)" "\<not> rd_done rd" "\<not> rd_done_waiting rd" "a < max_int64"
    using Cons.prems by auto
  obtain s1 fx err where e: "backoffs fx = []"
    "reconnect_loop conv D r name s a (rd # pre @ rds) =
       (if 0 < r_MaxAttempts r \<and> r_MaxAttempts r \<le> a + 1
        then (s1, fx, RunReturned (Some (errGivingUp name (a + 1) err)))
        else (let (s2, fx', res) = reconnect_loop conv D r name s1 (a + 1) (pre @ rds)
              in (s2, fx @ BackedOff (Delay conv (r_Backoff r) a (rd_rnd rd)) # fx', res)))"
    using reconnect_fail [OF fail(1-3) Cons.prems(3) fail(4)] by metis
  from Cons.IH [of "a + 1" s1] Cons.prems obtain s2 fx1 where
    ih: "reconnect_loop conv D r name s1 (a + 1) (pre @ rds) =
           (let (s3, fx2, res) = reconnect_loop conv D r name s2 (a + 1 + int (length pre)) rds in (s3, fx1 @ fx2, res))"
      "backoffs fx1 = map (\<lambda>i. Delay conv (r_Backoff r) (a + 1 + int i) (rd_rnd (pre ! i))) [0..<length pre]"
    by auto
  have "map (\<lambda>i. Delay conv (r_Backoff r) (a + int i) (rd_rnd ((rd # pre) ! i))) [0..<length (rd # pre)] =
      Delay conv (r_Backoff r) a (rd_rnd rd) # backoffs fx1"
    unfolding ih(2) by (simp add: map_upt_Suc add.assoc del: upt_Suc)
  moreover have "reconnect_loop conv D r name s a (rd # pre @ rds) =
      (let (s3, fx2, res) = reconnect_loop conv D r name s2 (a + int (length (rd # pre))) rds
       in (s3, (fx @ BackedOff (Delay conv (r_Backoff r) a (rd_rnd rd)) # fx1) @ fx2, res))"
    using e(2) ih(1) Cons.prems(2) by (simp add: split_beta Let_def add.assoc del: reconnect_loop.simps)
  ultimately show ?case
    using e(1) by (intro exI [of _ s2] exI [of _ "fx @ BackedOff (Delay conv (r_Backoff r) a (rd_rnd rd)) # fx1"])
      (simp del: reconnect_loop.simps upt_Suc)
next
  case Nil
  show ?case by (intro exI [of _ s] exI [of _ "[]"]) (simp add: split_beta)
qed

lemma reconnect_never_errors:
  "r_MaxAttempts r \<le> 0 \<Longrightarrow> reconnect_loop conv D r name s a rounds = (s', fx, RunReturned e) \<Longrightarrow> e = None"
proof (induction rounds arbitrary: s a s' fx)
  case (Cons rd rds)
  obtain s1 fx1 res where e: "session D r s (rd_session rd) = (s1, fx1, res)" by (metis prod_cases3)
  show ?case
  proof (cases "e = None")
    case False
    with Cons.prems e obtain err where "res = Some err" "\<not> errors_is err context_Canceled" "\<not> rd_done rd"
      by (cases res) (auto split: if_splits)
    with Cons.prems e False obtain fx2 where
      "reconnect_loop conv D r name s1 (wrap64 (a + 1)) rds = (s', fx2, RunReturned e)"
      by (auto simp: Let_def split: if_splits prod.splits)
    with Cons.IH Cons.prems(1) show ?thesis by blast
  qed
qed simp

lemma defaults_keep [simp]:
  "r_MaxAttempts (runner_defaults r) = r_MaxAttempts r"
  by (simp add: runner_defaults_def)

section \<open>Properties of delays\<close>

text \<open>
  The waits of the default policy: before the n-th reconnect the runner waits half a
  second doubled n times, at most thirty seconds, give or take fifteen percent, to the
  nanosecond and whatever the random number is.
\<close>

theorem default_delays:
  assumes "0 \<le> attempt" and "attempt \<le> max_int64" and "f_range 0 1 rnd"
  shows "let d = (if attempt < 6 then 500000000 * 2 ^ nat attempt else 30000000000)
         in 85 * d div 100 \<le> Delay conv DefaultBackoff attempt rnd
          \<and> Delay conv DefaultBackoff attempt rnd \<le> 115 * d div 100"
  using Delay_default [OF assms] by (simp add: default_delay_def Let_def)

theorem default_delays_witness:
  "85 * 30000000000 div 100 \<le> Delay (\<lambda>_. 0) DefaultBackoff 6 (f_round False 9 10)
   \<and> Delay (\<lambda>_. 0) DefaultBackoff 6 (f_round False 9 10) \<le> 115 * 30000000000 div 100
   \<and> bo_Max DefaultBackoff < Delay (\<lambda>_. 0) DefaultBackoff 6 (f_round False 9 10)"
proof -
  have "f_range 0 1 (f_round False 9 10)"
    using is_float_int [of 0] is_float_int [of 1] by (intro f_round_range) auto
  from default_delays [OF _ _ this, of 6 "\<lambda>_. 0"]
  have "85 * 30000000000 div 100 \<le> Delay (\<lambda>_. 0) DefaultBackoff 6 (f_round False 9 10)
     \<and> Delay (\<lambda>_. 0) DefaultBackoff 6 (f_round False 9 10) \<le> 115 * 30000000000 div 100" by simp
  moreover have "bo_Max DefaultBackoff < Delay (\<lambda>_. 0) DefaultBackoff 6 (f_round False 9 10)" by code_simp
  ultimately show ?thesis by blast
qed

text \<open>
  C26. Every configured policy waits a bounded time: with a jitter in the documented range,
  any non-negative factor (even one whose powers overflow to infinity) and a maximum below
  52 days, a delay is never negative and never more than twice the maximum.
\<close>

theorem delay_bounded:
  assumes "0 < bo_Base b" and "bo_Base b \<le> 9007199254740992" and "f_nonneg (bo_Factor b)"
    and "0 \<le> bo_Max b" and "bo_Max b \<le> 4503599627370496"
    and "f_range 0 1 (bo_Jitter b)" and "f_range 0 1 rnd" and "0 \<le> attempt"
  shows "0 \<le> Delay conv b attempt rnd \<and> Delay conv b attempt rnd \<le> 2 * bo_Max b"
proof -
  let ?M = "real_of_int (2 * bo_Max b)"
  have c: "f_range 0 (of_int (bo_Max b)) (capped b attempt)" using assms by (intro capped_range) auto
  have "f_range 0 ?M (jittered (capped b attempt) (bo_Jitter b) rnd)"
    using jittered_range [OF c assms(6,7,4,5)] .
  moreover have "f_range 0 ?M (capped b attempt)" using f_range_weaken [OF c] assms(4) by simp
  ultimately have "f_range 0 ?M (if f_less (f_zero False) (bo_Jitter b)
      then jittered (capped b attempt) (bo_Jitter b) rnd else capped b attempt)" by simp
  from Delay_range(2,3) [OF this assms(8), of conv] assms(5) show ?thesis by linarith
qed

theorem delay_bounded_witness:
  "0 \<le> Delay (\<lambda>_. 0) \<lparr>bo_Base = 1000, bo_Max = 60000000000, bo_Factor = FInf False, bo_Jitter = f_of_int 1\<rparr> 3 (f_of_int 0)
   \<and> Delay (\<lambda>_. 0) \<lparr>bo_Base = 1000, bo_Max = 60000000000, bo_Factor = FInf False, bo_Jitter = f_of_int 1\<rparr> 3 (f_of_int 0)
       \<le> 2 * 60000000000"
  using f_of_int_range [of 0] f_of_int_range [of 1]
    delay_bounded [of "\<lparr>bo_Base = 1000, bo_Max = 60000000000, bo_Factor = FInf False, bo_Jitter = f_of_int 1\<rparr>"
      "f_of_int 0" 3 "\<lambda>_. 0"] f_range_weaken [of 0 0 "f_of_int 0" 0 1] f_range_zero [of 1 1 "f_of_int 1"]
  by simp

section \<open>Properties of parsed prices\<close>

text \<open>
  Whatever text a venue puts in a numeric field, the helpers return a canonical
  float64: a sign, at most 53 mantissa bits and an exponent in range, or an infinity or NaN.
\<close>

theorem parsed_numbers_canonical:
  "float_wf (mustFloat s) \<and> float_wf (fst (parseFloat s))"
  using ParseFloat_wf [of s] by (simp add: mustFloat_def parseFloat_def)

text \<open>
  A decimal price or size is parsed to the nearest float64: no other canonical value
  is closer to the number the venue wrote.
\<close>

theorem parsed_decimal_nearest:
  assumes "read_float s = Some (neg, False, digits, k)" and "special_float s = None" and "s \<noteq> ''''"
    and "fst (parseFloat s) = FFin neg m e" and "0 < digits" and "float_wf (FFin neg' m' e')"
  shows "\<bar>of_int m * 2 powi e - of_int digits * 10 powi k\<bar>
           \<le> \<bar>of_int m' * 2 powi e' - of_int digits * 10 powi k :: real\<bar>"
proof -
  have f: "ratio_float neg False digits k = FFin neg m e"
    using assms(1-4) by (simp add: parseFloat_def ParseFloat_def Let_def split: float64.splits)
  show ?thesis
  proof (cases "0 \<le> k")
    case True
    then have "round_ratio neg (digits * ipow 10 k) 1 = FFin neg m e"
      using f assms(5) by (auto simp: ratio_float_def Let_def f_zero_def split: if_splits)
    from round_ratio_nearest [OF _ _ this assms(6)] True assms(5) show ?thesis
      by (simp add: ipow_power power_int_nonneg_exp)
  next
    case False
    then have "round_ratio neg digits (ipow 10 (- k)) = FFin neg m e"
      using f assms(5) by (auto simp: ratio_float_def Let_def f_zero_def split: if_splits)
    moreover have "(10::real) powi k = 1 / 10 ^ nat (- k)"
      using power_int_minus_divide [of "10::real" "- k"] False by (simp add: power_int_nonneg_exp)
    ultimately show ?thesis
      using round_ratio_nearest [of digits "ipow 10 (- k)" neg m e neg' m' e'] assms(5,6) by (simp add: ipow_power)
  qed
qed

theorem parsed_decimal_nearest_witness:
  "\<exists>m e. fst (parseFloat ''42000.1'') = FFin False m e
     \<and> \<bar>of_int m * 2 powi e - of_int 420001 * 10 powi (- 1)\<bar>
         \<le> \<bar>of_int 5772436045824000 * 2 powi (- 37) - of_int 420001 * 10 powi (- 1) :: real\<bar>"
proof -
  have p: "fst (parseFloat ''42000.1'') = FFin False 5772449789719347 (- 37)"
    and r: "read_float ''42000.1'' = Some (False, False, 420001, - 1)"
    and sp: "special_float ''42000.1'' = None" by code_simp+
  have wf: "float_wf (FFin False 5772436045824000 (- 37))" by (simp add: float_wf_def)
  have ne: "''42000.1'' \<noteq> ''''" and pos: "0 < (420001::int)" by simp_all
  show ?thesis
    by (intro exI conjI, rule p, rule parsed_decimal_nearest [OF r sp ne p pos wf])
qed

end
