(* ===== verification/Supervisor.thy ===== *)
theory Supervisor
  imports Ingestd Runner
begin

text \<open>
  The sources of the service as \<open>cmd/ingestd/main.go\<close> starts them: one \<open>Runner\<close> per
  decoder, with the default backoff, no bound on attempts, and an \<open>OnConnect\<close> that resets
  the detector and the decoder's books. The theorems instantiate the runner's on the real
  adapters, tie a session to the step relation of \<open>Ingestd\<close>, and show every metric call of
  the service well typed.
\<close>

section \<open>The adapters as decoders\<close>

datatype any_msg = MCoinbase coinbaseSubscribe | MKraken krakenSubscribe | MEVM rpcRequest

fun any_URL :: "AnyDecoder \<Rightarrow> string" where
  "any_URL (DCoinbase c) = Coinbase_URL c"
| "any_URL (DKraken k) = Kraken_URL k"
| "any_URL (DBinance b) = Binance_URL b"
| "any_URL (DEVM e) = EVM_URL e"

fun any_Subscriptions :: "AnyDecoder \<Rightarrow> string list \<Rightarrow> AnyDecoder \<times> any_msg list" where
  "any_Subscriptions (DCoinbase c) syms = map_prod DCoinbase (map MCoinbase) (Coinbase_Subscriptions c syms)"
| "any_Subscriptions (DKraken k) syms = map_prod DKraken (map MKraken) (Kraken_Subscriptions k syms)"
| "any_Subscriptions (DBinance b) syms = (DBinance (Binance_Subscriptions b syms), [])"
| "any_Subscriptions (DEVM e) syms = (DEVM e, map MEVM (EVM_Subscriptions e syms))"

definition any_decoder :: "(AnyDecoder, any_msg) Decoder" where
  "any_decoder = \<lparr>dec_Name = any_Name, dec_URL = any_URL, dec_Subscriptions = any_Subscriptions,
                  dec_Decode = any_Decode\<rparr>"

section \<open>The runners of the service\<close>

definition source_runner :: "Config \<Rightarrow> (string \<rightharpoonup> nat) \<Rightarrow> AnyDecoder Runner" where
  "source_runner cfg hooks =
     \<lparr>r_Symbols = c_Symbols cfg, r_Backoff = DefaultBackoff, r_ReadTimeout = 45 * 1000000000,
      r_OnConnect = Some (\<lambda>d name. if hooks name = None then d else any_reset d), r_MaxAttempts = 0\<rparr>"

text \<open>What a source's goroutine does to the connection gauge: \<open>OnConnect\<close> and the deferred reset.\<close>

fun connection_ops :: "any_msg effect list \<Rightarrow> metrics_log" where
  "connection_ops [] = []"
| "connection_ops (Connected name # fx) = SetGauge ConnectionUp [name] 1 # connection_ops fx"
| "connection_ops (_ # fx) = connection_ops fx"

definition run_source ::
  "(float64 \<Rightarrow> int64) \<Rightarrow> Config \<Rightarrow> (string \<rightharpoonup> nat) \<Rightarrow> AnyDecoder \<Rightarrow> Round list \<Rightarrow>
   AnyDecoder \<times> any_msg effect list \<times> metrics_log \<times> run_result"
where
  "run_source conv cfg hooks d rounds =
     (case Run conv any_decoder (source_runner cfg hooks) d rounds of
        (d', fx, RunPending) \<Rightarrow> (d', fx, connection_ops fx, RunPending)
      | (d', fx, res) \<Rightarrow> (d', fx, connection_ops fx @ [SetGauge ConnectionUp [any_Name d] 0], res))"

section \<open>Facts\<close>

lemma any_subscribe_Subscriptions: "fst (any_Subscriptions d syms) = any_subscribe d syms"
  by (cases d) simp_all

lemma any_decoder_simps [simp]:
  "dec_Name any_decoder = any_Name" "dec_URL any_decoder = any_URL"
  "dec_Subscriptions any_decoder = any_Subscriptions" "dec_Decode any_decoder = any_Decode"
  by (simp_all add: any_decoder_def)

lemma source_runner_defaults [simp]:
  "runner_defaults (source_runner cfg hooks) = source_runner cfg hooks"
  by (simp add: runner_defaults_def source_runner_def DefaultBackoff_def)

lemma subscribed_source:
  "subscribed any_decoder (source_runner cfg hooks) d =
     (if hooks (any_Name d) = None then any_subscribe d (c_Symbols cfg) else any_reset (any_subscribe d (c_Symbols cfg)))"
  by (simp add: subscribed_def source_runner_def any_subscribe_Subscriptions Let_def)

section \<open>A session as steps of the system\<close>

definition at_source :: "nat \<Rightarrow> Source \<Rightarrow> Event list \<Rightarrow> 'p System \<Rightarrow> 'p System" where
  "at_source i src q s = s\<lparr>sys_sources := (sys_sources s)[i := src], sys_queue := q\<rparr>"

lemma at_source_simps [simp]:
  "i < length (sys_sources s) \<Longrightarrow> sys_sources (at_source i src q s) ! i = src"
  "length (sys_sources (at_source i src q s)) = length (sys_sources s)"
  "sys_queue (at_source i src q s) = q" "sys_pipe (at_source i src q s) = sys_pipe s"
  "at_source i src' q' (at_source i src q s) = at_source i src' q' s"
  by (simp_all add: at_source_def)

lemma sends_path:
  assumes "i < length (sys_sources s)" and "int (length q + k) \<le> c_BufferSize cfg" and "k \<le> length es"
  shows "(step marshal inject publish cfg encoders)\<^sup>*\<^sup>*
           (at_source i \<lparr>src_decoder = d, src_connected = c, src_outbox = es\<rparr> q s)
           (at_source i \<lparr>src_decoder = d, src_connected = c, src_outbox = drop k es\<rparr> (q @ take k es) s)"
  using assms(2,3)
proof (induction k)
  case (Suc k)
  let ?src = "\<lparr>src_decoder = d, src_connected = c, src_outbox = drop k es\<rparr>"
  let ?s = "at_source i ?src (q @ take k es) s"
  have ne: "drop k es = es ! k # drop (Suc k) es" "take (Suc k) es = take k es @ [es ! k]"
    using Suc.prems(2) by (simp_all add: Cons_nth_drop_Suc take_Suc_conv_app_nth)
  have "step marshal inject publish cfg encoders ?s (send_event i ?s)"
    using assms(1) Suc.prems ne by (intro step.Send) auto
  also have "send_event i ?s = at_source i (?src\<lparr>src_outbox := drop (Suc k) es\<rparr>) (q @ take (Suc k) es) s"
    using assms(1) ne by (simp add: send_event_def at_source_def Let_def)
  finally show ?case using Suc by (auto intro: rtranclp.rtrancl_into_rtrancl)
qed simp

lemma frame_path:
  assumes "i < length (sys_sources s)" and "int (length q + k) \<le> c_BufferSize cfg"
    and "any_Decode d raw now = (d', r)" and "k \<le> length (frame_events r)"
  shows "(step marshal inject publish cfg encoders)\<^sup>*\<^sup>*
           (at_source i \<lparr>src_decoder = d, src_connected = True, src_outbox = []\<rparr> q s)
           (at_source i \<lparr>src_decoder = d', src_connected = True, src_outbox = drop k (frame_events r)\<rparr>
              (q @ take k (frame_events r)) s)"
proof -
  let ?s = "at_source i \<lparr>src_decoder = d, src_connected = True, src_outbox = []\<rparr> q s"
  have "step marshal inject publish cfg encoders ?s (read_frame i raw now ?s)"
    using assms(1) by (intro step.Frame) auto
  moreover have "read_frame i raw now ?s =
      at_source i \<lparr>src_decoder = d', src_connected = True, src_outbox = frame_events r\<rparr> q s"
    using assms(1,3) by (simp add: read_frame_def at_source_def Let_def frame_events_def)
  ultimately show ?thesis using sends_path [OF assms(1,2,4)] by (metis converse_rtranclp_into_rtranclp)
qed

lemma read_loop_name:
  "read_loop any_decoder r name d steps = (d', fx, res) \<Longrightarrow> any_Name d' = any_Name d"
proof (induction steps arbitrary: d fx)
  case (Cons st steps)
  show ?case
  proof (cases st)
    case (Delivers t raw now stop)
    with Cons.prems have "read_loop any_decoder r name d (Delivers t raw now stop # steps) = (d', fx, res)" by simp
    then show ?thesis
      by (cases rule: read_loop_Delivers) (use Cons.IH any.decode_keeps_venue in \<open>fastforce simp: any_decoder_def\<close>)+
  qed (use Cons.prems in auto)
qed simp

lemma read_loop_path:
  assumes "i < length (sys_sources s)"
    and "read_loop any_decoder r name d steps = (d', fx, res)"
    and "int (length q + length (sent fx)) \<le> c_BufferSize cfg"
  shows "\<exists>left. (step marshal inject publish cfg encoders)\<^sup>*\<^sup>*
           (at_source i \<lparr>src_decoder = d, src_connected = True, src_outbox = []\<rparr> q s)
           (at_source i \<lparr>src_decoder = d', src_connected = True, src_outbox = left\<rparr> (q @ sent fx) s)
         \<and> (list_all uninterrupted steps \<longrightarrow> left = [])"
  using assms(2,3)
proof (induction steps arbitrary: d q d' fx res)
  case (Cons st steps)
  show ?case
  proof (cases st)
    case (Delivers t raw now stop)
    with Cons.prems(1) have "read_loop any_decoder r name d (Delivers t raw now stop # steps) = (d', fx, res)" by simp
    then show ?thesis
    proof (cases rule: read_loop_Delivers)
      case (cut es k err)
      have "(step marshal inject publish cfg encoders)\<^sup>*\<^sup>*
          (at_source i \<lparr>src_decoder = d, src_connected = True, src_outbox = []\<rparr> q s)
          (at_source i \<lparr>src_decoder = d', src_connected = True, src_outbox = drop k (frame_events (Inr es))\<rparr>
             (q @ take k (frame_events (Inr es))) s)"
        by (rule frame_path [OF assms(1)]) (use cut Cons.prems(2) in \<open>auto simp: frame_events_def\<close>)
      with cut Delivers show ?thesis by (auto simp: frame_events_def)
    next
      case (on d1 r1 fx1)
      have room: "int (length (q @ frame_events r1) + length (sent fx1)) \<le> c_BufferSize cfg"
        "int (length q + length (frame_events r1)) \<le> c_BufferSize cfg"
        using Cons.prems(2) on(3) by auto
      have "(step marshal inject publish cfg encoders)\<^sup>*\<^sup>*
          (at_source i \<lparr>src_decoder = d, src_connected = True, src_outbox = []\<rparr> q s)
          (at_source i \<lparr>src_decoder = d1, src_connected = True, src_outbox = drop (length (frame_events r1)) (frame_events r1)\<rparr>
             (q @ take (length (frame_events r1)) (frame_events r1)) s)"
        by (rule frame_path [OF assms(1) room(2)]) (use on(1) in auto)
      then have "(step marshal inject publish cfg encoders)\<^sup>*\<^sup>*
          (at_source i \<lparr>src_decoder = d, src_connected = True, src_outbox = []\<rparr> q s)
          (at_source i \<lparr>src_decoder = d1, src_connected = True, src_outbox = []\<rparr> (q @ frame_events r1) s)" by simp
      moreover from Cons.IH [OF on(2) room(1)] obtain left where
        "(step marshal inject publish cfg encoders)\<^sup>*\<^sup>*
          (at_source i \<lparr>src_decoder = d1, src_connected = True, src_outbox = []\<rparr> (q @ frame_events r1) s)
          (at_source i \<lparr>src_decoder = d', src_connected = True, src_outbox = left\<rparr> ((q @ frame_events r1) @ sent fx1) s)"
        "list_all uninterrupted steps \<longrightarrow> left = []" by blast
      ultimately show ?thesis using on(3) by (auto intro!: exI [of _ left] intro: rtranclp_trans)
    qed
  qed (use Cons.prems in \<open>auto intro!: exI [of _ "[]"]\<close>)
qed (auto intro!: exI [of _ "[]"])

section \<open>Properties\<close>

text \<open>
  C5. A session of a source's runner is an execution of the service: from any state with
  the source disconnected and room in the fan-in channel, connecting, reading and sending
  leads by steps of the system to the state in which exactly the session's events have been
  queued, the decoder is as the session leaves it, and the detector has forgotten the venue.
\<close>

theorem session_is_execution:
  assumes "i < length (sys_sources s)" and "\<not> src_connected (sys_sources s ! i)"
    and "src_outbox (sys_sources s ! i) = []"
    and "session any_decoder (source_runner cfg hooks) (src_decoder (sys_sources s ! i)) env = (d', fx, res)"
    and "Connected (any_Name (src_decoder (sys_sources s ! i))) \<in> set fx"
    and "hooks = snd (buildDecoders cfg)"
    and "hooks (any_Name (src_decoder (sys_sources s ! i))) \<in> {None, Some i}"
    and "int (length (sys_queue s) + length (sent fx)) \<le> c_BufferSize cfg"
  shows "\<exists>s'. (step marshal inject publish cfg encoders)\<^sup>*\<^sup>* s s'
           \<and> sys_queue s' = sys_queue s @ sent fx \<and> src_decoder (sys_sources s' ! i) = d'
           \<and> ps_detector (sys_pipe s') = ResetVenue (ps_detector (sys_pipe s)) (any_Name d')
           \<and> ps_batch (sys_pipe s') = ps_batch (sys_pipe s)"
proof -
  let ?d = "src_decoder (sys_sources s ! i)"
  let ?s1 = "connect cfg hooks i s"
  obtain d where src: "sys_sources s ! i = \<lparr>src_decoder = d, src_connected = False, src_outbox = []\<rparr>"
    using assms(2,3) by (cases "sys_sources s ! i") auto
  from assms(4) obtain rfx where l: "read_loop any_decoder (source_runner cfg hooks) (any_Name ?d)
      (subscribed any_decoder (source_runner cfg hooks) ?d) (se_reads env) = (d', rfx, res)"
    and fx: "sent fx = sent rfx"
    by (cases rule: session_cases)
       (use assms(5) in \<open>auto simp: close_deferred_def split: option.splits\<close>)
  have c: "step marshal inject publish cfg encoders s ?s1"
    using assms(1,2,6) by (auto intro: step.Connect)
  have at: "?s1 = at_source i \<lparr>src_decoder = subscribed any_decoder (source_runner cfg hooks) ?d,
      src_connected = True, src_outbox = []\<rparr> (sys_queue s) ?s1"
    using assms(1,7)
    by (auto simp: src connect_def on_connect_def reset_source_def at_source_def subscribed_source Let_def)
  have q: "sys_queue ?s1 = sys_queue s" "i < length (sys_sources ?s1)"
    using assms(1) by (auto simp: connect_def on_connect_def reset_source_def Let_def split: option.splits)
  from read_loop_path [OF q(2) l, of "sys_queue s" cfg marshal inject publish encoders] assms(8) fx at obtain left where
    p: "(step marshal inject publish cfg encoders)\<^sup>*\<^sup>* ?s1
       (at_source i \<lparr>src_decoder = d', src_connected = True, src_outbox = left\<rparr> (sys_queue s @ sent rfx) ?s1)"
    by auto
  have name: "any_Name d' = any_Name ?d"
    using read_loop_name [OF l] by (simp add: subscribed_source split: if_splits)
  show ?thesis
    using converse_rtranclp_into_rtranclp [OF c p] fx q name
    by (intro exI [of _ "at_source i \<lparr>src_decoder = d', src_connected = True, src_outbox = left\<rparr>
       (sys_queue s @ sent rfx) ?s1"]) (auto simp: connect_def on_connect_def Let_def)
qed

text \<open>
  C6. With a bound on attempts \<open>Run\<close> always returns: whatever the network does, as long as
  each session ends, it is over after at most \<open>MaxAttempts\<close> sessions and looks at no more.
\<close>

theorem run_terminates:
  assumes "0 < r_MaxAttempts r" and "r_MaxAttempts r \<le> max_int64"
    and "r_MaxAttempts r \<le> int (length rounds)"
    and "\<forall>rd \<in> set rounds. list_ex ends_reading (se_reads (rd_session rd))"
  shows "snd (snd (Run conv D r s rounds)) \<noteq> RunPending
       \<and> Run conv D r s rounds = Run conv D r s (take (nat (r_MaxAttempts r)) rounds)"
proof -
  have "snd (snd (reconnect_loop conv D (runner_defaults r) (dec_Name D s) s 0 rounds)) \<noteq> RunPending
      \<and> reconnect_loop conv D (runner_defaults r) (dec_Name D s) s 0 rounds =
        reconnect_loop conv D (runner_defaults r) (dec_Name D s) s 0
          (take (nat (r_MaxAttempts (runner_defaults r) - 0)) rounds)"
    by (rule reconnect_terminates) (use assms in auto)
  then show ?thesis unfolding Run_def defaults_keep diff_zero .
qed

definition refused_round :: Round where
  "refused_round =
     \<lparr>rd_done = False,
      rd_session = \<lparr>se_dial = (\<lambda>_. Some (Sentinel ''connection refused'')), se_writes = (\<lambda>_. None),
                    se_reads = [CtxDone context_Canceled]\<rparr>,
      rd_rnd = f_zero False, rd_done_waiting = False\<rparr>"

definition example_runner :: "int64 \<Rightarrow> AnyDecoder Runner" where
  "example_runner n = (source_runner Defaults Map.empty)\<lparr>r_MaxAttempts := n\<rparr>"

definition example_kraken :: AnyDecoder where
  "example_kraken = DKraken (NewKraken [''BTC-USD''] 10)"

theorem run_terminates_witness:
  "snd (snd (Run (\<lambda>_. 0) any_decoder (example_runner 3) example_kraken (replicate 5 refused_round))) \<noteq> RunPending
   \<and> Run (\<lambda>_. 0) any_decoder (example_runner 3) example_kraken (replicate 5 refused_round) =
     Run (\<lambda>_. 0) any_decoder (example_runner 3) example_kraken
       (take (nat (r_MaxAttempts (example_runner 3))) (replicate 5 refused_round))"
  by (rule run_terminates) (simp_all add: example_runner_def refused_round_def)

text \<open>
  A runner that never gets through gives up with the bound's error: after exactly
  \<open>MaxAttempts\<close> failing sessions it returns an error that names the venue and the count and
  wraps the last failure, having waited once between each two sessions and not after the last.
\<close>

theorem run_gives_up:
  assumes "0 < r_MaxAttempts r" and "r_MaxAttempts r \<le> max_int64"
    and "r_MaxAttempts r \<le> int (length rounds)"
    and "\<forall>rd \<in> set rounds. session_fails D (runner_defaults r) (rd_session rd)
           \<and> \<not> rd_done rd \<and> \<not> rd_done_waiting rd"
  shows "\<exists>s' fx err. Run conv D r s rounds =
           (s', fx, RunReturned (Some (errGivingUp (dec_Name D s) (r_MaxAttempts r) err)))
         \<and> int (length (backoffs fx)) = r_MaxAttempts r - 1"
  using reconnect_gives_up [of rounds D "runner_defaults r" 0 conv "dec_Name D s" s] assms
  by (simp add: Run_def)

lemma refused_round_fails:
  "session_fails D r (rd_session refused_round)" "\<not> rd_done refused_round" "\<not> rd_done_waiting refused_round"
  by (simp_all add: session_fails_def session_def refused_round_def context_Canceled_def)

theorem run_gives_up_witness:
  "\<exists>s' fx err. Run (\<lambda>_. 0) any_decoder (example_runner 3) example_kraken (replicate 4 refused_round) =
     (s', fx, RunReturned (Some (errGivingUp ''kraken'' 3 err))) \<and> int (length (backoffs fx)) = 3 - 1"
proof -
  have "any_Name example_kraken = ''kraken''" by code_simp
  moreover have "\<exists>s' fx err. Run (\<lambda>_. 0) any_decoder (example_runner 3) example_kraken (replicate 4 refused_round) =
     (s', fx, RunReturned (Some (errGivingUp (dec_Name any_decoder example_kraken) (r_MaxAttempts (example_runner 3)) err)))
       \<and> int (length (backoffs fx)) = r_MaxAttempts (example_runner 3) - 1"
    by (rule run_gives_up) (simp_all add: refused_round_fails, simp_all add: example_runner_def)
  ultimately show ?thesis by (simp add: example_runner_def)
qed

text \<open>
  C7. Without a bound the runner never gives up: however many sessions have failed, the
  next one is tried, and when it connects all the events of its frames are delivered, in
  order, after whatever was sent before.
\<close>

theorem run_recovers:
  assumes "r_MaxAttempts r \<le> 0" and "int k \<le> max_int64"
    and "\<forall>n < k. session_fails D (runner_defaults r) (rd_session (env n))
           \<and> \<not> rd_done (env n) \<and> \<not> rd_done_waiting (env n)"
    and "\<not> rd_done (env k)" and "\<forall>url. se_dial (rd_session (env k)) url = None"
    and "\<forall>j. se_writes (rd_session (env k)) j = None"
    and "list_all uninterrupted (se_reads (rd_session (env k)))"
  shows "\<exists>s1 before. sent (fst (snd (Run conv D r s (map env [0..<Suc k])))) =
           before @ snd (pump (dec_Decode D) (subscribed D (runner_defaults r) s1)
             (frames_of (se_reads (rd_session (env k)))))"
proof -
  let ?r = "runner_defaults r" and ?pre = "map env [0..<k]"
  obtain s1 fx1 where p: "reconnect_loop conv D ?r (dec_Name D s) s 0 (?pre @ [env k]) =
      (let (s2, fx2, res) = reconnect_loop conv D ?r (dec_Name D s) s1 (0 + int (length ?pre)) [env k]
       in (s2, fx1 @ fx2, res))"
    using reconnect_reaches [of ?pre D ?r 0 conv "dec_Name D s" s "[env k]"] assms(1-3) by auto
  obtain s2 fx res where e: "session D ?r s1 (rd_session (env k)) = (s2, fx, res)" by (metis prod_cases3)
  then have "sent fx = snd (pump (dec_Decode D) (subscribed D ?r s1) (frames_of (se_reads (rd_session (env k)))))"
  proof (cases rule: session_cases)
    case (reading rfx)
    with read_loop_sent [OF reading(2)] assms(7) show ?thesis
      by (auto simp: close_deferred_def split: option.splits)
  qed (use assms(5,6) in auto)
  moreover have "sent (fst (snd (reconnect_loop conv D ?r (dec_Name D s) s1 (int k) [env k]))) = sent fx"
    using e assms(4) by (cases res) (auto simp: Let_def)
  ultimately show ?thesis using p by (intro exI [of _ s1] exI [of _ "sent fx1"]) (simp add: Run_def split_beta)
qed

text \<open>A round whose session connects and reads the given frames.\<close>

definition healthy_round :: "(string \<times> gotime) list \<Rightarrow> Round" where
  "healthy_round frames =
     \<lparr>rd_done = False,
      rd_session = \<lparr>se_dial = (\<lambda>_. None), se_writes = (\<lambda>_. None),
                    se_reads = map (\<lambda>(raw, now). Delivers now raw now None) frames\<rparr>,
      rd_rnd = f_zero False, rd_done_waiting = False\<rparr>"

lemma frames_of_healthy [simp]:
  "frames_of (se_reads (rd_session (healthy_round frames))) = frames"
  by (simp add: healthy_round_def) (induction frames, auto)

lemma any_Decode_sample: "\<exists>evs. any_Decode (DKraken k) kraken_sample 0 = (DKraken k, Inr evs) \<and> length evs = 1"
  using kraken_sample_facts(4) [of k] by auto

lemma healthy_session:
  assumes "session D r s (rd_session (healthy_round fs)) = (s', fx, res)" and "r_OnConnect r \<noteq> None"
  shows "Connected (dec_Name D s) \<in> set fx \<and> sent fx = snd (pump (dec_Decode D) (subscribed D r s) fs)"
proof -
  have u: "list_all uninterrupted (se_reads (rd_session (healthy_round fs)))"
    by (auto simp: healthy_round_def list_all_iff)
  from assms(1) show ?thesis
  proof (cases rule: session_cases)
    case (reading rfx)
    have "sent rfx = snd (pump (dec_Decode D) (subscribed D r s) fs)"
      using read_loop_sent [OF reading(2)] u by (auto simp: prod_eq_iff)
    with reading(3) assms(2) show ?thesis by (auto simp: close_deferred_def split: option.splits)
  qed (simp_all add: healthy_round_def)
qed

theorem run_recovers_witness:
  "\<exists>s1 before. sent (fst (snd (Run (\<lambda>_. 0) any_decoder (example_runner 0) example_kraken
       (map (\<lambda>n. if n < 9 then refused_round else healthy_round [(kraken_sample, 0)]) [0..<Suc 9])))) =
     before @ snd (pump any_Decode (subscribed any_decoder (runner_defaults (example_runner 0)) s1) [(kraken_sample, 0)])
   \<and> snd (pump any_Decode example_kraken [(kraken_sample, 0)]) \<noteq> []"
proof -
  have "\<exists>s1 before. sent (fst (snd (Run (\<lambda>_. 0) any_decoder (example_runner 0) example_kraken
       (map (\<lambda>n. if n < 9 then refused_round else healthy_round [(kraken_sample, 0)]) [0..<Suc 9])))) =
     before @ snd (pump (dec_Decode any_decoder) (subscribed any_decoder (runner_defaults (example_runner 0)) s1)
       (frames_of (se_reads (rd_session ((if (9::nat) < 9 then refused_round else healthy_round [(kraken_sample, 0)]))))))"
    by (rule run_recovers)
       (simp_all add: refused_round_fails, simp_all add: example_runner_def healthy_round_def)
  moreover have "snd (pump any_Decode example_kraken [(kraken_sample, 0)]) \<noteq> []"
    using any_Decode_sample [of "NewKraken [''BTC-USD''] 10"] by (auto simp: example_kraken_def)
  ultimately show ?thesis by simp
qed

text \<open>
  C27. No metric call of the running service panics. Whatever the registry, the broker,
  the sources and the schedule do, every call recorded by the registration of the schemas,
  by the pipeline and \<open>OnConnect\<close>, by the Kafka producer, by the final flush and by a source's
  goroutine is on a series of its type, with as many label values as the series declares,
  and no counter is ever asked to decrease.
\<close>

theorem metrics_well_typed:
  assumes "buildEncoders http parse cfg topics schemas h = (h', startup, Inr encoders)"
    and "reachable marshal inject (Kafka_Publish wm elapsed) cfg encoders (w, []) s"
  shows "list_all op_typed startup
       \<and> list_all op_typed (ps_metrics (sys_pipe s))
       \<and> list_all op_typed (snd (ps_producer (sys_pipe s)))
       \<and> list_all op_typed (ps_metrics (final_flush (Kafka_Publish wm elapsed) (sys_pipe s)))
       \<and> list_all op_typed (snd (ps_producer (final_flush (Kafka_Publish wm elapsed) (sys_pipe s))))
       \<and> (case run_source conv cfg hooks d rounds of (_, _, ops, _) \<Rightarrow> list_all op_typed ops)"
proof -
  let ?typed = "\<lambda>q. list_all op_typed (snd q)"
  note pipe = reachable_metrics_typed [OF assms(2)]
  have prd: "?typed (ps_producer (sys_pipe s))"
    by (rule reachable_producer [OF _ _ assms(2)]) (simp_all add: Kafka_Publish_typed)
  then have "?typed (ps_producer (final_flush (Kafka_Publish wm elapsed) (sys_pipe s)))"
    by (intro producer_final_flush [of ?typed] Kafka_Publish_typed)
  moreover have "list_all op_typed (connection_ops fx)" for fx
    by (induction fx rule: connection_ops.induct) simp_all
  then have "case run_source conv cfg hooks d rounds of (_, _, ops, _) \<Rightarrow> list_all op_typed ops"
    by (auto simp: run_source_def split: prod.splits run_result.splits)
  ultimately show ?thesis using buildEncoders_typed [OF assms(1)] pipe prd typed_final_flush [OF pipe] by blast
qed

text \<open>With one topic registered, a source connected and the Kafka producer.\<close>

theorem metrics_well_typed_witness:
  "\<exists>h' startup encoders s. buildEncoders example_http (Inr :: string \<Rightarrow> string result) Defaults
         [(KindTrade, ''md.trades.v1'')] (Current ''t'' ''b'' ''c'') 0 = (h', startup, Inr encoders)
     \<and> reachable example_marshal (\<lambda>_. []) (Kafka_Publish (\<lambda>w kms. (w @ kms, None)) (\<lambda>_ _. 3))
         Defaults encoders ([], []) s
     \<and> startup \<noteq> [] \<and> ps_metrics (sys_pipe s) \<noteq> []
     \<and> list_all op_typed startup \<and> list_all op_typed (ps_metrics (sys_pipe s))"
proof -
  let ?b = "buildEncoders example_http (Inr :: string \<Rightarrow> string result) Defaults
         [(KindTrade, ''md.trades.v1'')] (Current ''t'' ''b'' ''c'') 0"
  let ?publish = "Kafka_Publish (\<lambda>w kms. (w @ kms, None)) (\<lambda>_ _. 3)"
  let ?i = "initial Defaults ([] :: KafkaMessage list, [])"
  let ?s = "connect Defaults (snd (buildDecoders Defaults)) 0 ?i"
  have "fst (snd ?b) \<noteq> [] \<and> is_ok (snd (snd ?b))" by code_simp
  moreover obtain h' startup r where "?b = (h', startup, r)" by (metis surj_pair)
  ultimately obtain encoders where b: "?b = (h', startup, Inr encoders)" "startup \<noteq> []" by (auto simp: is_ok_iff)
  have "0 < length (sys_sources ?i)" and "\<not> src_connected (sys_sources ?i ! 0)" by code_simp+
  then have r: "reachable example_marshal (\<lambda>_. []) ?publish Defaults encoders ([], []) ?s"
    by (intro reachable.more [OF reachable.start] step.Connect)
  have "ps_metrics (sys_pipe ?s) \<noteq> []" by (simp add: connect_def on_connect_def Let_def)
  with b r metrics_well_typed [OF b(1) r] show ?thesis by blast
qed

text \<open>
  Disconnects are counted over the life of the process: a source waits before a
  reconnect according to how many sessions have ended before, not to how they went. From
  the seventh on every wait is 25.5 seconds or more, even after days of healthy streaming.
\<close>

theorem backoff_never_resets:
  assumes "\<forall>rd \<in> set rounds. session_fails any_decoder (source_runner cfg hooks) (rd_session rd)
           \<and> \<not> rd_done rd \<and> \<not> rd_done_waiting rd \<and> f_range 0 1 (rd_rnd rd)"
    and "int (length rounds) \<le> max_int64"
  shows "case run_source conv cfg hooks d rounds of (_, fx, _, res) \<Rightarrow>
           res = RunPending \<and> length (backoffs fx) = length rounds
         \<and> (\<forall>i < length rounds. 6 \<le> i \<longrightarrow> 25500000000 \<le> backoffs fx ! i)"
proof -
  let ?r = "source_runner cfg hooks"
  have "r_MaxAttempts ?r \<le> 0" by (simp add: source_runner_def)
  with assms obtain s1 fx where p: "reconnect_loop conv any_decoder ?r (any_Name d) d 0 (rounds @ []) =
      (let (s2, fx2, res) = reconnect_loop conv any_decoder ?r (any_Name d) s1 (0 + int (length rounds)) [] in (s2, fx @ fx2, res))"
    "backoffs fx = map (\<lambda>i. Delay conv (r_Backoff ?r) (0 + int i) (rd_rnd (rounds ! i))) [0..<length rounds]"
    using reconnect_reaches [of rounds any_decoder ?r 0 conv "any_Name d" d "[]"] by auto
  then have run: "run_source conv cfg hooks d rounds = (s1, fx, connection_ops fx, RunPending)"
    by (simp add: run_source_def Run_def)
  have "25500000000 \<le> backoffs fx ! i" if "i < length rounds" "6 \<le> i" for i
  proof -
    have "f_range 0 1 (rd_rnd (rounds ! i))" using assms(1) that(1) nth_mem by blast
    from Delay_default(1) [OF _ _ this, of "int i" conv] assms(2) that
    show ?thesis by (simp add: p(2) source_runner_def default_delay_def)
  qed
  with p(2) show ?thesis by (simp add: run)
qed

theorem backoff_never_resets_witness:
  "case run_source (\<lambda>_. 0) Defaults Map.empty example_kraken (replicate 8 refused_round) of (_, fx, _, res) \<Rightarrow>
     res = RunPending \<and> length (backoffs fx) = length (replicate 8 refused_round)
   \<and> (\<forall>i < length (replicate 8 refused_round). 6 \<le> i \<longrightarrow> 25500000000 \<le> backoffs fx ! i)"
  by (rule backoff_never_resets)
     (simp_all add: refused_round_fails, simp add: refused_round_def f_range_def f_zero_def float_wf_def)

text \<open>
  C31. The connection gauge is not lowered when a socket is lost: as long as the source's
  goroutine runs, once it has connected the gauge shows 1, through every disconnect and
  backoff that follows. It falls to 0 only when the goroutine ends.
\<close>

theorem connection_gauge_stale:
  assumes "run_source conv cfg hooks d rounds = (d', fx, ops, res)"
  shows "(res = RunPending \<longrightarrow> Connected (any_Name d) \<in> set fx \<longrightarrow> gauge ConnectionUp [any_Name d] ops = Some 1)
       \<and> (res \<noteq> RunPending \<longrightarrow> gauge ConnectionUp [any_Name d] ops = Some 0)"
proof -
  have up: "Connected n \<in> set fx \<Longrightarrow> gauge ConnectionUp [n] (connection_ops fx) = Some 1"
    "gauge ConnectionUp [n] (connection_ops fx) \<in> {None, Some 1}" for n fx
    by (induction fx rule: connection_ops.induct) (auto split: option.splits)
  show ?thesis
    using assms up(1) [of "any_Name d" fx]
    by (auto simp: run_source_def gauge_append split: prod.splits run_result.splits)
qed

text \<open>A round whose session connects and then loses the socket.\<close>

definition dropped_round :: Round where
  "dropped_round = (healthy_round [])\<lparr>rd_session := (rd_session (healthy_round []))
     \<lparr>se_reads := [ReadFails 0 (Sentinel ''EOF'')]\<rparr>\<rparr>"

theorem connection_gauge_stale_witness:
  "\<exists>d' fx ops. run_source (\<lambda>_. 0) Defaults Map.empty example_kraken [dropped_round, refused_round] = (d', fx, ops, RunPending)
     \<and> length (backoffs fx) = 2 \<and> gauge ConnectionUp [any_Name example_kraken] ops = Some 1"
proof -
  let ?run = "run_source (\<lambda>_. 0) Defaults Map.empty example_kraken [dropped_round, refused_round]"
  obtain d' fx ops res where r: "?run = (d', fx, ops, res)" by (metis prod_cases4)
  have "case ?run of (d', fx, ops, res) \<Rightarrow>
      res = RunPending \<and> connects fx = [any_Name example_kraken] \<and> length (backoffs fx) = 2"
    by (simp add: run_source_def Run_def runner_defaults_def DefaultBackoff_def session_def dropped_round_def healthy_round_def
        refused_round_def source_runner_def example_kraken_def Kraken_Subscriptions_def close_deferred_def
        context_Canceled_def Let_def)
  then have "res = RunPending" "any_Name example_kraken \<in> set (connects fx)" "length (backoffs fx) = 2"
    unfolding r by simp_all
  with r connection_gauge_stale [OF r] show ?thesis by (simp add: connects_iff)
qed

theorem session_is_execution_witness:
  "\<exists>s' fx. (step example_marshal (\<lambda>_. []) Memory_Publish Defaults (Map.empty :: Kind \<rightharpoonup> string Encoder))\<^sup>*\<^sup>*
       (initial Defaults NewMemoryProducer) s'
     \<and> sys_queue s' = sent (fx :: any_msg effect list) \<and> sent fx \<noteq> []"
proof -
  let ?s = "initial Defaults NewMemoryProducer" and ?hooks = "snd (buildDecoders Defaults)"
  let ?d = "src_decoder (sys_sources ?s ! 1)" and ?env = "rd_session (healthy_round [(kraken_sample, 0)])"
  obtain d' fx res where e: "session any_decoder (source_runner Defaults ?hooks) ?d ?env = (d', fx, res)"
    by (metis prod_cases3)
  have "r_OnConnect (source_runner Defaults ?hooks) \<noteq> None" by (simp add: source_runner_def)
  note h = healthy_session [OF e this]
  obtain k where k: "subscribed any_decoder (source_runner Defaults ?hooks) ?d = DKraken k"
  proof -
    have "case subscribed any_decoder (source_runner Defaults ?hooks) ?d of DKraken _ \<Rightarrow> True | _ \<Rightarrow> False" by code_simp
    with that show thesis by (auto split: AnyDecoder.splits)
  qed
  have fx: "Connected (any_Name ?d) \<in> set fx" "length (sent fx) = 1"
    using h [unfolded any_decoder_simps k] any_Decode_sample [of k] by (auto simp del: any_Decode.simps)
  have "1 < length (sys_sources ?s) \<and> \<not> src_connected (sys_sources ?s ! 1) \<and> src_outbox (sys_sources ?s ! 1) = []
      \<and> ?hooks (any_Name ?d) = None \<and> sys_queue ?s = [] \<and> 1 \<le> c_BufferSize Defaults" by code_simp
  with session_is_execution [OF _ _ _ e fx(1) refl, where marshal = example_marshal and inject = "\<lambda>_. []"
      and publish = Memory_Publish and encoders = "Map.empty :: Kind \<rightharpoonup> string Encoder"] fx(2)
  obtain s' where "(step example_marshal (\<lambda>_. []) Memory_Publish Defaults (Map.empty :: Kind \<rightharpoonup> string Encoder))\<^sup>*\<^sup>* ?s s'"
    "sys_queue s' = sent fx" by auto
  with fx(2) show ?thesis by (intro exI [of _ s'] exI [of _ fx]) auto
qed

text \<open>
  C8. A session sends what the reference read loop decodes from the frames it was
  given: no event is invented, reordered or skipped, frames that do not decode are passed
  over, and only a cancellation in the middle of a frame cuts the sequence short. The
  decoder is left in the state the reference leaves it in.
\<close>

theorem session_sends_pumped:
  assumes "session D r s env = (s', fx, res)" and "Connected (dec_Name D s) \<in> set fx"
  shows "let (ps, es) = pump (dec_Decode D) (subscribed D r s) (frames_of (se_reads env))
         in prefix (sent fx) es \<and> (list_all uninterrupted (se_reads env) \<longrightarrow> sent fx = es \<and> s' = ps)"
  using assms(1)
proof (cases rule: session_cases)
  case (reading rfx)
  have "sent fx = sent rfx"
    by (simp add: reading(3) close_deferred_def split: option.splits)
  with read_loop_sent [OF reading(2)] show ?thesis by (auto simp: split_beta)
qed (use assms(2) in auto)

theorem session_sends_pumped_witness:
  "\<exists>s' fx res. session any_decoder (source_runner Defaults Map.empty) example_kraken
       (rd_session (healthy_round [(''not json'', 0), (kraken_sample, 0)])) = (s', fx, res)
     \<and> sent fx = snd (pump any_Decode (subscribed any_decoder (source_runner Defaults Map.empty) example_kraken)
         [(''not json'', 0), (kraken_sample, 0)]) \<and> length (sent fx) = 1"
proof -
  let ?r = "source_runner Defaults Map.empty" and ?fs = "[(''not json'', 0), (kraken_sample, 0)]"
  let ?run = "session any_decoder ?r example_kraken (rd_session (healthy_round ?fs))"
  obtain s' fx res where e: "?run = (s', fx, res)" by (metis prod_cases3)
  have "r_OnConnect ?r \<noteq> None" by (simp add: source_runner_def)
  note h = healthy_session [OF e this]
  obtain k where k: "subscribed any_decoder ?r example_kraken = DKraken k"
    by (simp add: subscribed_source example_kraken_def)
  have "case Unmarshal dec_krakenEnvelope krakenEnvelope_zero ''not json'' of Inl _ \<Rightarrow> True | Inr _ \<Rightarrow> False" by code_simp
  then obtain err where "any_Decode (DKraken k) ''not json'' 0 = (DKraken k, Inl err)"
    by (auto simp: Kraken_Decode_def split: sum.splits)
  then have c: "length (sent fx) = 1" "Connected (dec_Name any_decoder example_kraken) \<in> set fx"
    using h any_Decode_sample [of k] by (auto simp: k)
  from session_sends_pumped [OF e c(2)] c(1) e show ?thesis
    by (auto simp: split_beta list_all_iff) (auto simp: healthy_round_def)
qed

text \<open>
  C9. The order of a session's effects: an event is sent only after the dial, after every
  subscription was written in order and after OnConnect has fired, each read waits under
  a deadline set before it, and a session that dialled and ended has closed its connection
  once, as its last act.
\<close>

theorem session_protocol:
  assumes "session D r s env = (s', fx, res)" and "r_OnConnect r \<noteq> None"
  shows "(\<forall>pre e post. fx = pre @ Sent e # post \<longrightarrow>
            (\<exists>mid. pre = Dialed (dec_URL D s) # map Wrote (snd (dec_Subscriptions D s (r_Symbols r)))
                     @ Connected (dec_Name D s) # mid \<and> (\<exists>t. DeadlineSet t \<in> set mid)))
       \<and> (se_dial env (dec_URL D s) = None \<longrightarrow> res \<noteq> None \<longrightarrow>
            last fx = ConnClosed \<and> length (filter (\<lambda>x. x = ConnClosed) fx) = 1)"
  using assms(1)
proof (cases rule: session_cases)
  case (reading rfx)
  let ?A = "Dialed (dec_URL D s) # map Wrote (snd (dec_Subscriptions D s (r_Symbols r))) @ [Connected (dec_Name D s)]"
  have fx: "fx = ?A @ close_deferred rfx res" using reading(3) assms(2) by auto
  have only: "x \<in> set rfx \<Longrightarrow> (\<exists>t. x = DeadlineSet t) \<or> (\<exists>e. x = Sent e)" for x
    using read_loop_effects [OF reading(2)] .
  have "\<exists>mid. pre = ?A @ mid \<and> (\<exists>t. DeadlineSet t \<in> set mid)" if eq: "fx = pre @ Sent e # post" for pre e post
  proof -
    obtain mid where mid: "pre = ?A @ mid" "close_deferred rfx res = mid @ Sent e # post"
      using split_after_prefix [OF eq [unfolded fx]] by auto
    with read_loop_hd [OF reading(2)] show ?thesis
      by (cases mid; cases rfx) (auto simp: close_deferred_def split: option.splits)
  qed
  moreover have "filter (\<lambda>x. x = ConnClosed) rfx = []" using only by (fastforce simp: filter_empty_conv)
  then have "last fx = ConnClosed \<and> length (filter (\<lambda>x. x = ConnClosed) fx) = 1" if "res \<noteq> None"
    using that fx by (auto simp: close_deferred_def filter_empty_conv comp_def)
  ultimately show ?thesis by auto
qed (auto simp: append_eq_Cons_conv Cons_eq_append_conv filter_empty_conv comp_def dest!: arg_cong [of _ _ set])

theorem session_protocol_witness:
  "\<exists>s' fx err. session any_decoder (source_runner Defaults Map.empty) example_kraken (rd_session dropped_round) = (s', fx, Some err)
     \<and> last fx = ConnClosed \<and> length (filter (\<lambda>x. x = ConnClosed) fx) = 1"
proof -
  let ?r = "source_runner Defaults Map.empty"
  have d: "list_ex ends_reading (se_reads (rd_session dropped_round))" "se_dial (rd_session dropped_round) url = None" for url
    by (simp_all add: dropped_round_def healthy_round_def)
  obtain s' fx err where e: "session any_decoder ?r example_kraken (rd_session dropped_round) = (s', fx, Some err)"
    using session_ends [OF d(1), of any_decoder ?r example_kraken] by (metis not_None_eq prod.collapse)
  have "r_OnConnect ?r \<noteq> None" by (simp add: source_runner_def)
  from session_protocol [OF e this] d(2) e show ?thesis by auto
qed

end
