(* ===== verification/Tracing.thy ===== *)
theory Tracing
  imports Sink GoDuration "HOL-Library.AList"
begin

text \<open>
  \<open>internal/tracing/tracing.go\<close>: installing the tracer provider, and carrying a span
  context through Kafka headers. The OpenTelemetry library is not part of the repository:
  the results of its constructors, whether a context holds a valid span, and what a
  propagator writes and reads are arguments.
\<close>

section \<open>Init\<close>

definition ServiceName :: string where
  "ServiceName = ''tapeline-ingestd''"

record TracingConfig =
  tr_Endpoint :: string
  tr_SampleRatio :: float64
  tr_Version :: string

text \<open>The SDK provider as \<open>Init\<close> configures it; the sampler is parent-based on a ratio.\<close>

record SdkProvider =
  tp_ServiceName :: string
  tp_ServiceVersion :: string
  tp_MaxQueueSize :: int
  tp_BatchTimeout :: int64
  tp_ParentBasedRatio :: float64

datatype TracerProvider = NoopProvider | SdkTracerProvider SdkProvider

datatype Propagation = TraceContext | Baggage

record Globals =
  gl_provider :: "TracerProvider option"
  gl_propagator :: "Propagation list"

datatype Shutdown = ShutdownNothing | ShutdownProvider SdkProvider

text \<open>\<open>x <= y\<close>, false when either is a NaN.\<close>

definition f_le :: "float64 \<Rightarrow> float64 \<Rightarrow> bool" where
  "f_le x y \<longleftrightarrow> x \<noteq> FNaN \<and> y \<noteq> FNaN \<and> \<not> f_less y x"

definition sample_ratio :: "float64 \<Rightarrow> float64" where
  "sample_ratio ratio =
     (if f_le ratio (f_zero False) \<or> f_less (f_of_int 1) ratio then f_round False 1 100 else ratio)"

text \<open>
  \<open>exporter\<close> is the error of \<open>otlptracegrpc.New\<close> for an endpoint, \<open>merge\<close> that of
  \<open>resource.Merge\<close>.
\<close>

definition Init ::
  "(string \<Rightarrow> goerror option) \<Rightarrow> goerror option \<Rightarrow> TracingConfig \<Rightarrow> Globals \<Rightarrow> Globals \<times> Shutdown result"
where
  "Init exporter merge cfg g =
     (if tr_Endpoint cfg = '''' then (g\<lparr>gl_provider := Some NoopProvider\<rparr>, Inr ShutdownNothing)
      else case exporter (tr_Endpoint cfg) of
        Some err \<Rightarrow> (g, Inl (Errorf ''otlp exporter: %w'' [] (Some err)))
      | None \<Rightarrow>
          (case merge of
             Some err \<Rightarrow> (g, Inl (Errorf ''otel resource: %w'' [] (Some err)))
           | None \<Rightarrow>
               (let tp = \<lparr>tp_ServiceName = ServiceName, tp_ServiceVersion = tr_Version cfg,
                          tp_MaxQueueSize = 4096, tp_BatchTimeout = 5 * 1000000000,
                          tp_ParentBasedRatio = sample_ratio (tr_SampleRatio cfg)\<rparr>
                in (\<lparr>gl_provider = Some (SdkTracerProvider tp), gl_propagator = [TraceContext, Baggage]\<rparr>,
                    Inr (ShutdownProvider tp)))))"

text \<open>A tracer is the installed provider's, by the name of the service.\<close>

definition Tracer :: "Globals \<Rightarrow> TracerProvider option \<times> string" where
  "Tracer g = (gl_provider g, ServiceName)"

section \<open>Kafka headers\<close>

text \<open>The carrier, a Go map, is the list of its entries in range order; keys are distinct.\<close>

type_synonym KafkaHeaderCarrier = "(string \<times> string) list"

definition Carrier_Get :: "KafkaHeaderCarrier \<Rightarrow> string \<Rightarrow> string" where
  "Carrier_Get c key = (case map_of c key of None \<Rightarrow> '''' | Some v \<Rightarrow> v)"

definition Carrier_Set :: "string \<Rightarrow> string \<Rightarrow> KafkaHeaderCarrier \<Rightarrow> KafkaHeaderCarrier" where
  "Carrier_Set key v c = AList.update key v c"

definition Carrier_Keys :: "KafkaHeaderCarrier \<Rightarrow> string list" where
  "Carrier_Keys c = map fst c"

text \<open>
  A propagator writes a context as a sequence of \<open>Set\<close> calls and reads one through \<open>Get\<close>.
\<close>

record 'ctx Propagator =
  prop_Inject :: "'ctx \<Rightarrow> (string \<times> string) list"
  prop_Extract :: "'ctx \<Rightarrow> (string \<Rightarrow> string) \<Rightarrow> 'ctx"

definition InjectKafka :: "('ctx \<Rightarrow> bool) \<Rightarrow> 'ctx Propagator \<Rightarrow> 'ctx \<Rightarrow> KafkaHeaderCarrier option" where
  "InjectKafka valid P ctx =
     (if \<not> valid ctx then None
      else (let carrier = fold (\<lambda>(k, v). Carrier_Set k v) (prop_Inject P ctx) []
            in if carrier = [] then None else Some carrier))"

definition ExtractKafka :: "'ctx Propagator \<Rightarrow> 'ctx \<Rightarrow> KafkaHeaderCarrier \<Rightarrow> 'ctx" where
  "ExtractKafka P ctx headers = (if headers = [] then ctx else prop_Extract P ctx (Carrier_Get headers))"

definition VenueAttributes :: "string \<Rightarrow> string \<Rightarrow> string \<Rightarrow> (string \<times> string) list" where
  "VenueAttributes venue symbol kind =
     [(''tapeline.venue'', venue), (''tapeline.symbol'', symbol), (''tapeline.kind'', kind)]"

text \<open>The \<open>Trace\<close> field of a message: a nil map has no entries.\<close>

definition trace_field :: "('ctx \<Rightarrow> bool) \<Rightarrow> 'ctx Propagator \<Rightarrow> 'ctx \<Rightarrow> (string \<times> string) list" where
  "trace_field valid P ctx = (case InjectKafka valid P ctx of None \<Rightarrow> [] | Some c \<Rightarrow> c)"

section \<open>Facts\<close>

lemma fold_Set_map_of:
  "map_of (fold (\<lambda>(k, v). Carrier_Set k v) kvs c) = map_of c ++ map_of (rev kvs)"
  by (induction kvs arbitrary: c) (auto simp: Carrier_Set_def update_conv' map_add_assoc split: prod.splits)

lemma fold_Set_keys:
  "set (Carrier_Keys (fold (\<lambda>(k, v). Carrier_Set k v) kvs c)) = fst ` set kvs \<union> fst ` set c"
  by (induction kvs arbitrary: c) (auto simp: Carrier_Set_def Carrier_Keys_def dom_update split: prod.splits)

lemma fold_Set_distinct:
  "distinct (Carrier_Keys c) \<Longrightarrow> distinct (Carrier_Keys (fold (\<lambda>(k, v). Carrier_Set k v) kvs c))"
  by (induction kvs arbitrary: c) (auto simp: Carrier_Set_def Carrier_Keys_def distinct_update split: prod.splits)

lemma map_of_rev_distinct:
  assumes "distinct (map fst xs)"
  shows "map_of (rev xs) = map_of xs"
proof
  fix k
  have "map_of (rev xs) k = Some v \<longleftrightarrow> map_of xs k = Some v" for v
    using assms by (simp add: map_of_eq_Some_iff rev_map [symmetric])
  then show "map_of (rev xs) k = map_of xs k" by (metis not_Some_eq)
qed

lemma trace_field_valid:
  assumes "valid ctx" and "distinct (map fst (prop_Inject P ctx))"
  shows "map_of (trace_field valid P ctx) = map_of (prop_Inject P ctx)"
proof -
  let ?c = "fold (\<lambda>(k, v). Carrier_Set k v) (prop_Inject P ctx) []"
  have m: "map_of ?c = map_of (prop_Inject P ctx)"
    using assms(2) by (simp add: fold_Set_map_of map_of_rev_distinct)
  have "trace_field valid P ctx = ?c"
    using assms(1) by (simp add: trace_field_def InjectKafka_def Let_def)
  with m show ?thesis by simp
qed

section \<open>Properties\<close>

text \<open>
  C29. A span context survives the trip through Kafka: what \<open>InjectKafka\<close> puts into a
  message, the producer writes next to its own headers, and \<open>ExtractKafka\<close> on the record's
  headers gives back the span, for every propagator whose fields determine the span and do
  not collide with the producer's header names.
\<close>

theorem trace_survives_kafka:
  assumes "valid ctx" and "distinct (map fst (prop_Inject P ctx))"
    and "''venue'' \<notin> fst ` set (prop_Inject P ctx)" and "''kind'' \<notin> fst ` set (prop_Inject P ctx)"
    and "\<And>get base. \<forall>(k, v) \<in> set (prop_Inject P ctx). get k = v \<Longrightarrow> span (prop_Extract P base get) = span ctx"
    and "Msg_Trace m = trace_field valid P ctx"
  shows "span (ExtractKafka P base (km_Headers (kafka_message m))) = span ctx"
proof -
  let ?h = "km_Headers (kafka_message m)"
  have "Carrier_Get ?h k = v" if kv: "(k, v) \<in> set (prop_Inject P ctx)" for k v
  proof -
    have "k \<noteq> ''venue''" "k \<noteq> ''kind''" using kv assms(3,4) by force+
    moreover have "map_of (Msg_Trace m) k = Some v"
      using kv assms(2) trace_field_valid [of valid ctx P] assms(1,6) by (simp add: map_of_is_SomeI)
    ultimately show ?thesis by (simp add: Carrier_Get_def kafka_message_def)
  qed
  then have "span (prop_Extract P base (Carrier_Get ?h)) = span ctx" by (intro assms(5)) auto
  then show ?thesis by (simp add: ExtractKafka_def kafka_message_def)
qed

text \<open>A propagator that writes a context, here a trace id, in one header.\<close>

definition example_propagator :: "string Propagator" where
  "example_propagator = \<lparr>prop_Inject = (\<lambda>ctx. [(''traceparent'', ctx)]), prop_Extract = (\<lambda>ctx get. get ''traceparent'')\<rparr>"

definition example_traced :: Message where
  "example_traced =
     \<lparr>Msg_Topic = ''md.trades.v1'', Msg_Key = ''BTC-USD'', Msg_Value = [], Msg_TimeUS = 0, Msg_Venue = ''kraken'',
      Msg_Kind = ''trade'', Msg_Trace = trace_field (\<lambda>_. True) example_propagator ''00-abc-01''\<rparr>"

theorem trace_survives_kafka_witness:
  "ExtractKafka example_propagator '''' (km_Headers (kafka_message example_traced)) = ''00-abc-01''"
  using trace_survives_kafka [of "\<lambda>_. True" "''00-abc-01''" example_propagator "\<lambda>x. x" example_traced "''''"]
  by (simp add: example_propagator_def example_traced_def)

text \<open>
  An untraced event costs nothing: without a valid span the message has no trace
  entries and the record exactly the producer's two headers; and extracting from a record
  without headers leaves the context alone.
\<close>

theorem untraced_adds_nothing:
  assumes "\<not> valid ctx" and "Msg_Trace m = trace_field valid P ctx"
  shows "InjectKafka valid P ctx = None
       \<and> km_Headers (kafka_message m) = [(''venue'', Msg_Venue m), (''kind'', Msg_Kind m)]
       \<and> ExtractKafka P ctx (Msg_Trace m) = ctx"
  using assms by (simp add: InjectKafka_def trace_field_def kafka_message_def ExtractKafka_def)

theorem untraced_adds_nothing_witness:
  "km_Headers (kafka_message (example_traced\<lparr>Msg_Trace := []\<rparr>)) = [(''venue'', ''kraken''), (''kind'', ''trade'')]"
  using untraced_adds_nothing [of "\<lambda>_. False" "''''" "example_traced\<lparr>Msg_Trace := []\<rparr>" example_propagator]
  by (simp add: example_traced_def trace_field_def InjectKafka_def)

text \<open>
  A sample ratio of zero, which the configuration accepts as "never", is replaced by
  one percent; every other ratio in the accepted range is used as configured. When the
  exporter or the resource cannot be built nothing is installed.
\<close>

theorem zero_ratio_still_samples:
  "sample_ratio (f_zero neg) = f_round False 1 100
   \<and> (f_less (f_zero False) r \<longrightarrow> \<not> f_less (f_of_int 1) r \<longrightarrow> sample_ratio r = r)
   \<and> (\<forall>err. snd (Init exporter merge cfg g) = Inl err \<longrightarrow> fst (Init exporter merge cfg g) = g)"
proof -
  have "\<not> f_less (f_zero False) (f_zero neg)" by (simp add: f_zero_def f_ratio_def ipow_power f_signed_def)
  then have "sample_ratio (f_zero neg) = f_round False 1 100"
    by (simp add: sample_ratio_def f_le_def f_zero_def)
  moreover have "f_less (f_zero False) r \<longrightarrow> \<not> f_less (f_of_int 1) r \<longrightarrow> sample_ratio r = r"
    by (simp add: sample_ratio_def f_le_def)
  moreover have "\<forall>err. snd (Init exporter merge cfg g) = Inl err \<longrightarrow> fst (Init exporter merge cfg g) = g"
    by (simp add: Init_def Let_def split: option.splits)
  ultimately show ?thesis by blast
qed

theorem zero_ratio_still_samples_witness:
  "sample_ratio (f_zero False) = f_round False 1 100 \<and> sample_ratio (f_round False 1 2) = f_round False 1 2"
proof -
  have "f_less (f_zero False) (f_round False 1 2)" "\<not> f_less (f_of_int 1) (f_round False 1 2)" by code_simp+
  with zero_ratio_still_samples [of False "f_round False 1 2"] show ?thesis by blast
qed

end
