(* ===== verification/Service.thy ===== *)
theory Service
  imports Supervisor Tracing
begin

text \<open>
  The process: \<open>run\<close> and \<open>newLogger\<close> of \<open>cmd/ingestd/main.go\<close>. Startup is a sequence of
  stages that may fail, each acquiring what a \<open>defer\<close> releases; the model records what is
  acquired, started and released, in order. How the pipeline ends is an argument (its own
  behaviour is \<open>Pipeline_Run\<close>), as are the libraries' constructors. The order in which a
  range loop visits the topics is the argument \<open>ord\<close>.
\<close>

section \<open>newLogger\<close>

text \<open>\<open>slog.Level.UnmarshalText\<close>: a name in any case, optionally with a signed offset.\<close>

definition level_value :: "string \<Rightarrow> int64 option" where
  "level_value name =
     map_of [(''DEBUG'', - 4), (''INFO'', 0), (''WARN'', 4), (''ERROR'', 8)] (ToUpper name)"

definition is_sign :: "char \<Rightarrow> bool" where
  "is_sign c \<longleftrightarrow> c = CHR ''+'' \<or> c = CHR ''-''"

definition UnmarshalLevel :: "string \<Rightarrow> int64 result" where
  "UnmarshalLevel s =
     (let name = takeWhile (\<lambda>c. \<not> is_sign c) s; off = dropWhile (\<lambda>c. \<not> is_sign c) s
      in case (if off = [] then Inr 0 else ParseInt off 10) of
           Inl err \<Rightarrow> Inl (Errorf ''slog: level string %q: %w'' [s] (Some err))
         | Inr k \<Rightarrow>
             (case level_value name of
                None \<Rightarrow> Inl (Errorf ''slog: level string %q: %w'' [s] (Some (Sentinel ''unknown name'')))
              | Some l \<Rightarrow> Inr (wrap64 (l + k))))"

definition newLogger :: "string \<Rightarrow> int64" where
  "newLogger level = (case UnmarshalLevel level of Inl _ \<Rightarrow> 0 | Inr lvl \<Rightarrow> lvl)"

section \<open>run\<close>

datatype resource = RSignals | RTracing Shutdown | RProducer Producer

datatype run_effect =
    Acquire resource
  | Release resource
  | ServeMetrics string
  | StartRunner AnyDecoder
  | PipelineRan Stats
  | WaitGroupDone

definition version :: string where "version = ''dev''"

definition tracing_config :: "Config \<Rightarrow> TracingConfig" where
  "tracing_config cfg =
     \<lparr>tr_Endpoint = c_OTLPEndpoint cfg, tr_SampleRatio = c_TraceSampleRatio cfg, tr_Version = version\<rparr>"

definition topic_entries :: "Config \<Rightarrow> (Kind \<times> string) list" where
  "topic_entries cfg =
     [(KindTrade, c_TopicTrades cfg), (KindBookDelta, c_TopicBook cfg), (KindChainTransfer, c_TopicChain cfg)]"

text \<open>
  The tail of \<open>run\<close>, once producer and encoders exist. When the pipeline has returned,
  \<open>stop()\<close> is called before the goroutines are waited for: it is the same function as the
  deferred one, so the signal handler is released here and, with no further effect of its
  own, once more by the \<open>defer\<close>.
\<close>

definition serve_sources ::
  "('s PipelineConfig \<Rightarrow> Producer \<Rightarrow> Stats \<times> goerror option) \<Rightarrow> Config \<Rightarrow> (Kind \<rightharpoonup> 's Encoder) \<Rightarrow> Producer \<Rightarrow>
   run_effect list \<times> goerror option"
where
  "serve_sources pipeline cfg encoders prd =
     (let (decoders, resetters) = buildDecoders cfg
      in if decoders = [] then
           ([ServeMetrics (c_MetricsAddr cfg)], Some (Sentinel ''no ingestion sources configured''))
         else
           (let (stats, err) = pipeline (main_pipeline cfg encoders) prd
            in (ServeMetrics (c_MetricsAddr cfg) # map StartRunner decoders @
                  [PipelineRan stats, Release RSignals, WaitGroupDone], err)))"

definition run ::
  "'h transport \<Rightarrow> (string \<Rightarrow> 's result) \<Rightarrow> (string \<Rightarrow> goerror option) \<Rightarrow> goerror option \<Rightarrow>
   ((Kind \<times> string) list \<Rightarrow> (Kind \<times> string) list) \<Rightarrow> (Kind \<times> string) list \<Rightarrow>
   ('s PipelineConfig \<Rightarrow> Producer \<Rightarrow> Stats \<times> goerror option) \<Rightarrow>
   (string \<rightharpoonup> string) \<Rightarrow> 'h \<Rightarrow> Globals \<Rightarrow> run_effect list \<times> goerror option"
where
  "run http parse exporter merge ord schemas pipeline env h g =
     (case Load env of
        (cfg, Some err) \<Rightarrow> ([], Some err)
      | (cfg, None) \<Rightarrow>
          (case snd (Init exporter merge (tracing_config cfg) g) of
             Inl err \<Rightarrow>
               ([Acquire RSignals, Release RSignals], Some (Errorf ''initialising tracing: %w'' [] (Some err)))
           | Inr shut \<Rightarrow>
               (case buildEncoders http parse cfg (ord (topic_entries cfg)) schemas h of
                  (_, _, Inl err) \<Rightarrow>
                    ([Acquire RSignals, Acquire (RTracing shut), Release (RTracing shut), Release RSignals], Some err)
                | (_, _, Inr encoders) \<Rightarrow>
                    (let prd = buildProducer cfg;
                         (fx, err) = serve_sources pipeline cfg encoders prd
                     in ([Acquire RSignals, Acquire (RTracing shut), Acquire (RProducer prd)] @ fx @
                         [Release (RProducer prd), Release (RTracing shut), Release RSignals], err)))))"

text \<open>\<open>main\<close>: an error of \<open>run\<close> is the exit status 1.\<close>

definition ingestd_main :: "run_effect list \<times> goerror option \<Rightarrow> run_effect list \<times> int" where
  "ingestd_main r = (fst r, if snd r \<noteq> None then 1 else 0)"

section \<open>Facts\<close>

fun acquired :: "run_effect list \<Rightarrow> resource list" where
  "acquired [] = []"
| "acquired (Acquire r # fx) = r # acquired fx"
| "acquired (_ # fx) = acquired fx"

fun released :: "run_effect list \<Rightarrow> resource list" where
  "released [] = []"
| "released (Release r # fx) = r # released fx"
| "released (_ # fx) = released fx"

lemma acquired_append [simp]: "acquired (xs @ ys) = acquired xs @ acquired ys"
  by (induction xs rule: acquired.induct) auto

lemma released_append [simp]: "released (xs @ ys) = released xs @ released ys"
  by (induction xs rule: released.induct) auto

lemma starts_only [simp]: "acquired (map StartRunner ds) = []" "released (map StartRunner ds) = []"
  by (induction ds) auto

lemma serve_sources_cases:
  assumes "serve_sources pipeline cfg encoders prd = (fx, err)"
  obtains (none) "fx = [ServeMetrics (c_MetricsAddr cfg)]" "fst (buildDecoders cfg) = []"
  | (served) stats where
      "fx = (ServeMetrics (c_MetricsAddr cfg) # map StartRunner (fst (buildDecoders cfg))) @
         [PipelineRan stats, Release RSignals, WaitGroupDone]"
      "fst (buildDecoders cfg) \<noteq> []"
  using assms by (auto simp: serve_sources_def Let_def split: prod.splits if_splits)

text \<open>The four ways \<open>run\<close> goes.\<close>

lemma run_cases:
  assumes "run http parse exporter merge ord schemas pipeline env h g = (fx, err)"
  obtains (unconfigured) "fx = []"
  | (untraced) "fx = [Acquire RSignals, Release RSignals]"
  | (unregistered) shut where
      "fx = [Acquire RSignals, Acquire (RTracing shut), Release (RTracing shut), Release RSignals]"
  | (served) cfg shut encs sfx where
      "serve_sources pipeline cfg encs (buildProducer cfg) = (sfx, err)"
      "fx = [Acquire RSignals, Acquire (RTracing shut), Acquire (RProducer (buildProducer cfg))] @ sfx @
         [Release (RProducer (buildProducer cfg)), Release (RTracing shut), Release RSignals]"
proof -
  obtain cfg lerr where l: "Load env = (cfg, lerr)" by fastforce
  obtain ir where i: "snd (Init exporter merge (tracing_config cfg) g) = ir" by blast
  obtain h' ops br where b: "buildEncoders http parse cfg (ord (topic_entries cfg)) schemas h = (h', ops, br)"
    by (metis prod_cases3)
  show thesis
  proof (cases lerr)
    case (Some e)
    with assms l show thesis by (intro unconfigured) (simp add: run_def)
  next
    case l': None
    show thesis
    proof (cases ir)
      case (Inl e)
      with assms l l' i show thesis by (intro untraced) (simp add: run_def)
    next
      case (Inr shut)
      show thesis
      proof (cases br)
        case (Inl e)
        with assms l l' i b Inr show thesis by (intro unregistered [of shut]) (simp add: run_def)
      next
        case br: (Inr encs)
        obtain sfx serr where s: "serve_sources pipeline cfg encs (buildProducer cfg) = (sfx, serr)" by fastforce
        with assms l l' i b Inr br show thesis by (intro served [of cfg encs sfx shut]) (simp_all add: run_def Let_def)
      qed
    qed
  qed
qed

section \<open>Properties\<close>

text \<open>
  C28. How the process shuts down, on every path. When sources were started, the pipeline
  has returned, the signal handler is stopped, which cancels the context, then the
  goroutines are waited for, and only then is the producer closed, tracing shut down and
  the deferred \<open>stop\<close> run; nothing follows. When none was started, failures of the
  configuration, of tracing and of the registration included, exactly what was acquired is
  released, each resource once, in reverse order, as the last thing that happens. In both
  cases everything before that point releases nothing.
\<close>

theorem run_shutdown_order:
  assumes "run http parse exporter merge ord schemas pipeline env h g = (fx, err)"
  shows "\<exists>work. released work = [] \<and>
    (if \<exists>d. StartRunner d \<in> set fx
     then \<exists>stats shut prd. acquired work = [RSignals, RTracing shut, RProducer prd]
        \<and> fx = work @ [PipelineRan stats, Release RSignals, WaitGroupDone,
                     Release (RProducer prd), Release (RTracing shut), Release RSignals]
     else fx = work @ map Release (rev (acquired work)))"
  using assms
proof (cases rule: run_cases)
  case unconfigured
  then show ?thesis by (intro exI [of _ "[]"]) simp
next
  case untraced
  then show ?thesis by (intro exI [of _ "[Acquire RSignals]"]) simp
next
  case (unregistered shut)
  then show ?thesis by (intro exI [of _ "[Acquire RSignals, Acquire (RTracing shut)]"]) simp
next
  case (served cfg shut encs sfx)
  let ?acq = "[Acquire RSignals, Acquire (RTracing shut), Acquire (RProducer (buildProducer cfg))]"
  from served(1) show ?thesis
  proof (cases rule: serve_sources_cases)
    case none
    with served(2) show ?thesis by (intro exI [of _ "?acq @ [ServeMetrics (c_MetricsAddr cfg)]"]) simp
  next
    case (served stats)
    let ?work = "?acq @ ServeMetrics (c_MetricsAddr cfg) # map StartRunner (fst (buildDecoders cfg))"
    have "\<exists>d. StartRunner d \<in> set fx"
      using served \<open>fx = _ @ sfx @ _\<close> by (cases "fst (buildDecoders cfg)") auto
    moreover have "released ?work = []" "acquired ?work = [RSignals, RTracing shut, RProducer (buildProducer cfg)]"
      by simp_all
    ultimately show ?thesis using served(1) \<open>fx = _ @ sfx @ _\<close> by (intro exI [of _ ?work]) simp
  qed
qed

definition dry_run_service :: "run_effect list \<times> goerror option" where
  "dry_run_service =
     run example_http (Inr :: string \<Rightarrow> string result) (\<lambda>_. None) None (\<lambda>ts. ts) (Current ''t'' ''b'' ''c'')
       (\<lambda>_ _. (Stats_zero, None)) [''TAPELINE_DRY_RUN'' \<mapsto> ''true''] 0
       \<lparr>gl_provider = None, gl_propagator = []\<rparr>"

theorem run_shutdown_order_witness:
  "\<exists>work stats shut prd. acquired work = [RSignals, RTracing shut, RProducer prd] \<and> released work = []
     \<and> fst dry_run_service = work @ [PipelineRan stats, Release RSignals, WaitGroupDone,
          Release (RProducer prd), Release (RTracing shut), Release RSignals]"
proof -
  obtain fx err where r: "dry_run_service = (fx, err)" by fastforce
  have "list_ex (\<lambda>e. case e of StartRunner _ \<Rightarrow> True | _ \<Rightarrow> False) (fst dry_run_service)" by code_simp
  then obtain e where "e \<in> set fx" "case e of StartRunner _ \<Rightarrow> True | _ \<Rightarrow> False"
    unfolding r fst_conv list_ex_iff by blast
  then have started: "\<exists>d. StartRunner d \<in> set fx" by (cases e rule: run_effect.exhaust) auto
  show ?thesis
    using run_shutdown_order [OF r [unfolded dry_run_service_def]]
    unfolding if_P [OF started] r fst_conv by blast
qed

text \<open>
  C30. A schema the registry calls incompatible keeps the service from starting, whichever
  topic it is for: if the topics visited before it were registered and the compatibility
  check of the next one, in the state they left, is answered with no, \<open>run\<close> returns an error
  that names its subject before a producer exists, before the metrics server and before any
  source is started, and still shuts tracing down.
\<close>

theorem incompatible_schema_refuses_start:
  assumes "Load env = (cfg, None)" and "\<not> c_DryRun cfg"
    and "snd (Init exporter merge (tracing_config cfg) g) = Inr shut"
    and "ord (topic_entries cfg) = pre @ (kind, topic) # rest"
    and "RegisterSchemas http parse pre schemas
           (NewClient (c_SchemaRegistryURL cfg),
            pin_compatibility http (NewClient (c_SchemaRegistryURL cfg)) (pre @ (kind, topic) # rest) h, []) =
         ((c1, h1, ops), Inr encs)"
    and "map_of schemas kind = Some js"
    and "CheckCompatibility http c1 h1 (SubjectForTopic topic) js = (h2, Inr False)"
  shows "run http parse exporter merge ord schemas pipeline env h g =
           ([Acquire RSignals, Acquire (RTracing shut), Release (RTracing shut), Release RSignals],
            Some (Errorf ''registering schemas: %w'' [] (Some (errIncompatible (SubjectForTopic topic)))))"
proof -
  have "RegisterSchemas http parse (pre @ (kind, topic) # rest) schemas
      (NewClient (c_SchemaRegistryURL cfg),
       pin_compatibility http (NewClient (c_SchemaRegistryURL cfg)) (pre @ (kind, topic) # rest) h, []) =
      ((c1, h2, ops), Inl (errIncompatible (SubjectForTopic topic)))"
    by (rule incompatible_schema_stops_startup [OF assms(5-7)])
  with assms(1-4) show ?thesis by (simp add: run_def buildEncoders_def Let_def)
qed

text \<open>A registry that accepts the trades and refuses the books.\<close>

definition refusing_http :: "nat transport" where
  \<open>refusing_http n req =
     (Suc n, Inr \<lparr>rs_Status = 200, rs_Body =
        (if rq_URL req = ''http://localhost:8081/compatibility/subjects/md.book.v1-value/versions/latest''
         then ''{"is_compatible":false}'' else ''{"id":7,"is_compatible":true}'')\<rparr>)\<close>

theorem incompatible_schema_refuses_start_witness:
  "run refusing_http (Inr :: string \<Rightarrow> string result) (\<lambda>_. None) None (\<lambda>ts. ts) (Current ''t'' ''b'' ''c'')
       (\<lambda>_ _. (Stats_zero, None)) Map.empty 0 \<lparr>gl_provider = None, gl_propagator = []\<rparr> =
     ([Acquire RSignals, Acquire (RTracing ShutdownNothing), Release (RTracing ShutdownNothing), Release RSignals],
      Some (Errorf ''registering schemas: %w'' [] (Some (errIncompatible (SubjectForTopic (c_TopicBook Defaults))))))"
proof -
  let ?pre = "[(KindTrade, c_TopicTrades Defaults)]"
  let ?rest = "[(KindChainTransfer, c_TopicChain Defaults)]"
  let ?c = "NewClient (c_SchemaRegistryURL Defaults)"
  let ?h = "pin_compatibility refusing_http ?c (?pre @ (KindBookDelta, c_TopicBook Defaults) # ?rest) 0"
  let ?r = "RegisterSchemas refusing_http (Inr :: string \<Rightarrow> string result) ?pre (Current ''t'' ''b'' ''c'') (?c, ?h, [])"
  have "case ?r of ((c1, h1, ops), res) \<Rightarrow> is_ok res
      \<and> snd (CheckCompatibility refusing_http c1 h1 (SubjectForTopic (c_TopicBook Defaults)) ''b'') = Inr False"
    by code_simp
  moreover obtain c1 h1 ops res where r: "?r = ((c1, h1, ops), res)" by (metis surj_pair)
  ultimately obtain encs h2 where r': "?r = ((c1, h1, ops), Inr encs)"
    "CheckCompatibility refusing_http c1 h1 (SubjectForTopic (c_TopicBook Defaults)) ''b'' = (h2, Inr False)"
    by (auto simp: is_ok_iff) (metis prod.collapse)
  show ?thesis
  proof (rule incompatible_schema_refuses_start [OF _ _ _ _ r'(1) _ r'(2)])
    show "Load Map.empty = (Defaults, None)" and "\<not> c_DryRun Defaults" by code_simp+
    show "snd (Init (\<lambda>_. None) None (tracing_config Defaults) \<lparr>gl_provider = None, gl_propagator = []\<rparr>) = Inr ShutdownNothing"
      by code_simp
    show "topic_entries Defaults = ?pre @ (KindBookDelta, c_TopicBook Defaults) # ?rest" by (simp add: topic_entries_def)
    show "map_of (Current ''t'' ''b'' ''c'') KindBookDelta = Some ''b''" by code_simp
  qed
qed

end
