(* ===== verification/Topicbench.thy ===== *)
theory Topicbench
  imports GoDuration "HOL-Library.Multiset"
begin

text \<open>
  \<open>tools/topicbench/main.go\<close>, the benchmark behind the topic-per-event-type decision: it
  writes every payload once to the topic of its type and once to a monolithic topic, then
  counts what a consumer of one type has to fetch from each. Kafka's writer and reader and
  the random source are arguments: a write has a state and may fail, a read delivers a
  message or an error.
\<close>

section \<open>Data\<close>

record bench_kind =
  bk_name :: string
  bk_topic :: string
  bk_bytes :: nat

definition kinds :: "bench_kind list" where
  "kinds =
     [\<lparr>bk_name = ''trade'', bk_topic = ''bench.trades'', bk_bytes = 120\<rparr>,
      \<lparr>bk_name = ''book'', bk_topic = ''bench.book'', bk_bytes = 900\<rparr>,
      \<lparr>bk_name = ''quote'', bk_topic = ''bench.quotes'', bk_bytes = 180\<rparr>]"

definition monolithTopic :: string where "monolithTopic = ''bench.all''"
definition typeHeader :: string where "typeHeader = ''event_type''"

record bench_message =
  bm_Topic :: string
  bm_Key :: string
  bm_Value :: bytes
  bm_Headers :: "(string \<times> string) list"

text \<open>The defaults of the flags, and what the writer and the readers are configured with.\<close>

record bench_flags =
  bf_brokers :: string
  bf_perType :: int64
  bf_target :: string

definition bench_flag_defaults :: bench_flags where
  "bench_flag_defaults = \<lparr>bf_brokers = ''localhost:9092'', bf_perType = 60000, bf_target = ''trade''\<rparr>"

record bench_writer =
  bw_Addr :: string
  bw_HashBalancer :: bool
  bw_RequireOne :: bool
  bw_BatchSize :: int64

definition bench_writer_of :: "string \<Rightarrow> bench_writer" where
  "bench_writer_of brokers = \<lparr>bw_Addr = brokers, bw_HashBalancer = True, bw_RequireOne = True, bw_BatchSize = 500\<rparr>"

record bench_reader =
  brd_Brokers :: "string list"
  brd_Topic :: string
  brd_GroupID :: string
  brd_MinBytes :: int64
  brd_MaxBytes :: int64

definition bench_reader_of :: "string \<Rightarrow> string \<Rightarrow> int64 \<Rightarrow> bench_reader" where
  "bench_reader_of brokers topic unixNano =
     \<lparr>brd_Brokers = [brokers], brd_Topic = topic, brd_GroupID = ''topicbench-'' @ topic @ ''-'' @ FormatInt unixNano,
      brd_MinBytes = 1024, brd_MaxBytes = 10485760\<rparr>"

section \<open>Producing\<close>

definition bench_symbols :: "string list" where
  "bench_symbols = [''BTC-USD'', ''ETH-USD'', ''SOL-USD'']"

text \<open>The closure \<open>flush\<close>: the batch is emptied whether or not the write succeeded.\<close>

definition bench_flush ::
  "('w \<Rightarrow> bench_message list \<Rightarrow> 'w \<times> goerror option) \<Rightarrow> 'w \<Rightarrow> bench_message list \<Rightarrow>
   'w \<times> bench_message list \<times> goerror option"
where
  "bench_flush WriteMessages w batch =
     (if batch = [] then (w, [], None) else (case WriteMessages w batch of (w', err) \<Rightarrow> (w', [], err)))"

text \<open>The two messages of one payload.\<close>

definition bench_pair :: "nat \<Rightarrow> bench_kind \<Rightarrow> bytes \<Rightarrow> bench_message list" where
  "bench_pair i k payload =
     (let key = bench_symbols ! (i mod length bench_symbols); hdr = [(typeHeader, bk_name k)]
      in [\<lparr>bm_Topic = bk_topic k, bm_Key = key, bm_Value = payload, bm_Headers = hdr\<rparr>,
          \<lparr>bm_Topic = monolithTopic, bm_Key = key, bm_Value = payload, bm_Headers = hdr\<rparr>])"

fun produce_kinds ::
  "('w \<Rightarrow> bench_message list \<Rightarrow> 'w \<times> goerror option) \<Rightarrow> ('g \<Rightarrow> nat \<Rightarrow> 'g \<times> bytes) \<Rightarrow> nat \<Rightarrow>
   bench_kind list \<Rightarrow> 'w \<times> 'g \<times> bench_message list \<Rightarrow> ('w \<times> 'g \<times> bench_message list) \<times> goerror option"
where
  "produce_kinds WriteMessages rng_Read i [] st = (st, None)"
| "produce_kinds WriteMessages rng_Read i (k # ks) (w, g, batch) =
     (let (g, payload) = rng_Read g (bk_bytes k);
          batch = batch @ bench_pair i k payload
      in if 1000 \<le> length batch then
           (case bench_flush WriteMessages w batch of
              (w, batch, Some err) \<Rightarrow> ((w, g, batch), Some err)
            | (w, batch, None) \<Rightarrow> produce_kinds WriteMessages rng_Read i ks (w, g, batch))
         else produce_kinds WriteMessages rng_Read i ks (w, g, batch))"

fun produce_loop ::
  "('w \<Rightarrow> bench_message list \<Rightarrow> 'w \<times> goerror option) \<Rightarrow> ('g \<Rightarrow> nat \<Rightarrow> 'g \<times> bytes) \<Rightarrow> nat list \<Rightarrow>
   'w \<times> 'g \<times> bench_message list \<Rightarrow> ('w \<times> 'g \<times> bench_message list) \<times> goerror option"
where
  "produce_loop WriteMessages rng_Read [] st = (st, None)"
| "produce_loop WriteMessages rng_Read (i # is) st =
     (case produce_kinds WriteMessages rng_Read i kinds st of
        (st', Some err) \<Rightarrow> (st', Some err)
      | (st', None) \<Rightarrow> produce_loop WriteMessages rng_Read is st')"

definition produce ::
  "('w \<Rightarrow> bench_message list \<Rightarrow> 'w \<times> goerror option) \<Rightarrow> ('g \<Rightarrow> nat \<Rightarrow> 'g \<times> bytes) \<Rightarrow> int \<Rightarrow>
   'w \<Rightarrow> 'g \<Rightarrow> 'w \<times> goerror option"
where
  "produce WriteMessages rng_Read perType w g =
     (case produce_loop WriteMessages rng_Read [0..<nat perType] (w, g, []) of
        ((w', _, _), Some err) \<Rightarrow> (w', Some err)
      | ((w', _, batch), None) \<Rightarrow> (case bench_flush WriteMessages w' batch of (w'', _, err) \<Rightarrow> (w'', err)))"

section \<open>Consuming\<close>

record bench_result =
  br_delivered :: int
  br_useful :: int
  br_bytesRead :: int64
  br_elapsed :: int64

definition bench_result_zero :: bench_result where
  "bench_result_zero = \<lparr>br_delivered = 0, br_useful = 0, br_bytesRead = 0, br_elapsed = 0\<rparr>"

text \<open>How much one message adds to \<open>useful\<close>: every matching header counts.\<close>

definition usefulness :: "string \<Rightarrow> bench_message \<Rightarrow> int" where
  "usefulness filt m =
     (if filt = '''' then 1
      else int (length (filter (\<lambda>(k, v). k = typeHeader \<and> v = filt) (bm_Headers m))))"

definition take_message :: "string \<Rightarrow> bench_message \<Rightarrow> bench_result \<Rightarrow> bench_result" where
  "take_message filt m res =
     res\<lparr>br_delivered := br_delivered res + 1, br_useful := br_useful res + usefulness filt m,
         br_bytesRead := wrap64 (br_bytesRead res + int (length (bm_Value m) + length (bm_Key m)))\<rparr>"

text \<open>
  The read loop over what the reader delivers. \<open>None\<close> instead of an outcome: the script
  has ended and the loop still waits for a message.
\<close>

fun consume_loop ::
  "string \<Rightarrow> int \<Rightarrow> bench_result \<Rightarrow> (goerror + bench_message) list \<Rightarrow> bench_result \<times> goerror option option"
where
  "consume_loop filt expectUseful res [] = (res, if br_useful res < expectUseful then None else Some None)"
| "consume_loop filt expectUseful res (r # rs) =
     (if br_useful res < expectUseful
      then (case r of
              Inl err \<Rightarrow> (res, Some (Some err))
            | Inr m \<Rightarrow> consume_loop filt expectUseful (take_message filt m res) rs)
      else (res, Some None))"

text \<open>\<open>since\<close> is what the clock says the loop took; only a complete read records it.\<close>

definition consume ::
  "string \<Rightarrow> int \<Rightarrow> int64 \<Rightarrow> (goerror + bench_message) list \<Rightarrow> bench_result \<times> goerror option option"
where
  "consume filt expectUseful since reads =
     (case consume_loop filt expectUseful bench_result_zero reads of
        (res, Some None) \<Rightarrow> (res\<lparr>br_elapsed := since\<rparr>, Some None)
      | r \<Rightarrow> r)"

section \<open>Reporting\<close>

text \<open>
  The verb \<open>%.pf\<close>: the exact value to \<open>p\<close> decimals, ties to even, and Go's names for the
  values that have none.
\<close>

definition pad_zeros :: "nat \<Rightarrow> string \<Rightarrow> string" where
  "pad_zeros n s = replicate (n - length s) (CHR ''0'') @ s"

definition FormatFixed :: "nat \<Rightarrow> float64 \<Rightarrow> string" where
  "FormatFixed p x =
     (case x of
        FNaN \<Rightarrow> ''NaN''
      | FInf neg \<Rightarrow> (if neg then ''-Inf'' else ''+Inf'')
      | FFin neg m e \<Rightarrow>
          (let (n, d) = f_ratio m e; q = round_half_even (n * 10 ^ p) d
           in (if neg then ''-'' else '''') @ FormatInt (q div 10 ^ p) @ ''.'' @
              pad_zeros p (FormatInt (q mod 10 ^ p))))"

text \<open>\<open>Duration.Milliseconds\<close>: the quotient by a million, truncated towards zero.\<close>

definition Milliseconds :: "int64 \<Rightarrow> int64" where
  "Milliseconds d = sgn d * (\<bar>d\<bar> div 1000000)"

text \<open>The two ratios \<open>report\<close> prints, and the lines of its results file.\<close>

definition report_amp :: "bench_result \<Rightarrow> bench_result \<Rightarrow> float64" where
  "report_amp perType monolith = f_div (f_of_int (br_bytesRead monolith)) (f_of_int (br_bytesRead perType))"

definition report_waste :: "bench_result \<Rightarrow> float64" where
  "report_waste monolith =
     f_mul (f_div (f_of_int (br_delivered monolith - br_useful monolith)) (f_of_int (br_delivered monolith)))
       (f_of_int 100)"

definition report_file :: "string \<Rightarrow> bench_result \<Rightarrow> bench_result \<Rightarrow> (string \<times> string) list" where
  "report_file target perType monolith =
     [(''target'', target), (''per_type_bytes'', FormatInt (br_bytesRead perType)),
      (''monolith_bytes'', FormatInt (br_bytesRead monolith)),
      (''per_type_delivered'', FormatInt (br_delivered perType)),
      (''monolith_delivered'', FormatInt (br_delivered monolith)),
      (''per_type_ms'', FormatInt (Milliseconds (br_elapsed perType))),
      (''monolith_ms'', FormatInt (Milliseconds (br_elapsed monolith))),
      (''read_amplification'', FormatFixed 2 (report_amp perType monolith)),
      (''discarded_pct'', FormatFixed 1 (report_waste monolith))]"

section \<open>main\<close>

definition wanted_topic :: "string \<Rightarrow> string" where
  "wanted_topic target = fold (\<lambda>k wanted. if bk_name k = target then bk_topic k else wanted) kinds ''''"

datatype bench_outcome =
    Fatal string
  | Waiting
  | Reported bench_result bench_result

text \<open>
  \<open>reads topic w\<close> is what a reader of the topic delivers after the writes that led to
  \<open>w\<close>, and \<open>since topic\<close> how long the clock says that took.
\<close>

definition bench_main ::
  "('w \<Rightarrow> bench_message list \<Rightarrow> 'w \<times> goerror option) \<Rightarrow> ('g \<Rightarrow> nat \<Rightarrow> 'g \<times> bytes) \<Rightarrow>
   (string \<Rightarrow> 'w \<Rightarrow> (goerror + bench_message) list) \<Rightarrow> (string \<Rightarrow> int64) \<Rightarrow> int \<Rightarrow> string \<Rightarrow> 'w \<Rightarrow> 'g \<Rightarrow>
   bench_outcome"
where
  "bench_main WriteMessages rng_Read reads since perType target w g =
     (case produce WriteMessages rng_Read perType w g of
        (_, Some err) \<Rightarrow> Fatal ''produce''
      | (w', None) \<Rightarrow>
          if wanted_topic target = '''' then Fatal ''unknown target''
          else (case consume '''' perType (since (wanted_topic target)) (reads (wanted_topic target) w') of
              (_, None) \<Rightarrow> Waiting
            | (_, Some (Some err)) \<Rightarrow> Fatal ''consume per-type''
            | (pt, Some None) \<Rightarrow>
                (case consume target perType (since monolithTopic) (reads monolithTopic w') of
                   (_, None) \<Rightarrow> Waiting
                 | (_, Some (Some err)) \<Rightarrow> Fatal ''consume monolith''
                 | (ml, Some None) \<Rightarrow> Reported pt ml)))"

section \<open>What a run writes\<close>

text \<open>The messages in the order they are batched, without the batching.\<close>

fun log_kinds :: "('g \<Rightarrow> nat \<Rightarrow> 'g \<times> bytes) \<Rightarrow> nat \<Rightarrow> bench_kind list \<Rightarrow> 'g \<Rightarrow> 'g \<times> bench_message list" where
  "log_kinds rng_Read i [] g = (g, [])"
| "log_kinds rng_Read i (k # ks) g =
     (let (g1, payload) = rng_Read g (bk_bytes k); (g2, ms) = log_kinds rng_Read i ks g1
      in (g2, bench_pair i k payload @ ms))"

fun log_loop :: "('g \<Rightarrow> nat \<Rightarrow> 'g \<times> bytes) \<Rightarrow> nat list \<Rightarrow> 'g \<Rightarrow> 'g \<times> bench_message list" where
  "log_loop rng_Read [] g = (g, [])"
| "log_loop rng_Read (i # is) g =
     (let (g1, ms) = log_kinds rng_Read i kinds g; (g2, ms') = log_loop rng_Read is g1 in (g2, ms @ ms'))"

text \<open>A writer that stores a batch or fails; \<open>written\<close> is what it has stored.\<close>

definition writes_or_fails ::
  "('w \<Rightarrow> bench_message list \<Rightarrow> 'w \<times> goerror option) \<Rightarrow> ('w \<Rightarrow> bench_message list) \<Rightarrow> bool"
where
  "writes_or_fails WriteMessages written \<longleftrightarrow>
     (\<forall>w b w'. WriteMessages w b = (w', None) \<longrightarrow> written w' = written w @ b)"

lemma flush_ok:
  "writes_or_fails WriteMessages written \<Longrightarrow> bench_flush WriteMessages w batch = (w', batch', None) \<Longrightarrow> written w' = written w @ batch \<and> batch' = []"
  by (auto simp: bench_flush_def writes_or_fails_def split: if_splits prod.splits)

lemma produce_kinds_log:
  assumes W: "writes_or_fails WriteMessages written"
  shows "produce_kinds WriteMessages rng_Read i ks (w, g, batch) = ((w', g', batch'), None) \<Longrightarrow>
     \<exists>ms. log_kinds rng_Read i ks g = (g', ms) \<and> written w' @ batch' = written w @ batch @ ms"
proof (induction ks arbitrary: w g batch)
  case (Cons k ks)
  obtain g1 p where r: "rng_Read g (bk_bytes k) = (g1, p)" by fastforce
  let ?b = "batch @ bench_pair i k p"
  obtain w1 b1 where step: "produce_kinds WriteMessages rng_Read i ks (w1, g1, b1) = ((w', g', batch'), None)"
    and b: "written w1 @ b1 = written w @ ?b"
  proof (cases "1000 \<le> length ?b")
    case True
    obtain w1 b1 err where f: "bench_flush WriteMessages w ?b = (w1, b1, err)" by (metis prod_cases3)
    with Cons.prems r True have "err = None" by (auto split: option.splits)
    with Cons.prems r True f flush_ok [OF W, of w ?b w1 b1] that [of w1 b1] show ?thesis by simp
  next
    case False
    with Cons.prems r that [of w ?b] show ?thesis by simp
  qed
  from Cons.IH [OF step] b r show ?case by auto
qed simp

lemma produce_loop_log:
  assumes W: "writes_or_fails WriteMessages written"
  shows "produce_loop WriteMessages rng_Read is (w, g, batch) = ((w', g', batch'), None) \<Longrightarrow>
     \<exists>ms. log_loop rng_Read is g = (g', ms) \<and> written w' @ batch' = written w @ batch @ ms"
proof (induction "is" arbitrary: w g batch)
  case (Cons i "is")
  obtain w1 g1 b1 where k: "produce_kinds WriteMessages rng_Read i kinds (w, g, batch) = ((w1, g1, b1), None)"
    and l: "produce_loop WriteMessages rng_Read is (w1, g1, b1) = ((w', g', batch'), None)"
    using Cons.prems by (auto split: prod.splits option.splits)
  from produce_kinds_log [OF W k] Cons.IH [OF l] show ?case by fastforce
qed simp

lemma produce_log:
  assumes W: "writes_or_fails WriteMessages written"
    and "produce WriteMessages rng_Read perType w g = (w', None)"
  shows "written w' = written w @ snd (log_loop rng_Read [0..<nat perType] g)"
proof -
  obtain w1 g1 b1 b2 where l: "produce_loop WriteMessages rng_Read [0..<nat perType] (w, g, []) = ((w1, g1, b1), None)"
    and f: "bench_flush WriteMessages w1 b1 = (w', b2, None)"
    using assms(2) by (auto simp: produce_def split: prod.splits option.splits)
  from produce_loop_log [OF W l] flush_ok [OF W f] show ?thesis by auto
qed

section \<open>Counting\<close>

lemma log_loop_filter_sum:
  fixes f :: "bench_message \<Rightarrow> 'a :: comm_monoid_add"
  assumes "\<And>i g. sum_list (map f (filter P (snd (log_kinds rng_Read i kinds g)))) = c"
  shows "sum_list (map f (filter P (snd (log_loop rng_Read is g)))) = sum_list (map (\<lambda>_. c) is)"
  using assms by (induction "is" arbitrary: g) (auto simp: split_beta)

lemma log_loop_all:
  assumes "\<And>i g. list_all P (snd (log_kinds rng_Read i kinds g))"
  shows "list_all P (snd (log_loop rng_Read is g))"
  using assms by (induction "is" arbitrary: g) (auto simp: split_beta)

text \<open>The payload source fills the buffer it is given.\<close>

definition fills :: "('g \<Rightarrow> nat \<Rightarrow> 'g \<times> bytes) \<Rightarrow> bool" where
  "fills rng_Read \<longleftrightarrow> (\<forall>g n. length (snd (rng_Read g n)) = n)"

definition of_kind :: "bench_kind \<Rightarrow> bench_message \<Rightarrow> bool" where
  "of_kind k m \<longleftrightarrow> bm_Headers m = [(typeHeader, bk_name k)]"

abbreviation msg_size :: "bench_message \<Rightarrow> int" where
  "msg_size m \<equiv> int (length (bm_Value m) + length (bm_Key m))"

lemma symbol_length: "length (bench_symbols ! (i mod 3)) = 7"
proof -
  have "i mod 3 = 0 \<or> i mod 3 = 1 \<or> i mod 3 = 2" by linarith
  then show ?thesis by (auto simp: bench_symbols_def)
qed

lemma kinds_in: "k \<in> set kinds \<longleftrightarrow> k = kinds ! 0 \<or> k = kinds ! 1 \<or> k = kinds ! 2"
  by (auto simp: kinds_def)

text \<open>One round of the outer loop, kind by kind: what it adds to each topic.\<close>

lemma log_kinds_round:
  assumes "fills rng_Read"
  obtains p0 p1 p2 where "snd (log_kinds rng_Read i kinds g) =
      bench_pair i (kinds ! 0) p0 @ bench_pair i (kinds ! 1) p1 @ bench_pair i (kinds ! 2) p2"
    "length p0 = 120" "length p1 = 900" "length p2 = 180"
proof -
  obtain g1 p0 where a: "rng_Read g 120 = (g1, p0)" by fastforce
  obtain g2 p1 where b: "rng_Read g1 900 = (g2, p1)" by fastforce
  obtain g3 p2 where c: "rng_Read g2 180 = (g3, p2)" by fastforce
  have "length p0 = 120" "length p1 = 900" "length p2 = 180"
    using assms a b c unfolding fills_def by (metis snd_conv)+
  moreover have "snd (log_kinds rng_Read i kinds g) =
      bench_pair i (kinds ! 0) p0 @ bench_pair i (kinds ! 1) p1 @ bench_pair i (kinds ! 2) p2"
    using a b c by (simp add: kinds_def)
  ultimately show thesis using that by blast
qed

text \<open>The messages of a topic, and their total size, after \<open>n\<close> rounds.\<close>

definition in_topic :: "string \<Rightarrow> bench_message \<Rightarrow> bool" where
  "in_topic t m \<longleftrightarrow> bm_Topic m = t"

lemmas bench_defs = bench_pair_def kinds_def in_topic_def of_kind_def monolithTopic_def typeHeader_def Let_def

lemma round_counts:
  assumes "fills rng_Read" and "k \<in> set kinds"
  shows "sum_list (map (\<lambda>_. 1 :: int) (filter (in_topic (bk_topic k)) (snd (log_kinds rng_Read i kinds g)))) = 1"
    and "sum_list (map msg_size (filter (in_topic (bk_topic k)) (snd (log_kinds rng_Read i kinds g)))) = int (bk_bytes k) + 7"
    and "sum_list (map (\<lambda>_. 1 :: int) (filter (\<lambda>m. in_topic monolithTopic m \<and> of_kind k m) (snd (log_kinds rng_Read i kinds g)))) = 1"
    and "sum_list (map msg_size (filter (\<lambda>m. in_topic monolithTopic m \<and> of_kind k m) (snd (log_kinds rng_Read i kinds g)))) = int (bk_bytes k) + 7"
    and "sum_list (map (\<lambda>_. 1 :: int) (filter (in_topic monolithTopic) (snd (log_kinds rng_Read i kinds g)))) = 3"
    and "sum_list (map msg_size (filter (in_topic monolithTopic) (snd (log_kinds rng_Read i kinds g)))) = 1221"
proof -
  obtain p0 p1 p2 where r: "snd (log_kinds rng_Read i kinds g) =
      bench_pair i (kinds ! 0) p0 @ bench_pair i (kinds ! 1) p1 @ bench_pair i (kinds ! 2) p2"
    "length p0 = 120" "length p1 = 900" "length p2 = 180"
    using log_kinds_round [OF assms(1)] .
  define key where "key = bench_symbols ! (i mod length bench_symbols)"
  have len: "length key = 7" using symbol_length [of i] by (simp add: key_def bench_symbols_def)
  have ms: "snd (log_kinds rng_Read i kinds g) = concat (map (\<lambda>(k, p).
      [\<lparr>bm_Topic = bk_topic k, bm_Key = key, bm_Value = p, bm_Headers = [(typeHeader, bk_name k)]\<rparr>,
       \<lparr>bm_Topic = monolithTopic, bm_Key = key, bm_Value = p, bm_Headers = [(typeHeader, bk_name k)]\<rparr>])
      [(kinds ! 0, p0), (kinds ! 1, p1), (kinds ! 2, p2)])"
    unfolding r(1) bench_pair_def key_def Let_def by simp
  note facts = len r(2-4)
  from assms(2) have k: "k = kinds ! 0 \<or> k = kinds ! 1 \<or> k = kinds ! 2" by (simp add: kinds_in)
  show "sum_list (map (\<lambda>_. 1 :: int) (filter (in_topic (bk_topic k)) (snd (log_kinds rng_Read i kinds g)))) = 1"
    unfolding ms using k facts by (elim disjE; hypsubst; simp add: bench_defs)
  show "sum_list (map msg_size (filter (in_topic (bk_topic k)) (snd (log_kinds rng_Read i kinds g)))) = int (bk_bytes k) + 7"
    unfolding ms using k facts by (elim disjE; hypsubst; simp add: bench_defs)
  show "sum_list (map (\<lambda>_. 1 :: int) (filter (\<lambda>m. in_topic monolithTopic m \<and> of_kind k m) (snd (log_kinds rng_Read i kinds g)))) = 1"
    unfolding ms using k facts by (elim disjE; hypsubst; simp add: bench_defs)
  show "sum_list (map msg_size (filter (\<lambda>m. in_topic monolithTopic m \<and> of_kind k m) (snd (log_kinds rng_Read i kinds g)))) = int (bk_bytes k) + 7"
    unfolding ms using k facts by (elim disjE; hypsubst; simp add: bench_defs)
  show "sum_list (map (\<lambda>_. 1 :: int) (filter (in_topic monolithTopic) (snd (log_kinds rng_Read i kinds g)))) = 3"
    unfolding ms using facts by (simp add: bench_defs)
  show "sum_list (map msg_size (filter (in_topic monolithTopic) (snd (log_kinds rng_Read i kinds g)))) = 1221"
    unfolding ms using facts by (simp add: bench_defs)
qed

section \<open>The two layouts\<close>

definition payload_of :: "bench_message \<Rightarrow> string \<times> bytes \<times> (string \<times> string) list" where
  "payload_of m = (bm_Key m, bm_Value m, bm_Headers m)"

lemma log_kinds_layouts:
  assumes "k \<in> set kinds"
  shows "map payload_of (filter (in_topic (bk_topic k)) (snd (log_kinds rng_Read i kinds g))) =
    map payload_of (filter (\<lambda>m. in_topic monolithTopic m \<and> of_kind k m) (snd (log_kinds rng_Read i kinds g)))"
  using assms unfolding kinds_in by (elim disjE; hypsubst; simp add: bench_defs payload_of_def split_beta)

lemma log_loop_layouts:
  assumes "k \<in> set kinds"
  shows "map payload_of (filter (in_topic (bk_topic k)) (snd (log_loop rng_Read is g))) =
    map payload_of (filter (\<lambda>m. in_topic monolithTopic m \<and> of_kind k m) (snd (log_loop rng_Read is g)))"
  by (induction "is" arbitrary: g) (simp_all add: split_beta log_kinds_layouts [OF assms])

text \<open>
  C34. The two layouts carry the same data: after a run whose writes succeed, the topic of a
  kind holds exactly the keys, payloads and headers that the monolithic topic holds for that
  kind, in the same order, whatever the batching did.
\<close>

theorem layouts_carry_the_same:
  assumes "writes_or_fails WriteMessages written" and "written w = []"
    and "produce WriteMessages rng_Read perType w g = (w', None)" and "k \<in> set kinds"
  shows "map payload_of (filter (in_topic (bk_topic k)) (written w')) =
    map payload_of (filter (\<lambda>m. in_topic monolithTopic m \<and> of_kind k m) (written w'))"
  using produce_log [OF assms(1,3)] assms(2) log_loop_layouts [OF assms(4)] by simp

text \<open>Witness: a writer that appends, two rounds of empty payloads, the kind \<open>quote\<close>.\<close>

theorem layouts_carry_the_same_witness:
  "\<exists>w'. produce (\<lambda>w b. (w @ b, None)) (\<lambda>g n. (g + 1, [g])) 2 [] 0 = (w', None) \<and> length w' = 12 \<and>
    map payload_of (filter (in_topic ''bench.quotes'') w') =
    map payload_of (filter (\<lambda>m. in_topic monolithTopic m \<and> of_kind (kinds ! 2) m) w')"
proof -
  let ?w = "fst (produce (\<lambda>w b. (w @ b, None)) (\<lambda>g n. (g + 1, [g])) 2 [] 0)"
  have e: "produce (\<lambda>w b. (w @ b, None)) (\<lambda>g n. (g + 1, [g])) 2 [] 0 = (?w, None)" "length ?w = 12"
    by (simp_all add: produce_def upt_rec bench_flush_def bench_pair_def kinds_def Let_def)
  have k: "kinds ! 2 \<in> set kinds" "bk_topic (kinds ! 2) = ''bench.quotes''" by (simp_all add: kinds_def)
  have "writes_or_fails (\<lambda>w b. (w @ b, None)) (\<lambda>w. w)" by (simp add: writes_or_fails_def)
  from layouts_carry_the_same [OF this refl e(1) k(1)] e k(2) show ?thesis by auto
qed

section \<open>What a consumer of one kind fetches\<close>

lemma consume_prefix:
  assumes "\<And>m. m \<in> set ms \<Longrightarrow> usefulness filt m = 0 \<or> usefulness filt m = 1"
    and "br_useful res \<le> expect" and "expect - br_useful res \<le> sum_list (map (usefulness filt) ms)"
  shows "\<exists>pre suf. ms = pre @ suf \<and> sum_list (map (usefulness filt) pre) = expect - br_useful res \<and>
    consume_loop filt expect res (map Inr ms) = (fold (take_message filt) pre res, Some None)"
  using assms
proof (induction ms arbitrary: res)
  case (Cons m ms)
  show ?case
  proof (cases "br_useful res < expect")
    case True
    let ?r = "take_message filt m res"
    have u: "br_useful ?r = br_useful res + usefulness filt m" by (simp add: take_message_def)
    have "usefulness filt m \<le> 1" using Cons.prems(1) [of m] by auto
    then obtain pre suf where "ms = pre @ suf" "sum_list (map (usefulness filt) pre) = expect - br_useful ?r"
      "consume_loop filt expect ?r (map Inr ms) = (fold (take_message filt) pre ?r, Some None)"
      using Cons.IH [of ?r] Cons.prems True u by auto
    with True u show ?thesis by (intro exI [of _ "m # pre"] exI [of _ suf]) simp
  next
    case False
    with Cons.prems(2) show ?thesis by (intro exI [of _ "[]"] exI [of _ "m # ms"]) simp
  qed
qed (auto intro!: exI [of _ "[]"])

lemma fold_take_message:
  "br_delivered (fold (take_message filt) ms res) = br_delivered res + int (length ms)"
  "br_useful (fold (take_message filt) ms res) = br_useful res + sum_list (map (usefulness filt) ms)"
  by (induction ms arbitrary: res) (simp_all add: take_message_def)

lemma fold_take_bytes:
  "0 \<le> br_bytesRead res \<Longrightarrow> br_bytesRead res + sum_list (map msg_size ms) \<le> max_int64 \<Longrightarrow>
   br_bytesRead (fold (take_message filt) ms res) = br_bytesRead res + sum_list (map msg_size ms)"
proof (induction ms arbitrary: res)
  case (Cons m ms)
  have "0 \<le> sum_list (map msg_size ms)" by (rule sum_list_nonneg) auto
  with Cons.prems have "wrap64 (br_bytesRead res + msg_size m) = br_bytesRead res + msg_size m"
    by (intro wrap64_id) (auto simp: in_int64_def)
  then show ?case using Cons.IH [of "take_message filt m res"] Cons.prems by (simp add: take_message_def)
qed simp

text \<open>A writer that stores every batch, and a reader that delivers each message of a topic once, in any order.\<close>

definition stores ::
  "('w \<Rightarrow> bench_message list \<Rightarrow> 'w \<times> goerror option) \<Rightarrow> ('w \<Rightarrow> bench_message list) \<Rightarrow> bool"
where
  "stores WriteMessages written \<longleftrightarrow>
     (\<forall>w b. snd (WriteMessages w b) = None \<and> written (fst (WriteMessages w b)) = written w @ b)"

definition delivers ::
  "(string \<Rightarrow> 'w \<Rightarrow> (goerror + bench_message) list) \<Rightarrow> ('w \<Rightarrow> bench_message list) \<Rightarrow> bool"
where
  "delivers reads written \<longleftrightarrow>
     (\<forall>t w. \<exists>ms. reads t w = map Inr ms \<and> mset ms = mset (filter (in_topic t) (written w)))"

lemma stores_writes: "stores WriteMessages written \<Longrightarrow> writes_or_fails WriteMessages written"
  unfolding stores_def writes_or_fails_def by (metis fst_conv)

lemma stores_flush: "stores WriteMessages written \<Longrightarrow> snd (snd (bench_flush WriteMessages w b)) = None"
  by (auto simp: bench_flush_def stores_def split: prod.splits) (metis snd_conv)

lemma stores_kinds:
  "stores WriteMessages written \<Longrightarrow> snd (produce_kinds WriteMessages rng_Read i ks (w, g, batch)) = None"
proof (induction ks arbitrary: w g batch)
  case (Cons k ks)
  then show ?case using stores_flush [OF Cons.prems]
    by (auto simp: split_beta Let_def split: option.splits)
qed simp

lemma stores_loop:
  "stores WriteMessages written \<Longrightarrow> snd (produce_loop WriteMessages rng_Read is st) = None"
proof (induction "is" arbitrary: st)
  case (Cons i "is")
  obtain w g batch where st: "st = (w, g, batch)" by (cases st)
  obtain st' where "produce_kinds WriteMessages rng_Read i kinds (w, g, batch) = (st', None)"
    using stores_kinds [OF Cons.prems] by (metis prod.collapse)
  with Cons st show ?case by simp
qed simp

lemma stores_produce:
  assumes "stores WriteMessages written"
  shows "\<exists>w'. produce WriteMessages rng_Read perType w g = (w', None)"
proof -
  obtain w1 g1 b1 where l: "produce_loop WriteMessages rng_Read [0..<nat perType] (w, g, []) = ((w1, g1, b1), None)"
    using stores_loop [OF assms] by (metis prod.collapse)
  obtain w2 b2 where "bench_flush WriteMessages w1 b1 = (w2, b2, None)"
    using stores_flush [OF assms] by (metis prod.collapse)
  with l show ?thesis by (simp add: produce_def)
qed

lemma mset_sum: "mset xs = mset ys \<Longrightarrow> sum_list (map f xs) = sum_list (map f ys)"
  for f :: "'a \<Rightarrow> int"
  by (metis mset_map sum_mset_sum_list)

abbreviation wanted_size :: "string \<Rightarrow> bench_message list \<Rightarrow> int" where
  "wanted_size filt ms \<equiv> sum_list (map (\<lambda>m. usefulness filt m * msg_size m) ms)"

lemma consume_complete:
  assumes ms: "mset ms = mset topic"
    and u: "\<And>m. m \<in> set topic \<Longrightarrow> usefulness filt m = 0 \<or> usefulness filt m = 1"
    and expect: "sum_list (map (usefulness filt) topic) = expect"
    and size: "sum_list (map msg_size topic) \<le> max_int64"
  shows "\<exists>res. consume filt expect since (map Inr ms) = (res, Some None) \<and> br_useful res = expect \<and>
    expect \<le> br_delivered res \<and> br_delivered res \<le> int (length topic) \<and>
    wanted_size filt topic \<le> br_bytesRead res \<and> br_bytesRead res \<le> sum_list (map msg_size topic) \<and>
    br_elapsed res = since"
proof -
  have u': "\<And>m. m \<in> set ms \<Longrightarrow> usefulness filt m = 0 \<or> usefulness filt m = 1"
    using u mset_eq_setD [OF ms] by auto
  then have nn: "0 \<le> usefulness filt m" "usefulness filt m \<le> 1" if "m \<in> set ms" for m using that by fastforce+
  have all: "sum_list (map (usefulness filt) ms) = expect" using mset_sum [OF ms] expect by metis
  have zero: "br_useful bench_result_zero = 0" by (simp add: bench_result_zero_def)
  have "0 \<le> expect" unfolding all [symmetric] using nn by (intro sum_list_nonneg) auto
  have "\<exists>pre suf. ms = pre @ suf \<and> sum_list (map (usefulness filt) pre) = expect - br_useful bench_result_zero \<and>
    consume_loop filt expect bench_result_zero (map Inr ms) = (fold (take_message filt) pre bench_result_zero, Some None)"
    by (rule consume_prefix) (use u' all zero \<open>0 \<le> expect\<close> in simp_all)
  then obtain pre suf where p: "ms = pre @ suf" "sum_list (map (usefulness filt) pre) = expect"
    "consume_loop filt expect bench_result_zero (map Inr ms) = (fold (take_message filt) pre bench_result_zero, Some None)"
    unfolding zero diff_0_right by blast
  have "usefulness filt m = 0" if "m \<in> set suf" for m
  proof -
    have "sum_list (map (usefulness filt) suf) = 0" using all p by simp
    then have "\<forall>x \<in> set (map (usefulness filt) suf). x = 0"
      using nn p(1) by (subst sum_list_nonneg_eq_0_iff [symmetric]) auto
    with that show ?thesis by simp
  qed
  then have "wanted_size filt suf = 0" by (induction suf) auto
  moreover have "wanted_size filt topic = wanted_size filt ms" by (rule mset_sum [OF ms [symmetric]])
  ultimately have want: "wanted_size filt topic = wanted_size filt pre" using p(1) by simp
  have total: "sum_list (map msg_size topic) = sum_list (map msg_size pre) + sum_list (map msg_size suf)"
    using mset_sum [OF ms, of msg_size] p(1) by simp
  have suf: "0 \<le> sum_list (map msg_size suf)" by (rule sum_list_nonneg) auto
  have bytes: "br_bytesRead (fold (take_message filt) pre bench_result_zero) = sum_list (map msg_size pre)"
    using fold_take_bytes [where res = bench_result_zero and ms = pre and filt = filt] size total suf by (simp add: bench_result_zero_def)
  have "wanted_size filt pre \<le> sum_list (map msg_size pre)"
    using nn p(1) by (intro sum_list_mono) (auto intro: mult_left_le_one_le)
  moreover have "sum_list (map (usefulness filt) pre) \<le> sum_list (map (\<lambda>_. 1) pre)"
    using nn p(1) by (intro sum_list_mono) auto
  moreover have "length pre \<le> length topic" using mset_eq_length [OF ms] p(1) by simp
  ultimately show ?thesis
    using p(2,3) bytes want total suf fold_take_message [of filt pre bench_result_zero]
    by (auto simp: consume_def bench_result_zero_def sum_list_triv)
qed

text \<open>What the topics hold after \<open>n\<close> rounds, in the terms of a consumer.\<close>

lemma log_loop_topics:
  fixes n :: nat and g :: 'g
  assumes "fills rng_Read" and "k \<in> set kinds"
  defines "ms \<equiv> snd (log_loop rng_Read [0..<n] g)"
  shows "int (length (filter (in_topic (bk_topic k)) ms)) = int n"
    and "sum_list (map msg_size (filter (in_topic (bk_topic k)) ms)) = int n * (int (bk_bytes k) + 7)"
    and "int (length (filter (in_topic monolithTopic) ms)) = 3 * int n"
    and "sum_list (map msg_size (filter (in_topic monolithTopic) ms)) = int n * 1221"
    and "int (length (filter (\<lambda>m. in_topic monolithTopic m \<and> of_kind k m) ms)) = int n"
    and "sum_list (map msg_size (filter (\<lambda>m. in_topic monolithTopic m \<and> of_kind k m) ms)) = int n * (int (bk_bytes k) + 7)"
  using log_loop_filter_sum [OF round_counts(1) [OF assms(1,2)], of "[0..<n]" g]
    log_loop_filter_sum [OF round_counts(2) [OF assms(1,2)], of "[0..<n]" g]
    log_loop_filter_sum [OF round_counts(3) [OF assms(1,2)], of "[0..<n]" g]
    log_loop_filter_sum [OF round_counts(4) [OF assms(1,2)], of "[0..<n]" g]
    log_loop_filter_sum [OF round_counts(5) [OF assms(1,2)], of "[0..<n]" g]
    log_loop_filter_sum [OF round_counts(6) [OF assms(1,2)], of "[0..<n]" g]
  by (simp_all add: sum_list_triv ms_def)

lemma log_kinds_headers:
  "list_all (\<lambda>m. \<exists>k \<in> set kinds. of_kind k m) (snd (log_kinds rng_Read i kinds g))"
  by (simp add: bench_defs split: prod.splits)

lemma usefulness_of_kind:
  assumes "k \<in> set kinds" "\<exists>k' \<in> set kinds. of_kind k' m"
  shows "usefulness (bk_name k) m = (if of_kind k m then 1 else 0)"
  using assms by (auto simp: usefulness_def of_kind_def kinds_def)

lemma sum_list_if_filter:
  "sum_list (map (\<lambda>x. (if P x then 1 else 0) * f x) xs) = sum_list (map f (filter P xs))"
  for f :: "'a \<Rightarrow> int"
  by (induction xs) auto

lemma wanted_in_monolith:
  fixes n :: nat and g :: 'g
  assumes "fills rng_Read" and "k \<in> set kinds"
  defines "topic \<equiv> filter (in_topic monolithTopic) (snd (log_loop rng_Read [0..<n] g))"
  shows "m \<in> set topic \<Longrightarrow> usefulness (bk_name k) m = 0 \<or> usefulness (bk_name k) m = 1"
    and "sum_list (map (usefulness (bk_name k)) topic) = int n"
    and "wanted_size (bk_name k) topic = int n * (int (bk_bytes k) + 7)"
proof -
  have "list_all (\<lambda>m. \<exists>k \<in> set kinds. of_kind k m) (snd (log_loop rng_Read [0..<n] g))"
    by (rule log_loop_all) (rule log_kinds_headers)
  then have u: "usefulness (bk_name k) m = (if of_kind k m then 1 else 0)" if "m \<in> set topic" for m
    using that usefulness_of_kind [OF assms(2)] by (auto simp: topic_def list_all_iff)
  then show "m \<in> set topic \<Longrightarrow> usefulness (bk_name k) m = 0 \<or> usefulness (bk_name k) m = 1" by simp
  have f: "filter (of_kind k) topic = filter (\<lambda>m. in_topic monolithTopic m \<and> of_kind k m) (snd (log_loop rng_Read [0..<n] g))"
    by (auto simp: topic_def intro!: filter_cong)
  have "sum_list (map (usefulness (bk_name k)) topic) = sum_list (map (\<lambda>m. (if of_kind k m then 1 else 0) * 1) topic)"
    using u by (intro arg_cong [where f = sum_list] map_cong) auto
  also have "\<dots> = int n" unfolding sum_list_if_filter f using log_loop_topics(5) [OF assms(1,2)] by (simp add: sum_list_triv)
  finally show "sum_list (map (usefulness (bk_name k)) topic) = int n" .
  have "wanted_size (bk_name k) topic = sum_list (map (\<lambda>m. (if of_kind k m then 1 else 0) * msg_size m) topic)"
    using u by (intro arg_cong [where f = sum_list] map_cong) auto
  also have "\<dots> = int n * (int (bk_bytes k) + 7)" unfolding sum_list_if_filter f by (rule log_loop_topics(6) [OF assms(1,2)])
  finally show "wanted_size (bk_name k) topic = int n * (int (bk_bytes k) + 7)" .
qed

lemma wanted_topic_kind: "k \<in> set kinds \<Longrightarrow> wanted_topic (bk_name k) = bk_topic k" "k \<in> set kinds \<Longrightarrow> bk_topic k \<noteq> ''''"
    "k \<in> set kinds \<Longrightarrow> bk_bytes k \<le> 900"
  by (auto simp: wanted_topic_def kinds_def)

text \<open>
  C33. On a broker that stores every batch and delivers each message once, in any order, the
  benchmark reports for each of its three targets: the per-type consumer fetches exactly the
  \<open>n\<close> records it wants and their bytes, the monolith consumer finds the same \<open>n\<close> among
  between \<open>n\<close> and \<open>3n\<close> records, and its bytes are at least the per-type bytes and at most
  everything, \<open>1221\<close> bytes per round. No byte count wraps as long as the total fits.
\<close>

theorem benchmark_reports_amplification:
  assumes "stores WriteMessages written" and "written w = []" and "delivers reads written"
    and "fills rng_Read" and "k \<in> set kinds" and "0 \<le> n" and "n * 1221 \<le> max_int64"
  shows "\<exists>pt ml. bench_main WriteMessages rng_Read reads since n (bk_name k) w g = Reported pt ml \<and>
    br_delivered pt = n \<and> br_useful pt = n \<and> br_bytesRead pt = n * (int (bk_bytes k) + 7) \<and>
    br_useful ml = n \<and> n \<le> br_delivered ml \<and> br_delivered ml \<le> 3 * n \<and>
    br_bytesRead pt \<le> br_bytesRead ml \<and> br_bytesRead ml \<le> n * 1221"
proof -
  note F = assms(4,5)
  obtain w' where p: "produce WriteMessages rng_Read n w g = (w', None)"
    using stores_produce [OF assms(1), of rng_Read n w g] by blast
  define ms where "ms = snd (log_loop rng_Read [0..<nat n] g)"
  have w': "written w' = ms" using produce_log [OF stores_writes [OF assms(1)] p] assms(2) by (simp add: ms_def)
  obtain rt where rt: "reads (bk_topic k) w' = map Inr rt" "mset rt = mset (filter (in_topic (bk_topic k)) ms)"
    using assms(3) w' unfolding delivers_def by metis
  obtain rm where rm: "reads monolithTopic w' = map Inr rm" "mset rm = mset (filter (in_topic monolithTopic) ms)"
    using assms(3) w' unfolding delivers_def by metis
  note topics = log_loop_topics [OF F, where n = "nat n" and g = g, folded ms_def]
  note wanted = wanted_in_monolith [OF F, where n = "nat n" and g = g, folded ms_def]
  have small: "n * (int (bk_bytes k) + 7) \<le> max_int64"
    using wanted_topic_kind(3) [OF F(2)] mult_left_mono [of "int (bk_bytes k) + 7" 1221 n] assms(6,7) by simp
  have one: "usefulness '''' = (\<lambda>_. 1)" by (simp add: usefulness_def fun_eq_iff)
  obtain pt where pt: "consume '''' n (since (bk_topic k)) (map Inr rt) = (pt, Some None)"
    "br_useful pt = n" "br_delivered pt = n" "br_bytesRead pt = n * (int (bk_bytes k) + 7)"
    using consume_complete [OF rt(2), of "''''" n "since (bk_topic k)"] topics(1,2) small assms(6)
    by (auto simp: one sum_list_triv)
  obtain ml where ml: "consume (bk_name k) n (since monolithTopic) (map Inr rm) = (ml, Some None)"
    "br_useful ml = n" "n \<le> br_delivered ml" "br_delivered ml \<le> 3 * n"
    "n * (int (bk_bytes k) + 7) \<le> br_bytesRead ml" "br_bytesRead ml \<le> n * 1221"
    using consume_complete [OF rm(2) wanted(1,2), of "since monolithTopic"] topics(3,4) wanted(3) assms(6,7)
    by auto
  from p rt(1) rm(1) pt ml wanted_topic_kind(1,2) [OF F(2)] show ?thesis by (simp add: bench_main_def)
qed

text \<open>Witness: a log of appended messages, read in order; two rounds, a consumer of trades.\<close>

theorem benchmark_reports_amplification_witness:
  "\<exists>pt ml. bench_main (\<lambda>w b. (w @ b, None)) (\<lambda>g n. (g, replicate n 0))
      (\<lambda>t w. map Inr (filter (in_topic t) w)) (\<lambda>_. 0) 2 ''trade'' [] () = Reported pt ml \<and>
    br_delivered pt = 2 \<and> br_bytesRead pt = 254 \<and> 2 \<le> br_delivered ml \<and> br_delivered ml \<le> 6 \<and>
    254 \<le> br_bytesRead ml \<and> br_bytesRead ml \<le> 2442"
proof -
  have hyps: "stores (\<lambda>w b. (w @ b, None)) (\<lambda>w. w)"
    "delivers (\<lambda>t w. map Inr (filter (in_topic t) w)) (\<lambda>w. w)"
    "fills (\<lambda>g n. (g, replicate n 0))" "kinds ! 0 \<in> set kinds" "(0::int) \<le> 2" "2 * 1221 \<le> max_int64"
    by (auto simp: stores_def delivers_def fills_def kinds_def)
  have k: "bk_name (kinds ! 0) = ''trade''" "bk_bytes (kinds ! 0) = 120" by (simp_all add: kinds_def)
  from benchmark_reports_amplification [OF hyps(1) refl hyps(2-6), of "\<lambda>_. 0" "()"] show ?thesis
    unfolding k by auto
qed

text \<open>
  A target that is no kind is refused only after everything has been produced: the
  outcome is the error, but the broker holds the full load.
\<close>

theorem unknown_target_after_producing:
  assumes "stores WriteMessages written" and "target \<notin> bk_name ` set kinds"
  shows "bench_main WriteMessages rng_Read reads since n target w g = Fatal ''unknown target'' \<and>
    written (fst (produce WriteMessages rng_Read n w g)) = written w @ snd (log_loop rng_Read [0..<nat n] g)"
proof -
  obtain w' where p: "produce WriteMessages rng_Read n w g = (w', None)"
    using stores_produce [OF assms(1), of rng_Read n w g] by blast
  have "wanted_topic target = ''''" using assms(2) by (auto simp: wanted_topic_def kinds_def)
  with p produce_log [OF stores_writes [OF assms(1)] p] show ?thesis by (simp add: bench_main_def)
qed

text \<open>Witness: the target \<open>trades\<close>, a topic suffix and not a kind; one round is six messages.\<close>

theorem unknown_target_after_producing_witness:
  "bench_main (\<lambda>w b. (w @ b, None)) (\<lambda>g n. (g, [])) (\<lambda>t w. []) (\<lambda>_. 0) 1 ''trades'' [] () = Fatal ''unknown target'' \<and>
   length (fst (produce (\<lambda>w b. (w @ b, None)) (\<lambda>g n. (g, [])) 1 [] ())) = 6"
proof -
  have "stores (\<lambda>w b. (w @ b, None)) (\<lambda>w. w)" "''trades'' \<notin> bk_name ` set kinds"
    by (simp_all add: stores_def kinds_def)
  from unknown_target_after_producing [OF this, of "\<lambda>g n. (g, [])" "\<lambda>t w. []" "\<lambda>_. 0" 1 "[]" "()"]
  show ?thesis by (simp add: kinds_def bench_pair_def Let_def)
qed

text \<open>
  A run of zero records succeeds and reports the ratio of nothing to nothing: both lines
  of the results file that hold a ratio read \<open>NaN\<close>, whatever the readers would deliver.
\<close>

theorem empty_benchmark_reports_NaN:
  assumes "stores WriteMessages written" and "k \<in> set kinds" and "n \<le> 0"
  shows "\<exists>pt ml. bench_main WriteMessages rng_Read reads since n (bk_name k) w g = Reported pt ml \<and>
    (''read_amplification'', ''NaN'') \<in> set (report_file (bk_name k) pt ml) \<and>
    (''discarded_pct'', ''NaN'') \<in> set (report_file (bk_name k) pt ml)"
proof -
  obtain w' where p: "produce WriteMessages rng_Read n w g = (w', None)"
    using stores_produce [OF assms(1), of rng_Read n w g] by blast
  have c: "consume f n s rs = (bench_result_zero\<lparr>br_elapsed := s\<rparr>, Some None)" for f s rs
    using assms(3) by (cases rs) (simp_all add: consume_def bench_result_zero_def)
  have "f_div (f_of_int 0) (f_of_int 0) = FNaN" "f_mul FNaN x = FNaN" for x
    by (simp_all add: f_of_int_def f_round_def f_zero_def)
  then show ?thesis using p c wanted_topic_kind(1,2) [OF assms(2)]
    by (simp add: bench_main_def report_file_def report_amp_def report_waste_def FormatFixed_def bench_result_zero_def)
qed

text \<open>Witness: no records at all, the target \<open>book\<close>, a reader that would fail.\<close>

theorem empty_benchmark_reports_NaN_witness:
  "\<exists>pt ml. bench_main (\<lambda>w b. (w @ b, None)) (\<lambda>g n. (g, [])) (\<lambda>t w. [Inl (Errorf ''down'' [] None)]) (\<lambda>_. 5)
      0 ''book'' [] () = Reported pt ml \<and> (''read_amplification'', ''NaN'') \<in> set (report_file ''book'' pt ml)"
proof -
  have "stores (\<lambda>w b. (w @ b, None)) (\<lambda>w. w)" "kinds ! 1 \<in> set kinds" "bk_name (kinds ! 1) = ''book''"
    by (simp_all add: stores_def kinds_def)
  with empty_benchmark_reports_NaN [of "\<lambda>w b. (w @ b, None)" "\<lambda>w. w" "kinds ! 1" 0 "\<lambda>g n. (g, [])"
      "\<lambda>t w. [Inl (Errorf ''down'' [] None)]" "\<lambda>_. 5" "[]" "()"] show ?thesis by auto
qed

end
