(* ===== verification/FloatError.thy ===== *)
theory FloatError
  imports GoMath
begin

text \<open>
  Rounding errors of the \<open>float64\<close> operations on finite values of either sign: an operation
  whose exact result is below \<open>2^k\<close> in magnitude is finite and off by at most half a unit in
  the last place of that binade, \<open>2^(k - 54)\<close>. The comparison of finite values is the comparison
  of their real values, and \<open>math.Round\<close> moves a value by at most a half.
\<close>

definition f_ok :: "float64 \<Rightarrow> bool" where
  "f_ok x \<longleftrightarrow> f_finite x \<and> float_wf x"

definition f_near :: "real \<Rightarrow> real \<Rightarrow> float64 \<Rightarrow> bool" where
  "f_near v err x \<longleftrightarrow> f_ok x \<and> \<bar>f_val x - v\<bar> \<le> err"

abbreviation f_sign :: "bool \<Rightarrow> real" where
  "f_sign s \<equiv> if s then - 1 else 1"

lemma f_round_error:
  assumes "0 \<le> n" and "0 < d" and "real_of_int n / real_of_int d < 2 powi k" and "- 1000 \<le> k" and "k \<le> 1000"
  shows "f_near (f_sign s * (real_of_int n / real_of_int d)) (2 powi (k - 54)) (f_round s n d)"
proof (cases "n = 0")
  case True
  then show ?thesis by (simp add: f_round_def f_near_def f_ok_def) (simp add: f_zero_def)
next
  case False
  with assms(1) have n: "0 < n" by simp
  note e = round_exp_spec [OF n assms(2)]
  have le: "round_exp n d \<le> k - 53"
  proof (rule ccontr)
    assume "\<not> round_exp n d \<le> k - 53"
    then have g: "k - 52 \<le> round_exp n d" "round_exp n d \<noteq> - 1074" using assms(4) by auto
    then have "4503599627370496 \<le> real_of_int n / real_of_int d / 2 powi round_exp n d" using e by auto
    then have "4503599627370496 * 2 powi round_exp n d \<le> real_of_int n / real_of_int d"
      by (subst (asm) pos_le_divide_eq) simp_all
    moreover have "(2::real) powi (k - 52) \<le> 2 powi round_exp n d" using g(1) by (rule powi_mono)
    moreover have "(2::real) powi k = 4503599627370496 * 2 powi (k - 52)" by (simp add: powi_diff)
    ultimately show False using assms(3) by linarith
  qed
  have "(2::real) powi (round_exp n d - 1) \<le> 2 powi (k - 54)" using le by (intro powi_mono) simp
  moreover have "\<not> f_max + 2 powi 970 \<le> real_of_int n / real_of_int d"
  proof -
    have "(2::real) powi k \<le> 2 powi 1000" using assms(5) by (rule powi_mono)
    moreover have "(2::real) powi 1000 \<le> f_max" by (simp add: f_max_def)
    moreover have "(0::real) < 2 powi 970" by simp
    ultimately show ?thesis using assms(3) by linarith
  qed
  ultimately obtain m e where r: "round_ratio s n d = FFin s m e" "float_wf (FFin s m e)"
      "\<bar>of_int m * 2 powi e - real_of_int n / real_of_int d\<bar> \<le> 2 powi (k - 54)"
    using round_ratio_cases [OF n assms(2), of s] by (metis order_trans)
  then have "\<bar>f_sign s * (of_int m * 2 powi e) - f_sign s * (real_of_int n / real_of_int d)\<bar> \<le> 2 powi (k - 54)"
    by (cases s) auto
  with r(1,2) False show ?thesis by (simp add: f_near_def f_ok_def f_round_def mult.assoc)
qed

lemma f_okE:
  assumes "f_ok x"
  obtains s m e n d where "x = FFin s m e" "f_ratio m e = (n, d)" "0 \<le> n" "0 < d" "0 \<le> m"
    "f_val x = f_sign s * (real_of_int n / real_of_int d)"
proof -
  obtain s m e where x: "x = FFin s m e" "float_wf x" using assms by (cases x) (auto simp: f_ok_def)
  obtain n d where r: "f_ratio m e = (n, d)" by fastforce
  have m: "0 \<le> m" using x by (simp add: float_wf_def)
  with f_ratio_spec [OF m r] x r that show ?thesis by (auto simp: mult.assoc)
qed

lemma f_mul_error:
  assumes "f_ok x" and "f_ok y" and "\<bar>f_val x * f_val y\<bar> < 2 powi k" and "- 1000 \<le> k" and "k \<le> 1000"
  shows "f_near (f_val x * f_val y) (2 powi (k - 54)) (f_mul x y)"
proof -
  from assms(1) obtain s m e n d where x: "x = FFin s m e" "f_ratio m e = (n, d)" "0 \<le> n" "0 < d"
    "f_val x = f_sign s * (real_of_int n / real_of_int d)" by (rule f_okE)
  from assms(2) obtain s' m' e' n' d' where y: "y = FFin s' m' e'" "f_ratio m' e' = (n', d')" "0 \<le> n'" "0 < d'"
    "f_val y = f_sign s' * (real_of_int n' / real_of_int d')" by (rule f_okE)
  have v: "f_sign (s \<noteq> s') * (real_of_int (n * n') / real_of_int (d * d')) = f_val x * f_val y"
    using x(5) y(5) by simp
  have "real_of_int (n * n') / real_of_int (d * d') = \<bar>f_val x * f_val y\<bar>"
    using x(3-5) y(3-5) by (simp add: abs_mult)
  then have "f_near (f_sign (s \<noteq> s') * (real_of_int (n * n') / real_of_int (d * d'))) (2 powi (k - 54)) (f_round (s \<noteq> s') (n * n') (d * d'))"
    using x(3,4) y(3,4) assms(3-5) by (intro f_round_error) simp_all
  then show ?thesis unfolding v by (simp add: x(1,2) y(1,2))
qed

lemma f_div_error:
  assumes "f_ok x" and "f_ok y" and "f_val y \<noteq> 0" and "\<bar>f_val x / f_val y\<bar> < 2 powi k" and "- 1000 \<le> k" and "k \<le> 1000"
  shows "f_near (f_val x / f_val y) (2 powi (k - 54)) (f_div x y)"
proof -
  from assms(1) obtain s m e n d where x: "x = FFin s m e" "f_ratio m e = (n, d)" "0 \<le> n" "0 < d"
    "f_val x = f_sign s * (real_of_int n / real_of_int d)" by (rule f_okE)
  from assms(2) obtain s' m' e' n' d' where y: "y = FFin s' m' e'" "f_ratio m' e' = (n', d')" "0 \<le> n'" "0 < d'"
    "f_val y = f_sign s' * (real_of_int n' / real_of_int d')" by (rule f_okE)
  have "n' \<noteq> 0" using assms(3) y(5) by auto
  then have n': "0 < n'" "m' \<noteq> 0" using y(2,3) by (auto simp: f_ratio_def split: if_splits)
  have v: "f_sign (s \<noteq> s') * (real_of_int (n * d') / real_of_int (d * n')) = f_val x / f_val y"
    using x(4,5) y(4,5) n' by simp
  have "real_of_int (n * d') / real_of_int (d * n') = \<bar>f_val x / f_val y\<bar>"
    using x(3-5) y(3-5) n' by (simp add: abs_mult)
  then have "f_near (f_sign (s \<noteq> s') * (real_of_int (n * d') / real_of_int (d * n'))) (2 powi (k - 54)) (f_round (s \<noteq> s') (n * d') (d * n'))"
    using x(3,4) y(3,4) n' assms(4-6) by (intro f_round_error) simp_all
  then show ?thesis unfolding v using n' by (simp add: x(1,2) y(1,2))
qed

lemma f_add_error:
  assumes "f_ok x" and "f_ok y" and "\<bar>f_val x + f_val y\<bar> < 2 powi k" and "- 1000 \<le> k" and "k \<le> 1000"
  shows "f_near (f_val x + f_val y) (2 powi (k - 54)) (f_add x y)"
proof -
  from assms(1) obtain s m e n d where x: "x = FFin s m e" "f_ratio m e = (n, d)" "0 < d"
    "f_val x = f_sign s * (real_of_int n / real_of_int d)" by (rule f_okE)
  from assms(2) obtain s' m' e' n' d' where y: "y = FFin s' m' e'" "f_ratio m' e' = (n', d')" "0 < d'"
    "f_val y = f_sign s' * (real_of_int n' / real_of_int d')" by (rule f_okE)
  define t where "t = f_signed s n * d' + f_signed s' n' * d"
  have v: "real_of_int t / real_of_int (d * d') = f_val x + f_val y"
    using x(3,4) y(3,4) by (auto simp: t_def f_signed_def field_simps)
  have a: "real_of_int \<bar>t\<bar> / real_of_int (d * d') = \<bar>f_val x + f_val y\<bar>"
    unfolding v [symmetric] using x(3) y(3) by (simp add: abs_mult)
  have "f_near (f_sign (t < 0) * (real_of_int \<bar>t\<bar> / real_of_int (d * d'))) (2 powi (k - 54)) (f_round (t < 0) \<bar>t\<bar> (d * d'))"
    using x(3) y(3) a assms(3-5) by (intro f_round_error) simp_all
  moreover have "f_sign (t < 0) * (real_of_int \<bar>t\<bar> / real_of_int (d * d')) = f_val x + f_val y"
    unfolding v [symmetric] by simp
  ultimately have "t \<noteq> 0 \<Longrightarrow> ?thesis" unfolding x(1) y(1) f_add.simps x(2) y(2) by (simp add: t_def [symmetric])
  moreover have "?thesis" if "t = 0"
  proof -
    have "f_add x y = f_zero (s \<and> s')" using that unfolding x(1) y(1) f_add.simps x(2) y(2) by (simp add: t_def)
    moreover have "f_val x + f_val y = 0" unfolding v [symmetric] that by simp
    moreover have "f_val (f_zero (s \<and> s')) = 0" "f_finite (f_zero (s \<and> s'))" by (simp_all add: f_zero_def)
    ultimately show ?thesis by (simp add: f_near_def f_ok_def)
  qed
  ultimately show ?thesis by blast
qed

lemma f_neg_ok [simp]: "f_val (f_neg x) = - f_val x" "f_ok (f_neg x) = f_ok x"
  by (cases x; simp add: f_ok_def float_wf_def)+

lemma f_sub_error:
  assumes "f_ok x" and "f_ok y" and "\<bar>f_val x - f_val y\<bar> < 2 powi k" and "- 1000 \<le> k" and "k \<le> 1000"
  shows "f_near (f_val x - f_val y) (2 powi (k - 54)) (f_sub x y)"
  using f_add_error [of x "f_neg y" k] assms by (simp add: f_sub_def)

lemma f_less_val: "f_ok x \<Longrightarrow> f_ok y \<Longrightarrow> f_less x y \<longleftrightarrow> f_val x < f_val y"
proof -
  assume "f_ok x" "f_ok y"
  from \<open>f_ok x\<close> obtain s m e n d where x: "x = FFin s m e" "f_ratio m e = (n, d)" "0 < d"
    "f_val x = f_sign s * (real_of_int n / real_of_int d)" by (rule f_okE)
  from \<open>f_ok y\<close> obtain s' m' e' n' d' where y: "y = FFin s' m' e'" "f_ratio m' e' = (n', d')" "0 < d'"
    "f_val y = f_sign s' * (real_of_int n' / real_of_int d')" by (rule f_okE)
  have "f_val x = real_of_int (f_signed s n) / real_of_int d" "f_val y = real_of_int (f_signed s' n') / real_of_int d'"
    using x(4) y(4) by (simp_all add: f_signed_def)
  then have "f_val x < f_val y \<longleftrightarrow> real_of_int (f_signed s n) * real_of_int d' < real_of_int (f_signed s' n') * real_of_int d"
    using x(3) y(3) by (simp only:) (simp add: divide_less_eq pos_less_divide_eq mult.commute)
  also have "\<dots> \<longleftrightarrow> f_signed s n * d' < f_signed s' n' * d"
    unfolding of_int_mult [symmetric] of_int_less_iff ..
  finally show ?thesis by (simp add: x(1,2) y(1,2))
qed

lemma f_round_exact:
  assumes "0 \<le> m" and "m < 9007199254740992"
  shows "f_near (f_sign s * of_int m) 0 (f_round s m 1)"
proof (cases "m = 0")
  case True
  then show ?thesis by (simp add: f_round_def f_near_def f_ok_def) (simp add: f_zero_def)
next
  case False
  obtain a e where f: "float_wf (FFin False a e)" "real_of_int m = of_int a * 2 powi e"
    using is_float_int [of m] assms by (auto simp: is_float_def)
  then have "float_wf (FFin s a e)" by (simp add: float_wf_def)
  with round_ratio_exact [of m 1 s a e] False f assms(1) show ?thesis
    by (simp add: f_round_def f_near_def f_ok_def)
qed

lemma math_Round_error:
  assumes "f_ok x" and "\<bar>f_val x\<bar> < 4503599627370496"
  shows "f_near (f_val x) (1 / 2) (math_Round x)"
proof -
  from assms(1) obtain s m e where x: "x = FFin s m e" "float_wf x" by (cases x) (auto simp: f_ok_def)
  show ?thesis
  proof (cases "0 \<le> e")
    case True
    then show ?thesis using assms(1) by (simp add: math_Round_def x(1) f_near_def)
  next
    case False
    define d where "d = ipow 2 (- e)"
    have d: "0 < d" "real_of_int d = 2 powi (- e)" using False by (simp_all add: d_def ipow_power ipow_powi [symmetric])
    have m: "0 \<le> m" using x by (simp add: float_wf_def)
    let ?q = "(2 * m + d) div (2 * d)"
    have v: "real_of_int m * 2 powi e = real_of_int m / real_of_int d"
      using d(2) by (simp add: power_int_minus_divide)
    have "real_of_int ?q \<le> (2 * real_of_int m + real_of_int d) / (2 * real_of_int d)"
      "(2 * real_of_int m + real_of_int d) / (2 * real_of_int d) < real_of_int ?q + 1"
      using real_of_int_div4 [of "2 * m + d" "2 * d"] floor_divide_of_int_eq [of "2 * m + d" "2 * d", where 'a = real]
      by (simp_all add: field_simps) linarith
    moreover have "(2 * real_of_int m + real_of_int d) / (2 * real_of_int d) = real_of_int m / real_of_int d + 1 / 2"
      using d(1) by (simp add: field_simps)
    ultimately have q: "\<bar>real_of_int ?q - real_of_int m / real_of_int d\<bar> \<le> 1 / 2" by linarith
    have "real_of_int m / real_of_int d < 4503599627370496" using assms(2) v m d(1) by (cases s) (simp_all add: x(1) abs_mult)
    with q have "real_of_int ?q < 9007199254740992" by linarith
    then have "f_near (f_sign s * of_int ?q) 0 (f_round s ?q 1)"
      using m d(1) by (intro f_round_exact) (simp_all add: pos_imp_zdiv_nonneg_iff)
    moreover have "f_val x = f_sign s * (real_of_int m / real_of_int d)" using v by (simp add: x(1))
    ultimately show ?thesis using q q [unfolded abs_minus_commute [of "real_of_int ?q"]] False by (auto simp: math_Round_def x(1) d_def [symmetric] f_near_def Let_def)
  qed
qed

text \<open>Rounding never passes a canonical bound.\<close>

lemma f_round_bound:
  assumes "0 \<le> n" and "0 < d" and "is_float b" and "real_of_int n / real_of_int d \<le> b"
  shows "\<bar>f_val (f_round s n d)\<bar> \<le> b"
proof (cases "n = 0")
  case True
  then show ?thesis using assms(4) by (simp add: f_round_def f_zero_def)
next
  case False
  obtain m' e' where b: "float_wf (FFin False m' e')" "b = of_int m' * 2 powi e'"
    using assms(3) by (auto simp: is_float_def)
  obtain m e where "round_ratio s n d = FFin s m e" "float_wf (FFin s m e)" "of_int m * 2 powi e \<le> b"
    using round_ratio_le [of n d False m' e' s] False assms(1,2,4) b by (metis order_less_le)
  then show ?thesis using False wf_mantissa [of s m e] by (auto simp: f_round_def abs_mult)
qed

lemma f_add_bound:
  assumes "f_ok x" and "f_ok y" and "is_float b" and "\<bar>f_val x + f_val y\<bar> \<le> b"
  shows "\<bar>f_val (f_add x y)\<bar> \<le> b"
proof -
  from assms(1) obtain s m e n d where x: "x = FFin s m e" "f_ratio m e = (n, d)" "0 < d"
    "f_val x = f_sign s * (real_of_int n / real_of_int d)" by (rule f_okE)
  from assms(2) obtain s' m' e' n' d' where y: "y = FFin s' m' e'" "f_ratio m' e' = (n', d')" "0 < d'"
    "f_val y = f_sign s' * (real_of_int n' / real_of_int d')" by (rule f_okE)
  define t where "t = f_signed s n * d' + f_signed s' n' * d"
  have v: "real_of_int t / real_of_int (d * d') = f_val x + f_val y"
    using x(3,4) y(3,4) by (auto simp: t_def f_signed_def field_simps)
  have "real_of_int \<bar>t\<bar> / real_of_int (d * d') = \<bar>f_val x + f_val y\<bar>"
    unfolding v [symmetric] using x(3) y(3) by (simp add: abs_mult)
  then have "\<bar>f_val (f_round (t < 0) \<bar>t\<bar> (d * d'))\<bar> \<le> b"
    using x(3) y(3) assms(3,4) by (intro f_round_bound) simp_all
  moreover have "f_add x y = (if t = 0 then f_zero (s \<and> s') else f_round (t < 0) \<bar>t\<bar> (d * d'))"
    unfolding x(1) y(1) f_add.simps x(2) y(2) by (simp add: t_def Let_def)
  moreover have "f_val (f_zero (s \<and> s')) = 0" by (simp add: f_zero_def)
  ultimately show ?thesis using assms(4) by (cases "t = 0") simp_all
qed

lemma f_mul_bound:
  assumes "f_ok x" and "f_ok y" and "is_float b" and "\<bar>f_val x * f_val y\<bar> \<le> b"
  shows "\<bar>f_val (f_mul x y)\<bar> \<le> b"
proof -
  from assms(1) obtain s m e n d where x: "x = FFin s m e" "f_ratio m e = (n, d)" "0 \<le> n" "0 < d"
    "f_val x = f_sign s * (real_of_int n / real_of_int d)" by (rule f_okE)
  from assms(2) obtain s' m' e' n' d' where y: "y = FFin s' m' e'" "f_ratio m' e' = (n', d')" "0 \<le> n'" "0 < d'"
    "f_val y = f_sign s' * (real_of_int n' / real_of_int d')" by (rule f_okE)
  have "real_of_int (n * n') / real_of_int (d * d') = \<bar>f_val x * f_val y\<bar>"
    using x(3-5) y(3-5) by (simp add: abs_mult)
  then have "\<bar>f_val (f_round (s \<noteq> s') (n * n') (d * d'))\<bar> \<le> b"
    using x(3,4) y(3,4) assms(3,4) by (intro f_round_bound) simp_all
  then show ?thesis by (simp add: x(1,2) y(1,2))
qed

lemma f_sub_bound:
  "f_ok x \<Longrightarrow> f_ok y \<Longrightarrow> is_float b \<Longrightarrow> \<bar>f_val x - f_val y\<bar> \<le> b \<Longrightarrow> \<bar>f_val (f_sub x y)\<bar> \<le> b"
  using f_add_bound [of x "f_neg y" b] by (simp add: f_sub_def)

text \<open>Exact constants.\<close>

lemma f_of_int_exact: "\<bar>n\<bar> < 9007199254740992 \<Longrightarrow> f_near (of_int n) 0 (f_of_int n)"
  using f_round_exact [of "\<bar>n\<bar>" "n < 0"] by (auto simp: f_of_int_def split: if_splits)

lemma f_half_near: "f_near (1 / 2) 0 f_half"
  by (simp add: f_half_def f_near_def f_ok_def float_wf_def power_int_minus_divide)

lemma f_near_iff: "f_near v err x \<longleftrightarrow> f_ok x \<and> f_val x \<le> v + err \<and> v - err \<le> f_val x"
  by (auto simp: f_near_def)

lemma f_near_ok: "f_near v err x \<Longrightarrow> f_ok x"
  by (simp add: f_near_def)

lemma f_near_weaken: "f_near v err x \<Longrightarrow> err \<le> err' \<Longrightarrow> f_near v err' x"
  by (simp add: f_near_def)

end
