(* ===== verification/Quotegen.thy ===== *)
theory Quotegen
  imports FloatError AvroWire
begin

text \<open>
  \<open>tools/quotegen/main.go\<close>, the load generator: at a fixed rate it draws a quote, a book
  snapshot or a trade around a base price, frames it as Avro with a registry schema id and
  writes it to Kafka in batches of 200. The random source, the clock, the Avro library, the
  schema file and Kafka's writer are arguments. The goroutine is a sequence of the events its
  \<open>select\<close> receives: a tick with the time, the deadline, an interrupt.
\<close>

section \<open>Data\<close>

record level =
  lv_Price :: float64
  lv_Size :: float64

record bookDelta =
  bd_Venue :: string
  bd_Symbol :: string
  bd_IsSnapshot :: bool
  bd_Bids :: "level list"
  bd_Asks :: "level list"
  bd_EventTimeUS :: int64
  bd_IngestTimeUS :: int64
  bd_Sequence :: int64

record trade =
  tr_Venue :: string
  tr_Symbol :: string
  tr_TradeID :: string
  tr_Price :: float64
  tr_Size :: float64
  tr_Side :: string
  tr_EventTimeUS :: int64
  tr_IngestTimeUS :: int64
  tr_Sequence :: int64

record quote =
  qt_Venue :: string
  qt_Symbol :: string
  qt_BidPrice :: float64
  qt_BidSize :: float64
  qt_AskPrice :: float64
  qt_AskSize :: float64
  qt_Mid :: float64
  qt_SpreadBps :: float64
  qt_Imbalance :: float64
  qt_EventTimeUS :: int64
  qt_EmitTimeUS :: int64

text \<open>What is handed to \<open>avro.Marshal\<close>, and a message for the writer.\<close>

datatype gen_value = GBook bookDelta | GTrade trade | GQuote quote

record gen_message =
  gm_Key :: string
  gm_Value :: bytes

text \<open>The package-level random functions, over the state of their source.\<close>

record 'g rand =
  Intn :: "'g \<Rightarrow> nat \<Rightarrow> 'g \<times> nat"
  Float64 :: "'g \<Rightarrow> 'g \<times> float64"

section \<open>Prices\<close>

abbreviation f_milli :: float64 where "f_milli \<equiv> f_round False 1 1000"
abbreviation f_bp :: float64 where "f_bp \<equiv> f_round False 1 10000"
abbreviation f_cent :: float64 where "f_cent \<equiv> f_round False 1 100"

definition round2 :: "float64 \<Rightarrow> float64" where
  "round2 v = f_div (math_Round (f_mul v (f_of_int 100))) (f_of_int 100)"

definition gen_symbols :: "string list" where
  "gen_symbols = [''BTC-USD'', ''ETH-USD'', ''SOL-USD'']"

definition gen_venues :: "string list" where
  "gen_venues = [''coinbase'', ''kraken'', ''binance'']"

text \<open>A key that is absent reads as the zero value.\<close>

definition gen_base :: "string \<Rightarrow> float64" where
  "gen_base symb =
     (case map_of [(''BTC-USD'', f_of_int 64000), (''ETH-USD'', f_of_int 3100), (''SOL-USD'', f_of_int 140)] symb of
        None \<Rightarrow> f_zero False
      | Some p \<Rightarrow> p)"

definition gen_mid :: "string \<Rightarrow> float64 \<Rightarrow> float64" where
  "gen_mid symb r = f_mul (gen_base symb) (f_add (f_of_int 1) (f_mul (f_sub r f_half) f_milli))"

definition gen_spread :: "float64 \<Rightarrow> float64" where
  "gen_spread mid = f_mul mid f_bp"

section \<open>One message of each kind\<close>

text \<open>The loop over the five levels; the bid's size is drawn before the ask's.\<close>

fun book_levels ::
  "'g rand \<Rightarrow> 'g \<Rightarrow> float64 \<Rightarrow> float64 \<Rightarrow> nat list \<Rightarrow> level list \<Rightarrow> level list \<Rightarrow> 'g \<times> level list \<times> level list"
where
  "book_levels R g mid spread [] bids asks = (g, bids, asks)"
| "book_levels R g mid spread (i # is) bids asks =
     (let step = f_mul spread (f_of_int (int i + 1));
          (g, b) = Float64 R g; (g, a) = Float64 R g
      in book_levels R g mid spread is
           (bids @ [\<lparr>lv_Price = round2 (f_sub mid step), lv_Size = f_add (f_of_int 1) b\<rparr>])
           (asks @ [\<lparr>lv_Price = round2 (f_add mid step), lv_Size = f_add (f_of_int 1) a\<rparr>]))"

text \<open>The levels a delta clears around the previous mid: size zero deletes.\<close>

definition clear_levels :: "float64 \<Rightarrow> float64 \<Rightarrow> level list \<times> level list" where
  "clear_levels prev spread =
     (map (\<lambda>i. \<lparr>lv_Price = round2 (f_sub prev (f_mul spread (f_of_int (int i + 1)))), lv_Size = f_zero False\<rparr>) [0..<5],
      map (\<lambda>i. \<lparr>lv_Price = round2 (f_add prev (f_mul spread (f_of_int (int i + 1)))), lv_Size = f_zero False\<rparr>) [0..<5])"

record ('g, 'w) gen_state =
  gs_rng :: 'g
  gs_writer :: 'w
  gs_sent :: int64
  gs_batch :: "gen_message list"
  gs_seeded :: "string \<Rightarrow> bool"
  gs_lastMid :: "string \<rightharpoonup> float64"

text \<open>The branch \<open>kind == book\<close> up to the marshalling; \<open>isSnap\<close> is the constant \<open>true\<close>.\<close>

definition gen_book ::
  "'g rand \<Rightarrow> string \<Rightarrow> string \<Rightarrow> float64 \<Rightarrow> float64 \<Rightarrow> int64 \<Rightarrow> ('g, 'w) gen_state \<Rightarrow> ('g, 'w) gen_state \<times> bookDelta"
where
  "gen_book R ven symb mid spread now st =
     (let seq = gs_sent st;
          key = ven @ ''|'' @ symb;
          isSnap = True;
          st = st\<lparr>gs_seeded := (gs_seeded st)(key := True)\<rparr>;
          (g, bids, asks) = book_levels R (gs_rng st) mid spread [0..<5] [] [];
          (bids, asks) =
            (if \<not> isSnap then
               (case gs_lastMid st key of
                  Some prev \<Rightarrow> (bids @ fst (clear_levels prev spread), asks @ snd (clear_levels prev spread))
                | None \<Rightarrow> (bids, asks))
             else (bids, asks))
      in (st\<lparr>gs_rng := g, gs_lastMid := (gs_lastMid st)(key \<mapsto> mid)\<rparr>,
          \<lparr>bd_Venue = ven, bd_Symbol = symb, bd_IsSnapshot = isSnap, bd_Bids = bids, bd_Asks = asks,
           bd_EventTimeUS = now, bd_IngestTimeUS = now, bd_Sequence = seq\<rparr>))"

definition gen_trade ::
  "'g rand \<Rightarrow> string \<Rightarrow> string \<Rightarrow> float64 \<Rightarrow> int64 \<Rightarrow> ('g, 'w) gen_state \<Rightarrow> ('g, 'w) gen_state \<times> trade"
where
  "gen_trade R ven symb mid now st =
     (let (g, i) = Intn R (gs_rng st) 2;
          side = (if i = 0 then ''SELL'' else ''BUY'');
          (g, size) = Float64 R g
      in (st\<lparr>gs_rng := g\<rparr>,
          \<lparr>tr_Venue = ven, tr_Symbol = symb, tr_TradeID = ven @ ''-'' @ FormatInt (gs_sent st),
           tr_Price = round2 mid, tr_Size = f_add f_cent size, tr_Side = side,
           tr_EventTimeUS = now, tr_IngestTimeUS = now, tr_Sequence = gs_sent st\<rparr>))"

definition gen_quote ::
  "'g rand \<Rightarrow> string \<Rightarrow> string \<Rightarrow> float64 \<Rightarrow> float64 \<Rightarrow> int64 \<Rightarrow> ('g, 'w) gen_state \<Rightarrow> ('g, 'w) gen_state \<times> quote"
where
  "gen_quote R ven symb mid spread now st =
     (let (g, b) = Float64 R (gs_rng st); (g, a) = Float64 R g; (g, i) = Float64 R g;
          half = f_div spread (f_of_int 2)
      in (st\<lparr>gs_rng := g\<rparr>,
          \<lparr>qt_Venue = ven, qt_Symbol = symb,
           qt_BidPrice = f_sub mid half, qt_BidSize = f_add (f_of_int 1) b,
           qt_AskPrice = f_add mid half, qt_AskSize = f_add (f_of_int 1) a,
           qt_Mid = mid, qt_SpreadBps = f_mul (f_div spread mid) (f_of_int 10000),
           qt_Imbalance = f_mul (f_sub i f_half) (f_of_int 2),
           qt_EventTimeUS = now, qt_EmitTimeUS = now\<rparr>))"

section \<open>The loop\<close>

definition gen_header :: "int64 \<Rightarrow> bytes" where
  "gen_header schemaID = 0 # PutUint32 (word_of_int schemaID)"

text \<open>
  The tail the three branches share: append the framed message, count it as sent, and at 200
  hand the batch to the writer. A write error is logged and the batch is emptied all the same.
\<close>

definition gen_emit ::
  "('w \<Rightarrow> gen_message list \<Rightarrow> 'w \<times> goerror option) \<Rightarrow> int64 \<Rightarrow> string \<Rightarrow> bytes \<Rightarrow> ('g, 'w) gen_state \<Rightarrow> ('g, 'w) gen_state"
where
  "gen_emit WriteMessages schemaID symb payload st =
     (let batch = gs_batch st @ [\<lparr>gm_Key = symb, gm_Value = gen_header schemaID @ payload\<rparr>];
          st = st\<lparr>gs_sent := wrap64 (gs_sent st + 1)\<rparr>
      in if 200 \<le> length batch
         then st\<lparr>gs_writer := fst (WriteMessages (gs_writer st) batch), gs_batch := []\<rparr>
         else st\<lparr>gs_batch := batch\<rparr>)"

text \<open>A tick before the marshalling: the state with the random source advanced, the symbol, the value.\<close>

definition gen_draw ::
  "'g rand \<Rightarrow> string \<Rightarrow> int64 \<Rightarrow> ('g, 'w) gen_state \<Rightarrow> ('g, 'w) gen_state \<times> string \<times> gen_value"
where
  "gen_draw R kind now st =
     (let (g, i) = Intn R (gs_rng st) (length gen_symbols); symb = gen_symbols ! i;
          (g, j) = Intn R g (length gen_venues); ven = gen_venues ! j;
          (g, r) = Float64 R g; mid = gen_mid symb r;
          spread = gen_spread mid;
          st = st\<lparr>gs_rng := g\<rparr>
      in if kind = ''book'' then (case gen_book R ven symb mid spread now st of (st, d) \<Rightarrow> (st, symb, GBook d))
         else if kind = ''trade'' then (case gen_trade R ven symb mid now st of (st, t) \<Rightarrow> (st, symb, GTrade t))
         else (case gen_quote R ven symb mid spread now st of (st, q) \<Rightarrow> (st, symb, GQuote q)))"

datatype gen_input = Interrupted | DeadlinePassed | Tick int64

datatype 'st gen_outcome =
    GFatal string
  | GPanic string
  | GSent int64 'st    \<comment> \<open>the count the program prints, and the state it leaves\<close>
  | GRunning 'st

fun gen_loop ::
  "'g rand \<Rightarrow> ('w \<Rightarrow> gen_message list \<Rightarrow> 'w \<times> goerror option) \<Rightarrow> (gen_value \<Rightarrow> bytes result) \<Rightarrow>
   int64 \<Rightarrow> string \<Rightarrow> ('g, 'w) gen_state \<Rightarrow> gen_input list \<Rightarrow> ('g, 'w) gen_state gen_outcome"
where
  "gen_loop R WriteMessages Marshal schemaID kind st [] = GRunning st"
| "gen_loop R WriteMessages Marshal schemaID kind st (Interrupted # evs) = GSent (gs_sent st) st"
| "gen_loop R WriteMessages Marshal schemaID kind st (DeadlinePassed # evs) =
     GSent (gs_sent st)
       (if gs_batch st \<noteq> [] then st\<lparr>gs_writer := fst (WriteMessages (gs_writer st) (gs_batch st))\<rparr> else st)"
| "gen_loop R WriteMessages Marshal schemaID kind st (Tick now # evs) =
     (case gen_draw R kind now st of
        (st, symb, v) \<Rightarrow>
          (case Marshal v of
             Inl err \<Rightarrow> GFatal ''marshal''
           | Inr payload \<Rightarrow>
               gen_loop R WriteMessages Marshal schemaID kind (gen_emit WriteMessages schemaID symb payload st) evs))"

text \<open>\<open>time.Second / time.Duration(rate)\<close> and the checks of the division and of \<open>NewTicker\<close>.\<close>

definition tick_interval :: "int64 \<Rightarrow> string + int64" where
  "tick_interval rate =
     (if rate = 0 then Inl ''integer divide by zero''
      else (let d = sgn rate * (1000000000 div \<bar>rate\<bar>)
            in if d \<le> 0 then Inl ''non-positive interval for NewTicker'' else Inr d))"

definition gen_start :: "'g \<Rightarrow> 'w \<Rightarrow> ('g, 'w) gen_state" where
  "gen_start g w = \<lparr>gs_rng = g, gs_writer = w, gs_sent = 0, gs_batch = [], gs_seeded = (\<lambda>_. False), gs_lastMid = Map.empty\<rparr>"

text \<open>The command-line flags with their defaults, and the configuration of the writer.\<close>

record gen_flags =
  gf_brokers :: string
  gf_topic :: string
  gf_schemaID :: int64
  gf_rate :: int64
  gf_duration :: int64
  gf_schemaPath :: string
  gf_kind :: string

definition gen_flag_defaults :: gen_flags where
  "gen_flag_defaults =
     \<lparr>gf_brokers = ''localhost:9092'', gf_topic = ''md.quotes.v1'', gf_schemaID = 0, gf_rate = 500,
      gf_duration = 60 * 1000000000, gf_schemaPath = ''stream/src/main/resources/avro/quote.v1.avsc'',
      gf_kind = ''quote''\<rparr>"

record gen_writer =
  gw_Addr :: string
  gw_Topic :: string
  gw_HashBalancer :: bool
  gw_RequireOne :: bool
  gw_BatchSize :: int64
  gw_BatchTimeout :: int64

definition gen_writer_of :: "gen_flags \<Rightarrow> gen_writer" where
  "gen_writer_of fl =
     \<lparr>gw_Addr = gf_brokers fl, gw_Topic = gf_topic fl, gw_HashBalancer = True, gw_RequireOne = True,
      gw_BatchSize = 200, gw_BatchTimeout = 5 * 1000000\<rparr>"

definition gen_main ::
  "'g rand \<Rightarrow> (gen_writer \<Rightarrow> 'w \<Rightarrow> gen_message list \<Rightarrow> 'w \<times> goerror option) \<Rightarrow> (string \<Rightarrow> string result) \<Rightarrow>
   (string \<Rightarrow> 's result) \<Rightarrow> ('s \<Rightarrow> gen_value \<Rightarrow> bytes result) \<Rightarrow> gen_flags \<Rightarrow> 'g \<Rightarrow> 'w \<Rightarrow> gen_input list \<Rightarrow>
   ('g, 'w) gen_state gen_outcome"
where
  "gen_main R WriteMessages ReadFile Parse Marshal fl g w evs =
     (if gf_schemaID fl = 0 then GFatal ''-schema-id is required; register the quote schema first''
      else case ReadFile (gf_schemaPath fl) of
        Inl err \<Rightarrow> GFatal ''reading quote schema''
      | Inr json \<Rightarrow>
          (case Parse json of
             Inl err \<Rightarrow> GFatal ''parsing quote schema''
           | Inr schema \<Rightarrow>
               (case tick_interval (gf_rate fl) of
                  Inl panic \<Rightarrow> GPanic panic
                | Inr interval \<Rightarrow>
                    gen_loop R (WriteMessages (gen_writer_of fl)) (Marshal schema) (gf_schemaID fl) (gf_kind fl) (gen_start g w) evs)))"

section \<open>Rounding errors of the prices\<close>

text \<open>What \<open>math/rand\<close> documents of the two functions.\<close>

definition rand_ok :: "'g rand \<Rightarrow> bool" where
  "rand_ok R \<longleftrightarrow>
     (\<forall>g n. 0 < n \<longrightarrow> snd (Intn R g n) < n) \<and>
     (\<forall>g. f_ok (snd (Float64 R g)) \<and> 0 \<le> f_val (snd (Float64 R g)) \<and> f_val (snd (Float64 R g)) < 1)"

lemmas near_simps = f_near_iff abs_le_iff abs_less_iff

abbreviation unit_float :: "float64 \<Rightarrow> bool" where
  "unit_float r \<equiv> f_ok r \<and> 0 \<le> f_val r \<and> f_val r < 1"

lemma f_milli_near: "f_near (1 / 1000) (1 / 10 ^ 16) f_milli"
  using f_round_error [of 1 1000 0 False] by (auto simp: abs_le_iff abs_less_iff intro: f_near_weaken)

lemma f_bp_near: "f_near (1 / 10000) (1 / 10 ^ 16) f_bp"
  using f_round_error [of 1 10000 0 False] by (auto simp: abs_le_iff abs_less_iff intro: f_near_weaken)

lemma f_cent_near: "f_near (1 / 100) (1 / 10 ^ 16) f_cent"
  using f_round_error [of 1 100 0 False] by (auto simp: abs_le_iff abs_less_iff intro: f_near_weaken)

lemma small_int: "\<bar>n\<bar> \<le> 100000 \<Longrightarrow> f_ok (f_of_int n) \<and> f_val (f_of_int n) = of_int n"
  using f_of_int_exact [of n] by (simp add: f_near_def)

lemma half_val: "f_ok f_half" "f_val f_half = 1 / 2"
  using f_half_near by (simp_all add: f_near_def)

text \<open>The base prices.\<close>

lemma gen_base_val:
  assumes "symb \<in> set gen_symbols"
  shows "f_ok (gen_base symb) \<and> 140 \<le> f_val (gen_base symb) \<and> f_val (gen_base symb) \<le> 64000"
  using assms small_int [of 64000] small_int [of 3100] small_int [of 140] by (auto simp: gen_symbols_def gen_base_def)

lemma gen_mid_near:
  assumes "symb \<in> set gen_symbols" and "unit_float r"
  shows "f_near (f_val (gen_base symb)) (f_val (gen_base symb) * (6 / 10000)) (gen_mid symb r)"
proof -
  let ?b = "gen_base symb" and ?a = "f_sub r f_half"
  let ?p = "f_mul ?a f_milli"
  let ?c = "f_add (f_of_int 1) ?p"
  note b = gen_base_val [OF assms(1)]
  have a: "f_ok ?a" "\<bar>f_val ?a\<bar> \<le> 51 / 100"
    using f_sub_error [of r f_half 0] assms(2) half_val unfolding near_simps by (auto; linarith)+
  have m: "f_ok f_milli" "\<bar>f_val f_milli\<bar> \<le> 11 / 10000" using f_milli_near unfolding near_simps by (auto; linarith)+
  have "\<bar>f_val ?a * f_val f_milli\<bar> \<le> 51 / 100 * (11 / 10000)" unfolding abs_mult using a m by (intro mult_mono) auto
  then have p: "f_ok ?p" "\<bar>f_val ?p\<bar> \<le> 57 / 100000" using f_mul_error [OF a(1) m(1), of 0] unfolding near_simps by (auto; linarith)+
  have c: "f_ok ?c" "\<bar>f_val ?c - 1\<bar> \<le> 58 / 100000"
    using f_add_error [of "f_of_int 1" ?p 1] small_int [of 1] p unfolding near_simps by (auto; linarith)+
  have "\<bar>f_val ?b * (f_val ?c - 1)\<bar> \<le> f_val ?b * (58 / 100000)" unfolding abs_mult using b c by (intro mult_mono) auto
  then have d: "\<bar>f_val ?b * f_val ?c - f_val ?b\<bar> \<le> f_val ?b * (58 / 100000)" by (simp add: right_diff_distrib)
  then have "\<bar>f_val ?b * f_val ?c\<bar> < 2 powi 16" using b unfolding near_simps by (auto; linarith)+
  from f_mul_error [OF _ c(1) this] b d show ?thesis unfolding gen_mid_def near_simps by (auto; linarith)+
qed

text \<open>A price in the range the generator draws from.\<close>

abbreviation mid_ok :: "float64 \<Rightarrow> bool" where
  "mid_ok mid \<equiv> f_ok mid \<and> 1399 / 10 \<le> f_val mid \<and> f_val mid \<le> 64040"

lemma gen_mid_ok: "symb \<in> set gen_symbols \<Longrightarrow> unit_float r \<Longrightarrow> mid_ok (gen_mid symb r)"
  using gen_mid_near [of symb r] gen_base_val [of symb] unfolding near_simps by (auto; linarith)+

lemma gen_spread_near:
  assumes "mid_ok mid"
  shows "f_near (f_val mid / 10000) (1 / 10 ^ 11) (gen_spread mid)"
proof -
  have p: "f_ok f_bp" "\<bar>f_val f_bp - 1 / 10000\<bar> \<le> 1 / 10 ^ 16" using f_bp_near unfolding near_simps by (auto; linarith)+
  have "\<bar>f_val mid * (f_val f_bp - 1 / 10000)\<bar> \<le> 64040 * (1 / 10 ^ 16)"
    unfolding abs_mult using assms p by (intro mult_mono) auto
  then have d: "\<bar>f_val mid * f_val f_bp - f_val mid / 10000\<bar> \<le> 64040 / 10 ^ 16" by (simp add: right_diff_distrib)
  then have "\<bar>f_val mid * f_val f_bp\<bar> < 2 powi 3" using assms unfolding near_simps by (auto; linarith)+
  from f_mul_error [OF _ p(1) this] assms d show ?thesis unfolding gen_spread_def near_simps by (auto; linarith)+
qed

lemma round2_near:
  assumes "f_ok v" and "\<bar>f_val v\<bar> \<le> 65000"
  shows "f_near (f_val v) (501 / 100000) (round2 v)"
proof -
  let ?h = "f_of_int 100" and ?x = "f_mul v (f_of_int 100)"
  have h: "f_ok ?h" "f_val ?h = 100" using small_int [of 100] by simp_all
  have x: "f_near (f_val v * 100) (1 / 10 ^ 9) ?x"
    using f_mul_error [OF assms(1) h(1), of 23] h(2) assms(2) unfolding near_simps by (auto; linarith)+
  have "f_ok ?x" "\<bar>f_val ?x\<bar> < 4503599627370496" using x assms(2) unfolding near_simps by (auto; linarith)+
  from math_Round_error [OF this] x
  have r: "f_ok (math_Round ?x)" "\<bar>f_val (math_Round ?x) - f_val v * 100\<bar> \<le> 1 / 2 + 1 / 10 ^ 9" unfolding near_simps by (auto; linarith)+
  then have q: "\<bar>f_val (math_Round ?x) / 100 - f_val v\<bar> \<le> 5001 / 1000000" unfolding near_simps by (auto; linarith)+
  then have "\<bar>f_val (math_Round ?x) / f_val ?h\<bar> < 2 powi 16" using assms(2) h unfolding near_simps by (auto; linarith)+
  from f_div_error [OF r(1) h(1) _ this] h q show ?thesis unfolding round2_def near_simps by (auto; linarith)+
qed

text \<open>The price of the level \<open>i\<close> steps from the mid, on either side.\<close>

abbreviation bid_price :: "float64 \<Rightarrow> nat \<Rightarrow> float64" where
  "bid_price mid i \<equiv> round2 (f_sub mid (f_mul (gen_spread mid) (f_of_int (int i + 1))))"

abbreviation ask_price :: "float64 \<Rightarrow> nat \<Rightarrow> float64" where
  "ask_price mid i \<equiv> round2 (f_add mid (f_mul (gen_spread mid) (f_of_int (int i + 1))))"

lemma level_prices_near:
  assumes "mid_ok mid" and "i < 5"
  shows "f_near (f_val mid - f_val mid / 10000 * (real i + 1)) (51 / 10000) (bid_price mid i)"
    and "f_near (f_val mid + f_val mid / 10000 * (real i + 1)) (51 / 10000) (ask_price mid i)"
proof -
  let ?s = "gen_spread mid" and ?n = "f_of_int (int i + 1)" and ?k = "real i + 1"
  let ?t = "f_mul ?s ?n"
  have s: "f_ok ?s" "\<bar>f_val ?s - f_val mid / 10000\<bar> \<le> 1 / 10 ^ 11"
    using gen_spread_near [OF assms(1)] unfolding near_simps by (auto; linarith)+
  have n: "f_ok ?n" "f_val ?n = ?k" using small_int [of "int i + 1"] assms(2) by auto
  have k: "1 \<le> ?k" "?k \<le> 5" using assms(2) by auto
  have "\<bar>(f_val ?s - f_val mid / 10000) * ?k\<bar> \<le> 1 / 10 ^ 11 * 5" unfolding abs_mult using s k by (intro mult_mono) auto
  then have d: "\<bar>f_val ?s * ?k - f_val mid / 10000 * ?k\<bar> \<le> 5 / 10 ^ 11" by (simp add: left_diff_distrib)
  have "\<bar>f_val mid / 10000 * ?k\<bar> \<le> 64040 / 10000 * 5" unfolding abs_mult using assms(1) k by (intro mult_mono) auto
  with d have b: "\<bar>f_val ?s * f_val ?n\<bar> < 2 powi 6" "\<bar>f_val mid / 10000 * ?k\<bar> \<le> 33" unfolding n(2) unfolding near_simps by (auto; linarith)+
  have t: "f_ok ?t" "\<bar>f_val ?t - f_val mid / 10000 * ?k\<bar> \<le> 1 / 10 ^ 10"
    using f_mul_error [OF s(1) n(1) b(1)] d n(2) unfolding near_simps by (auto; linarith)+
  have m: "f_near (f_val mid - f_val ?t) (1 / 10 ^ 11) (f_sub mid ?t)"
    using f_sub_error [of mid ?t 16] assms(1) t b(2) unfolding near_simps by (auto; linarith)+
  have p: "f_near (f_val mid + f_val ?t) (1 / 10 ^ 11) (f_add mid ?t)"
    using f_add_error [of mid ?t 16] assms(1) t b(2) unfolding near_simps by (auto; linarith)+
  have "f_near (f_val (f_sub mid ?t)) (501 / 100000) (bid_price mid i)"
    by (rule round2_near) (use m t b(2) assms(1) in \<open>unfold near_simps, (auto; linarith)+\<close>)
  with m t show "f_near (f_val mid - f_val mid / 10000 * ?k) (51 / 10000) (bid_price mid i)" unfolding near_simps by (auto; linarith)+
  have "f_near (f_val (f_add mid ?t)) (501 / 100000) (ask_price mid i)"
    by (rule round2_near) (use p t b(2) assms(1) in \<open>unfold near_simps, (auto; linarith)+\<close>)
  with p t show "f_near (f_val mid + f_val mid / 10000 * ?k) (51 / 10000) (ask_price mid i)" unfolding near_simps by (auto; linarith)+
qed

section \<open>What a tick draws\<close>

lemma gen_draw_cases:
  assumes "rand_ok R" and "gen_draw R kind now st = (st', symb, v)"
  obtains ven r g where "symb \<in> set gen_symbols" "ven \<in> set gen_venues" "unit_float r"
    "(if kind = ''book'' then \<exists>d. v = GBook d \<and> gen_book R ven symb (gen_mid symb r) (gen_spread (gen_mid symb r)) now (st\<lparr>gs_rng := g\<rparr>) = (st', d)
      else if kind = ''trade'' then \<exists>t. v = GTrade t \<and> gen_trade R ven symb (gen_mid symb r) now (st\<lparr>gs_rng := g\<rparr>) = (st', t)
      else \<exists>q. v = GQuote q \<and> gen_quote R ven symb (gen_mid symb r) (gen_spread (gen_mid symb r)) now (st\<lparr>gs_rng := g\<rparr>) = (st', q))"
proof -
  obtain g1 i where i: "Intn R (gs_rng st) 3 = (g1, i)" by fastforce
  obtain g2 j where j: "Intn R g1 3 = (g2, j)" by fastforce
  obtain g r where r: "Float64 R g2 = (g, r)" by fastforce
  have b: "i < 3" "j < 3" "unit_float r"
    using assms(1) i j r unfolding rand_ok_def by (metis snd_conv zero_less_numeral)+
  have l: "length gen_symbols = 3" "length gen_venues = 3" by (simp_all add: gen_symbols_def gen_venues_def)
  with b have "gen_symbols ! i \<in> set gen_symbols" "gen_venues ! j \<in> set gen_venues" by (simp_all add: nth_mem)
  with l show thesis
    using that [of "gen_venues ! j" r g] assms(2) i j r b(3)
    by (auto simp: gen_draw_def Let_def split: prod.splits if_splits)
qed

lemma book_levels_shape:
  assumes "rand_ok R" and "book_levels R g mid (gen_spread mid) is bids asks = (g', bids', asks')"
  shows "\<exists>bs as. bids' = bids @ bs \<and> asks' = asks @ as \<and>
    map lv_Price bs = map (bid_price mid) is \<and> map lv_Price as = map (ask_price mid) is \<and>
    (\<forall>l \<in> set (bs @ as). \<exists>r. unit_float r \<and> lv_Size l = f_add (f_of_int 1) r)"
  using assms(2)
proof (induction "is" arbitrary: g bids asks)
  case (Cons i "is")
  obtain g1 b where b: "Float64 R g = (g1, b)" by fastforce
  obtain g2 a where a: "Float64 R g1 = (g2, a)" by fastforce
  have u: "unit_float b" "unit_float a" using assms(1) a b unfolding rand_ok_def by (metis snd_conv)+
  let ?b = "\<lparr>lv_Price = bid_price mid i, lv_Size = f_add (f_of_int 1) b\<rparr>"
  let ?a = "\<lparr>lv_Price = ask_price mid i, lv_Size = f_add (f_of_int 1) a\<rparr>"
  have "book_levels R g2 mid (gen_spread mid) is (bids @ [?b]) (asks @ [?a]) = (g', bids', asks')"
    using Cons.prems a b by (simp add: Let_def)
  from Cons.IH [OF this] obtain bs as where
    "bids' = (bids @ [?b]) @ bs" "asks' = (asks @ [?a]) @ as"
    "map lv_Price bs = map (bid_price mid) is" "map lv_Price as = map (ask_price mid) is"
    "\<forall>l \<in> set (bs @ as). \<exists>r. unit_float r \<and> lv_Size l = f_add (f_of_int 1) r"
    by blast
  with u show ?case by (intro exI [of _ "?b # bs"] exI [of _ "?a # as"]) auto
qed simp

text \<open>The ladder of prices: both sides move strictly away from the mid.\<close>

lemma ladder:
  assumes "mid_ok mid"
  shows "i < j \<Longrightarrow> j < 5 \<Longrightarrow> f_less (bid_price mid j) (bid_price mid i)"
    and "i < j \<Longrightarrow> j < 5 \<Longrightarrow> f_less (ask_price mid i) (ask_price mid j)"
    and "i < 5 \<Longrightarrow> f_less (bid_price mid i) mid \<and> f_less mid (ask_price mid i) \<and> f_less (f_zero False) (bid_price mid i)"
proof -
  have t: "139 / 10000 \<le> f_val mid / 10000" "f_val mid / 10000 * 5 \<le> f_val mid / 10" using assms by auto
  have step: "f_val mid / 10000 * (real i + 1) + 139 / 10000 \<le> f_val mid / 10000 * (real j + 1)" if "i < j" for i j
  proof -
    have "f_val mid / 10000 * 1 \<le> f_val mid / 10000 * (real j - real i)" using that t(1) by (intro mult_left_mono) auto
    moreover have "w * (real j + 1) = w * (real i + 1) + w * (real j - real i)" for w :: real by (simp add: algebra_simps)
    note this [of "f_val mid / 10000"]
    ultimately show ?thesis using t(1) unfolding mult_1_right by linarith
  qed
  have up: "139 / 10000 \<le> f_val mid / 10000 * (real i + 1)" for i :: nat
    using mult_mono [of "139 / 10000" "f_val mid / 10000" 1 "real i + 1"] t(1) by simp
  have down: "f_val mid / 10000 * (real i + 1) \<le> f_val mid / 10" if "i < 5" for i :: nat
    using mult_left_mono [of "real i + 1" 5 "f_val mid / 10000"] that t by simp
  note near = level_prices_near [OF assms, unfolded near_simps]
  have zero: "f_ok (f_zero False)" "f_val (f_zero False) = 0" by (simp_all add: f_ok_def) (simp_all add: f_zero_def)
  show "f_less (bid_price mid j) (bid_price mid i)" if "i < j" "j < 5"
    using near(1) [of i] near(1) [of j] that step [OF that(1)] by (subst f_less_val) (auto; linarith)+
  show "f_less (ask_price mid i) (ask_price mid j)" if "i < j" "j < 5"
    using near(2) [of i] near(2) [of j] that step [OF that(1)] by (subst f_less_val) (auto; linarith)+
  show "f_less (bid_price mid i) mid \<and> f_less mid (ask_price mid i) \<and> f_less (f_zero False) (bid_price mid i)" if "i < 5"
  proof -
    have "f_ok (bid_price mid i)" "f_ok (ask_price mid i)" using near(1,2) [OF that] by auto
    then show ?thesis using near(1,2) [OF that] up [of i] down [OF that] zero assms by (simp add: f_less_val; linarith)
  qed
qed

lemma size_positive: "unit_float r \<Longrightarrow> f_less (f_zero False) (f_add (f_of_int 1) r)"
proof -
  assume r: "unit_float r"
  have "f_near (1 + f_val r) (1 / 2) (f_add (f_of_int 1) r)"
    using f_add_error [of "f_of_int 1" r 1] small_int [of 1] r unfolding near_simps by (auto; linarith)+
  moreover have "f_ok (f_zero False)" "f_val (f_zero False) = 0" by (simp_all add: f_ok_def) (simp_all add: f_zero_def)
  ultimately show ?thesis using r by (simp add: f_less_val near_simps; linarith)
qed

text \<open>
  C35. A book message is a snapshot of five bids and five asks whose rounded prices never
  cross: bids fall strictly from below the mid, asks rise strictly from above it, every bid is
  below every ask, prices and sizes are positive, whatever the random source draws.
\<close>

theorem book_snapshot_never_crossed:
  assumes "rand_ok R" and "gen_draw R kind now st = (st', symb, GBook d)"
  shows "kind = ''book'' \<and> bd_IsSnapshot d \<and> bd_Symbol d = symb \<and> bd_Sequence d = gs_sent st \<and>
    length (bd_Bids d) = 5 \<and> length (bd_Asks d) = 5 \<and>
    (\<forall>i j. i < j \<longrightarrow> j < 5 \<longrightarrow> f_less (lv_Price (bd_Bids d ! j)) (lv_Price (bd_Bids d ! i)) \<and>
       f_less (lv_Price (bd_Asks d ! i)) (lv_Price (bd_Asks d ! j))) \<and>
    (\<exists>mid. \<forall>b \<in> set (bd_Bids d). \<forall>a \<in> set (bd_Asks d). f_less (lv_Price b) mid \<and> f_less mid (lv_Price a)) \<and>
    (\<forall>l \<in> set (bd_Bids d). f_less (f_zero False) (lv_Price l)) \<and>
    (\<forall>l \<in> set (bd_Bids d @ bd_Asks d). f_less (f_zero False) (lv_Size l))"
proof -
  obtain ven r g where c: "symb \<in> set gen_symbols" "unit_float r" "kind = ''book''"
    "gen_book R ven symb (gen_mid symb r) (gen_spread (gen_mid symb r)) now (st\<lparr>gs_rng := g\<rparr>) = (st', d)"
    using gen_draw_cases [OF assms] by (metis gen_value.distinct(1,3) gen_value.inject(1))
  let ?mid = "gen_mid symb r"
  obtain g' bids asks where l: "book_levels R g ?mid (gen_spread ?mid) [0..<5] [] [] = (g', bids, asks)"
    by (metis prod_cases3)
  have d: "bd_IsSnapshot d" "bd_Symbol d = symb" "bd_Sequence d = gs_sent st" "bd_Bids d = bids" "bd_Asks d = asks"
    using c(4) l by (auto simp: gen_book_def Let_def)
  have shape: "map lv_Price bids = map (bid_price ?mid) [0..<5]" "map lv_Price asks = map (ask_price ?mid) [0..<5]"
    "\<forall>l \<in> set (bids @ asks). \<exists>r. unit_float r \<and> lv_Size l = f_add (f_of_int 1) r"
    using book_levels_shape [OF assms(1) l] by auto
  have len: "length bids = 5" "length asks = 5" using shape(1,2) by (metis length_map length_upt diff_zero)+
  have nth: "lv_Price (bids ! i) = bid_price ?mid i" "lv_Price (asks ! i) = ask_price ?mid i" if "i < 5" for i
    using arg_cong [OF shape(1), of "\<lambda>l. l ! i"] arg_cong [OF shape(2), of "\<lambda>l. l ! i"] that len by simp_all
  note lad = ladder [OF gen_mid_ok [OF c(1,2)]]
  have "\<forall>l \<in> set bids. f_less (lv_Price l) ?mid \<and> f_less (f_zero False) (lv_Price l)"
    "\<forall>l \<in> set asks. f_less ?mid (lv_Price l)"
    using lad(3) nth len by (auto simp: in_set_conv_nth)
  moreover have "\<forall>l \<in> set (bids @ asks). f_less (f_zero False) (lv_Size l)" using shape(3) size_positive by metis
  ultimately show ?thesis using c(3) d len nth lad(1,2) by auto
qed

lemma imbalance_bound:
  assumes "unit_float r"
  shows "\<bar>f_val (f_mul (f_sub r f_half) (f_of_int 2))\<bar> \<le> 1"
proof -
  have b: "is_float (1 / 2)" using f_half_near by (auto simp: f_half_def f_near_def intro!: is_floatI [of 4503599627370496 "- 53"] simp: float_wf_def power_int_minus_divide)
  have "\<bar>f_val r - f_val f_half\<bar> \<le> 1 / 2" using assms half_val(2) by linarith
  then have "\<bar>f_val (f_sub r f_half)\<bar> \<le> 1 / 2" using f_sub_bound [OF _ half_val(1) b] assms by blast
  moreover have "f_ok (f_sub r f_half)"
    using f_sub_error [of r f_half 0] assms half_val unfolding near_simps by (auto; linarith)+
  moreover have "is_float 1" using is_float_int [of 1] by simp
  ultimately show ?thesis using small_int [of 2] by (intro f_mul_bound) (auto simp: abs_mult)
qed

lemma half_spread:
  assumes "mid_ok mid"
  shows "f_near (f_val mid / 20000) (1 / 10 ^ 10) (f_div (gen_spread mid) (f_of_int 2))"
    and "f_near 1 (1 / 10 ^ 8) (f_mul (f_div (gen_spread mid) mid) (f_of_int 10000))"
proof -
  let ?s = "gen_spread mid" and ?q = "f_div (gen_spread mid) mid"
  note s = gen_spread_near [OF assms, unfolded near_simps]
  have "\<bar>f_val ?s / f_val (f_of_int 2)\<bar> < 2 powi 3" using s assms small_int [of 2] by simp
  then show "f_near (f_val mid / 20000) (1 / 10 ^ 10) (f_div ?s (f_of_int 2))"
    using f_div_error [of ?s "f_of_int 2" 3] s small_int [of 2] unfolding near_simps by (auto; linarith)+
  have pos: "0 < f_val mid" using assms by simp
  have "f_val ?s \<le> (1 / 10000 + 1 / 10 ^ 13) * f_val mid" "(1 / 10000 - 1 / 10 ^ 13) * f_val mid \<le> f_val ?s"
    using s assms by (auto; linarith)+
  then have b: "f_val ?s / f_val mid \<le> 1 / 10000 + 1 / 10 ^ 13" "1 / 10000 - 1 / 10 ^ 13 \<le> f_val ?s / f_val mid"
    by (simp_all only: pos_divide_le_eq [OF pos] pos_le_divide_eq [OF pos])
  define y where "y = f_val ?s / f_val mid"
  note b = b [folded y_def]
  have "\<bar>y\<bar> < 2 powi 0" using b unfolding near_simps by auto
  then have q: "f_ok ?q" "f_val ?q \<le> 1 / 10000 + 2 / 10 ^ 13" "1 / 10000 - 2 / 10 ^ 13 \<le> f_val ?q"
    using f_div_error [of ?s mid 0, folded y_def] s assms b unfolding near_simps by (auto; linarith)+
  then show "f_near 1 (1 / 10 ^ 8) (f_mul ?q (f_of_int 10000))"
    using f_mul_error [of ?q "f_of_int 10000" 1] small_int [of 10000] unfolding near_simps by (auto; linarith)+
qed

text \<open>
  C36. A quote is consistent: bid, mid and ask in strict order and positive, the spread one
  basis point of the mid up to \<open>1e-8\<close>, the imbalance within \<open>[-1, 1]\<close>.
\<close>

theorem quote_consistent:
  assumes "rand_ok R" and "gen_draw R kind now st = (st', symb, GQuote q)"
  shows "f_ok (qt_BidPrice q) \<and> f_ok (qt_Mid q) \<and> f_ok (qt_AskPrice q) \<and>
    f_less (f_zero False) (qt_BidPrice q) \<and> f_less (qt_BidPrice q) (qt_Mid q) \<and>
    f_less (qt_Mid q) (qt_AskPrice q) \<and> f_near 1 (1 / 10 ^ 8) (qt_SpreadBps q) \<and>
    \<bar>f_val (qt_Imbalance q)\<bar> \<le> 1 \<and>
    f_less (f_zero False) (qt_BidSize q) \<and> f_less (f_zero False) (qt_AskSize q) \<and> qt_Symbol q = symb"
proof -
  obtain ven r g where c: "symb \<in> set gen_symbols" "unit_float r"
    "gen_quote R ven symb (gen_mid symb r) (gen_spread (gen_mid symb r)) now (st\<lparr>gs_rng := g\<rparr>) = (st', q)"
    using gen_draw_cases [OF assms] by (metis gen_value.distinct(3,5) gen_value.inject(3))
  let ?mid = "gen_mid symb r"
  let ?h = "f_div (gen_spread ?mid) (f_of_int 2)"
  have u: "unit_float (snd (Float64 R g'))" for g' using assms(1) by (simp add: rand_ok_def)
  obtain b a i where f: "unit_float b" "unit_float a" "unit_float i"
    "q = \<lparr>qt_Venue = ven, qt_Symbol = symb, qt_BidPrice = f_sub ?mid ?h, qt_BidSize = f_add (f_of_int 1) b,
       qt_AskPrice = f_add ?mid ?h, qt_AskSize = f_add (f_of_int 1) a, qt_Mid = ?mid,
       qt_SpreadBps = f_mul (f_div (gen_spread ?mid) ?mid) (f_of_int 10000),
       qt_Imbalance = f_mul (f_sub i f_half) (f_of_int 2), qt_EventTimeUS = now, qt_EmitTimeUS = now\<rparr>"
    using c(3) u by (auto simp: gen_quote_def Let_def split_beta)
  note mid = gen_mid_ok [OF c(1,2)]
  note h = half_spread(1) [OF mid, unfolded near_simps]
  have bid: "f_near (f_val ?mid - f_val ?h) (1 / 1000) (f_sub ?mid ?h)"
    using f_sub_error [of ?mid ?h 17] mid h unfolding near_simps by (auto; linarith)+
  have ask: "f_near (f_val ?mid + f_val ?h) (1 / 1000) (f_add ?mid ?h)"
    using f_add_error [of ?mid ?h 17] mid h unfolding near_simps by (auto; linarith)+
  have zero: "f_ok (f_zero False)" "f_val (f_zero False) = 0" by (simp_all add: f_ok_def) (simp_all add: f_zero_def)
  have ok: "f_ok (f_sub ?mid ?h)" "f_ok (f_add ?mid ?h)" using bid ask by (simp_all add: f_near_def)
  then have "f_less (f_zero False) (f_sub ?mid ?h)" "f_less (f_sub ?mid ?h) ?mid" "f_less ?mid (f_add ?mid ?h)"
    using bid ask zero mid h unfolding near_simps by (simp add: f_less_val; linarith)+
  then show ?thesis using f ok mid half_spread(2) [OF mid] imbalance_bound [OF f(3)] size_positive by simp
qed

text \<open>
  A trade's price is positive and within six basis points and half a tick of the base
  price, its size is positive, its side is one of the two, and its id is the venue and the
  sequence number.
\<close>

theorem trade_consistent:
  assumes "rand_ok R" and "gen_draw R kind now st = (st', symb, GTrade t)"
  shows "f_near (f_val (gen_base symb)) (f_val (gen_base symb) * (6 / 10000) + 501 / 100000) (tr_Price t) \<and>
    f_less (f_zero False) (tr_Price t) \<and> f_less (f_zero False) (tr_Size t) \<and> tr_Side t \<in> {''BUY'', ''SELL''} \<and>
    tr_Venue t \<in> set gen_venues \<and> tr_TradeID t = tr_Venue t @ ''-'' @ FormatInt (tr_Sequence t) \<and> tr_Sequence t = gs_sent st"
proof -
  obtain ven r g where c: "symb \<in> set gen_symbols" "ven \<in> set gen_venues" "unit_float r"
    "gen_trade R ven symb (gen_mid symb r) now (st\<lparr>gs_rng := g\<rparr>) = (st', t)"
    using gen_draw_cases [OF assms] by (metis gen_value.distinct(1,5) gen_value.inject(2))
  have u: "unit_float (snd (Float64 R g'))" for g' using assms(1) by (simp add: rand_ok_def)
  obtain z where z: "unit_float z" "tr_Size t = f_add f_cent z" "tr_Price t = round2 (gen_mid symb r)" "tr_Venue t = ven"
    "tr_Side t \<in> {''BUY'', ''SELL''}" "tr_Sequence t = gs_sent st" "tr_TradeID t = ven @ ''-'' @ FormatInt (gs_sent st)"
    using c(4) u that [of "snd (Float64 R (fst (Intn R g 2)))"]
    by (cases "snd (Intn R g 2) = 0") (auto simp: gen_trade_def Let_def split_beta)
  note b = gen_base_val [OF c(1)]
  note mid = gen_mid_ok [OF c(1,3)] gen_mid_near [OF c(1,3), unfolded near_simps]
  have "f_near (f_val (gen_mid symb r)) (501 / 100000) (round2 (gen_mid symb r))" using mid(1) by (intro round2_near) auto
  then have p: "f_near (f_val (gen_base symb)) (f_val (gen_base symb) * (6 / 10000) + 501 / 100000) (tr_Price t)"
    using mid(2) z(3) unfolding near_simps by auto
  have zero: "f_ok (f_zero False)" "f_val (f_zero False) = 0" by (simp_all add: f_ok_def) (simp_all add: f_zero_def)
  have "f_less (f_zero False) (tr_Price t)" using p b zero unfolding near_simps by (simp add: f_less_val; linarith)
  moreover have "f_near (f_val f_cent + f_val z) (1 / 1000) (f_add f_cent z)"
    using f_add_error [of f_cent z 1] z(1) f_cent_near unfolding near_simps by (auto; linarith)+
  then have "f_less (f_zero False) (tr_Size t)"
    using f_cent_near z(1,2) zero unfolding near_simps by (simp add: f_less_val; linarith)
  ultimately show ?thesis using p z c(2) by simp
qed

section \<open>What a run hands to the writer\<close>

text \<open>\<open>offered\<close> is the log of the batches the writer was called with, failed calls included.\<close>

definition logs ::
  "('w \<Rightarrow> gen_message list \<Rightarrow> 'w \<times> goerror option) \<Rightarrow> ('w \<Rightarrow> gen_message list) \<Rightarrow> bool"
where
  "logs WriteMessages offered \<longleftrightarrow> (\<forall>w b. offered (fst (WriteMessages w b)) = offered w @ b)"

fun value_seq :: "gen_value \<Rightarrow> int64 option" where
  "value_seq (GBook d) = Some (bd_Sequence d)"
| "value_seq (GTrade t) = Some (tr_Sequence t)"
| "value_seq (GQuote q) = None"

text \<open>The message at position \<open>n\<close> of a run frames a marshalled value and, if it has one, the sequence \<open>n\<close>.\<close>

definition framed :: "(gen_value \<Rightarrow> bytes result) \<Rightarrow> int64 \<Rightarrow> int64 \<Rightarrow> gen_message \<Rightarrow> bool" where
  "framed Marshal schemaID n m \<longleftrightarrow>
     (\<exists>v p. Marshal v = Inr p \<and> SplitHeader (gm_Value m) = Inr (schemaID mod 4294967296, p) \<and>
        gm_Key m \<in> set gen_symbols \<and> (value_seq v = None \<or> value_seq v = Some n))"

lemma gen_header_wire: "gen_header i = wire_header i"
  by (simp add: gen_header_def wire_header_def MagicByte_def)

text \<open>The generator's own header is an instance of the framing contract of the ingest tier.\<close>

interpretation qg: wire_framing gen_header SplitHeader "\<lambda>i. i mod 4294967296"
  by unfold_locales (simp_all add: gen_header_wire SplitHeader_header SplitHeader_sound)

lemma gen_draw_keeps:
  assumes "rand_ok R" and "gen_draw R kind now st = (st', symb, v)"
  shows "gs_sent st' = gs_sent st \<and> gs_batch st' = gs_batch st \<and> gs_writer st' = gs_writer st \<and>
    symb \<in> set gen_symbols \<and> (value_seq v = None \<or> value_seq v = Some (gs_sent st))"
  by (rule gen_draw_cases [OF assms])
    (auto simp: gen_book_def gen_trade_def gen_quote_def Let_def split: prod.splits if_splits)

lemma gen_emit_adds:
  assumes "logs WriteMessages offered"
  shows "offered (gs_writer (gen_emit WriteMessages schemaID symb payload st)) @ gs_batch (gen_emit WriteMessages schemaID symb payload st) =
      offered (gs_writer st) @ gs_batch st @ [\<lparr>gm_Key = symb, gm_Value = gen_header schemaID @ payload\<rparr>]"
    and "gs_sent (gen_emit WriteMessages schemaID symb payload st) = wrap64 (gs_sent st + 1)"
    and "length (gs_batch st) < 200 \<Longrightarrow> 200 dvd length (offered (gs_writer st)) \<Longrightarrow>
      length (gs_batch (gen_emit WriteMessages schemaID symb payload st)) < 200 \<and>
      200 dvd length (offered (gs_writer (gen_emit WriteMessages schemaID symb payload st)))"
proof -
  show "offered (gs_writer (gen_emit WriteMessages schemaID symb payload st)) @ gs_batch (gen_emit WriteMessages schemaID symb payload st) =
      offered (gs_writer st) @ gs_batch st @ [\<lparr>gm_Key = symb, gm_Value = gen_header schemaID @ payload\<rparr>]"
    "gs_sent (gen_emit WriteMessages schemaID symb payload st) = wrap64 (gs_sent st + 1)"
    using assms by (simp_all add: gen_emit_def logs_def Let_def)
  assume "length (gs_batch st) < 200" "200 dvd length (offered (gs_writer st))"
  moreover from this have "200 dvd length (offered (gs_writer st)) + 200" by simp
  ultimately show "length (gs_batch (gen_emit WriteMessages schemaID symb payload st)) < 200 \<and>
      200 dvd length (offered (gs_writer (gen_emit WriteMessages schemaID symb payload st)))"
    using assms by (cases "length (gs_batch st) = 199") (auto simp: gen_emit_def logs_def Let_def)
qed

lemma gen_ticks:
  assumes R: "rand_ok R" and L: "logs WriteMessages offered" and M: "\<And>v. \<exists>p. Marshal v = Inr p"
  shows "0 \<le> gs_sent st \<Longrightarrow> gs_sent st + int (length ts) \<le> max_int64 \<Longrightarrow> length (gs_batch st) < 200 \<Longrightarrow>
    200 dvd length (offered (gs_writer st)) \<Longrightarrow>
    \<exists>st' ms. gen_loop R WriteMessages Marshal schemaID kind st (map Tick ts @ evs) =
        gen_loop R WriteMessages Marshal schemaID kind st' evs \<and>
      gs_sent st' = gs_sent st + int (length ts) \<and>
      offered (gs_writer st') @ gs_batch st' = offered (gs_writer st) @ gs_batch st @ ms \<and>
      length ms = length ts \<and> (\<forall>i < length ms. framed Marshal schemaID (gs_sent st + int i) (ms ! i)) \<and>
      length (gs_batch st') < 200 \<and> 200 dvd length (offered (gs_writer st'))"
proof (induction ts arbitrary: st)
  case Nil
  show ?case by (rule exI [of _ st], rule exI [of _ "[]"]) (use Nil in simp)
next
  case (Cons t ts)
  obtain st1 symb v where d: "gen_draw R kind t st = (st1, symb, v)" by (metis prod_cases3)
  obtain p where p: "Marshal v = Inr p" using M by blast
  note keeps = gen_draw_keeps [OF R d]
  let ?st = "gen_emit WriteMessages schemaID symb p st1"
  let ?m = "\<lparr>gm_Key = symb, gm_Value = gen_header schemaID @ p\<rparr>"
  have emit: "offered (gs_writer ?st) @ gs_batch ?st = offered (gs_writer st) @ gs_batch st @ [?m]"
    "gs_sent ?st = gs_sent st + 1" "length (gs_batch ?st) < 200" "200 dvd length (offered (gs_writer ?st))"
    using gen_emit_adds [OF L, where symb = symb and schemaID = schemaID and payload = p and st = st1] keeps Cons.prems by (simp_all add: wrap64_succ)
  then obtain st' ms where ih: "gen_loop R WriteMessages Marshal schemaID kind ?st (map Tick ts @ evs) =
        gen_loop R WriteMessages Marshal schemaID kind st' evs"
      "gs_sent st' = gs_sent ?st + int (length ts)"
      "offered (gs_writer st') @ gs_batch st' = offered (gs_writer ?st) @ gs_batch ?st @ ms"
      "length ms = length ts" "\<forall>i < length ms. framed Marshal schemaID (gs_sent ?st + int i) (ms ! i)"
      "length (gs_batch st') < 200" "200 dvd length (offered (gs_writer st'))"
    using Cons.IH [of ?st] Cons.prems by auto
  have "framed Marshal schemaID (gs_sent st) ?m"
    using p keeps unfolding framed_def by (intro exI [of _ v] exI [of _ p]) (simp add: qg.split_frame)
  then have "\<forall>i < length (?m # ms). framed Marshal schemaID (gs_sent st + int i) ((?m # ms) ! i)"
    using ih(5) emit(2) by (auto simp: less_Suc_eq_0_disj add.assoc)
  moreover have "offered (gs_writer st') @ gs_batch st' = offered (gs_writer st) @ gs_batch st @ (?m # ms)"
    unfolding ih(3) append_assoc [symmetric] unfolding emit(1) by simp
  ultimately show ?case using d p ih emit(2)
    by (intro exI [of _ st'] exI [of _ "?m # ms"]) simp
qed

lemma gen_run:
  assumes "rand_ok R" and "logs WriteMessages offered" and "offered w = []" and "\<And>v. \<exists>p. Marshal v = Inr p"
    and "int (length ts) \<le> max_int64"
  obtains st where "gen_loop R WriteMessages Marshal schemaID kind (gen_start g w) (map Tick ts @ evs) =
        gen_loop R WriteMessages Marshal schemaID kind st evs"
      "gs_sent st = int (length ts)" "length (offered (gs_writer st) @ gs_batch st) = length ts"
      "\<forall>i < length ts. framed Marshal schemaID (int i) ((offered (gs_writer st) @ gs_batch st) ! i)"
      "length (gs_batch st) < 200" "200 dvd length (offered (gs_writer st))"
proof -
  let ?s = "gen_start g w"
  have s: "gs_sent ?s = 0" "gs_batch ?s = []" "gs_writer ?s = w" by (simp_all add: gen_start_def)
  obtain st ms where "gen_loop R WriteMessages Marshal schemaID kind ?s (map Tick ts @ evs) =
        gen_loop R WriteMessages Marshal schemaID kind st evs"
      "gs_sent st = gs_sent ?s + int (length ts)"
      "offered (gs_writer st) @ gs_batch st = offered (gs_writer ?s) @ gs_batch ?s @ ms" "length ms = length ts"
      "\<forall>i < length ms. framed Marshal schemaID (gs_sent ?s + int i) (ms ! i)"
      "length (gs_batch st) < 200" "200 dvd length (offered (gs_writer st))"
    using gen_ticks [where Marshal = Marshal and st = ?s and ts = ts and evs = evs and schemaID = schemaID and kind = kind,
        OF assms(1,2,4)] s assms(3,5) by (metis add_0 dvd_0_right list.size(3) order_refl zero_less_numeral)
  with that [of st] s assms(3) show thesis by simp
qed

text \<open>
  C37. A run that is interrupted prints the number of its ticks, but the messages since the
  last full batch, that number modulo 200, were never handed to the writer. All that was handed
  over is framed for the schema id, keyed by symbol, in tick order.
\<close>

theorem interrupt_drops_the_tail:
  assumes "rand_ok R" and "logs WriteMessages offered" and "offered w = []" and "\<And>v. \<exists>p. Marshal v = Inr p"
    and "int (length ts) \<le> max_int64"
  shows "\<exists>st. gen_loop R WriteMessages Marshal schemaID kind (gen_start g w) (map Tick ts @ Interrupted # evs) =
      GSent (int (length ts)) st \<and>
    length (offered (gs_writer st)) = length ts - length ts mod 200 \<and>
    (\<forall>i < length (offered (gs_writer st)). framed Marshal schemaID (int i) (offered (gs_writer st) ! i))"
proof (rule gen_run [OF assms, where schemaID = schemaID and kind = kind and g = g and evs = "Interrupted # evs"])
  fix st
  assume run: "gen_loop R WriteMessages Marshal schemaID kind (gen_start g w) (map Tick ts @ Interrupted # evs) =
        gen_loop R WriteMessages Marshal schemaID kind st (Interrupted # evs)" "gs_sent st = int (length ts)"
    and len: "length (offered (gs_writer st) @ gs_batch st) = length ts"
    and all: "\<forall>i < length ts. framed Marshal schemaID (int i) ((offered (gs_writer st) @ gs_batch st) ! i)"
    and b: "length (gs_batch st) < 200" "200 dvd length (offered (gs_writer st))"
  obtain k where "length (offered (gs_writer st)) = 200 * k" using b(2) by (rule dvdE)
  then have k: "length ts = 200 * k + length (gs_batch st)" using len by simp
  have "length ts mod 200 = length (gs_batch st)" unfolding k using b(1) by simp
  moreover have "framed Marshal schemaID (int i) (offered (gs_writer st) ! i)" if "i < length (offered (gs_writer st))" for i
    using all len that by (auto simp: nth_append dest: spec [of _ i])
  ultimately show ?thesis using run len by (intro exI [of _ st]) auto
qed

text \<open>
  A run that reaches its deadline prints the number of its ticks and has handed every
  one of them to the writer, framed and in order; whether the writes succeeded plays no part
  in the count.
\<close>

theorem deadline_flushes_everything:
  assumes "rand_ok R" and "logs WriteMessages offered" and "offered w = []" and "\<And>v. \<exists>p. Marshal v = Inr p"
    and "int (length ts) \<le> max_int64"
  shows "\<exists>st. gen_loop R WriteMessages Marshal schemaID kind (gen_start g w) (map Tick ts @ DeadlinePassed # evs) =
      GSent (int (length ts)) st \<and> length (offered (gs_writer st)) = length ts \<and>
    (\<forall>i < length ts. framed Marshal schemaID (int i) (offered (gs_writer st) ! i))"
proof (rule gen_run [OF assms, where schemaID = schemaID and kind = kind and g = g and evs = "DeadlinePassed # evs"])
  fix st
  assume run: "gen_loop R WriteMessages Marshal schemaID kind (gen_start g w) (map Tick ts @ DeadlinePassed # evs) =
        gen_loop R WriteMessages Marshal schemaID kind st (DeadlinePassed # evs)" "gs_sent st = int (length ts)"
    and len: "length (offered (gs_writer st) @ gs_batch st) = length ts"
    and all: "\<forall>i < length ts. framed Marshal schemaID (int i) ((offered (gs_writer st) @ gs_batch st) ! i)"
  let ?st = "if gs_batch st \<noteq> [] then st\<lparr>gs_writer := fst (WriteMessages (gs_writer st) (gs_batch st))\<rparr> else st"
  have "offered (gs_writer ?st) = offered (gs_writer st) @ gs_batch st" using assms(2) by (simp add: logs_def)
  with run len all show ?thesis by (intro exI [of _ ?st]) (metis gen_loop.simps(3))
qed

text \<open>
  With a schema id and a readable schema the generator starts only for a rate between
  one and a billion messages per second: any other rate is a panic, not an error message.
\<close>

theorem rate_panics:
  assumes "gf_schemaID fl \<noteq> 0" and "ReadFile (gf_schemaPath fl) = Inr json" and "Parse json = Inr schema"
  shows "(\<exists>m. gen_main R WriteMessages ReadFile Parse Marshal fl g w evs = GPanic m) \<longleftrightarrow>
    \<not> (1 \<le> gf_rate fl \<and> gf_rate fl \<le> 1000000000)"
proof -
  define rate where "rate = gf_rate fl"
  have no: "gen_loop R (WriteMessages (gen_writer_of fl)) (Marshal schema) schemaID kind st es \<noteq> GPanic m" for schemaID kind st es m
    by (induction es arbitrary: st) (auto split: gen_input.splits prod.splits sum.splits, (case_tac a; auto split: prod.splits sum.splits)+)
  have "1 \<le> 1000000000 div rate" if "1 \<le> rate" "rate \<le> 1000000000" using that by (simp add: le_div_iff)
  moreover have "1000000000 div rate \<le> 0" if "1000000000 < rate" using that by (simp add: div_pos_pos_trivial)
  moreover have "0 \<le> 1000000000 div - rate" if "rate < 0" using that by (simp add: pos_imp_zdiv_nonneg_iff)
  ultimately show ?thesis using assms no
    by (cases "rate = 0"; cases "rate < 0"; cases "rate \<le> 1000000000")
      (auto simp: gen_main_def tick_interval_def Let_def rate_def [symmetric])
qed

section \<open>Witnesses\<close>

text \<open>A random source that counts for \<open>Intn\<close> and always draws a half.\<close>

definition half_rand :: "nat rand" where
  "half_rand = \<lparr>Intn = (\<lambda>g n. (Suc g, g mod n)), Float64 = (\<lambda>g. (g, f_half))\<rparr>"

lemma half_rand_ok: "rand_ok half_rand"
  using half_val by (simp add: rand_ok_def half_rand_def)

text \<open>A writer that fails every call; its state is the log of what it was offered.\<close>

definition failing_writer :: "gen_message list \<Rightarrow> gen_message list \<Rightarrow> gen_message list \<times> goerror option" where
  "failing_writer w b = (w @ b, Some (Errorf ''down'' [] None))"

lemma failing_writer_logs: "logs failing_writer (\<lambda>w. w)"
  by (simp add: logs_def failing_writer_def)

lemma gen_draw_kind:
  "\<exists>st' symb d. gen_draw R ''book'' now st = (st', symb, GBook d)"
  "\<exists>st' symb t. gen_draw R ''trade'' now st = (st', symb, GTrade t)"
  "\<exists>st' symb q. gen_draw R ''quote'' now st = (st', symb, GQuote q)"
  by (simp_all add: gen_draw_def Let_def split_beta)

theorem book_snapshot_never_crossed_witness:
  "\<exists>st' symb d. gen_draw half_rand ''book'' 7 (gen_start 0 ()) = (st', symb, GBook d) \<and> bd_Sequence d = 0 \<and>
     f_less (lv_Price (bd_Bids d ! 4)) (lv_Price (bd_Bids d ! 0)) \<and> f_less (lv_Price (bd_Asks d ! 0)) (lv_Price (bd_Asks d ! 4))"
proof -
  obtain st' symb d where g: "gen_draw half_rand ''book'' 7 (gen_start 0 ()) = (st', symb, GBook d)"
    using gen_draw_kind(1) by blast
  have "0 < (4::nat)" "4 < (5::nat)" by simp_all
  with book_snapshot_never_crossed [OF half_rand_ok g] g show ?thesis by (auto simp: gen_start_def)
qed

theorem quote_consistent_witness:
  "\<exists>st' symb q. gen_draw half_rand ''quote'' 7 (gen_start 0 ()) = (st', symb, GQuote q) \<and>
     f_less (qt_BidPrice q) (qt_AskPrice q)"
proof -
  obtain st' symb q where g: "gen_draw half_rand ''quote'' 7 (gen_start 0 ()) = (st', symb, GQuote q)"
    using gen_draw_kind(3) by blast
  have "f_ok x \<Longrightarrow> f_ok y \<Longrightarrow> f_ok z \<Longrightarrow> f_less x y \<Longrightarrow> f_less y z \<Longrightarrow> f_less x z" for x y z by (simp add: f_less_val)
  with quote_consistent [OF half_rand_ok g] g show ?thesis by blast
qed

theorem interrupt_drops_the_tail_witness:
  "\<exists>st. gen_loop half_rand failing_writer (\<lambda>v. Inr [1]) 9 ''quote'' (gen_start 0 []) (map Tick (replicate 450 0) @ [Interrupted]) =
      GSent 450 st \<and> length (gs_writer st) = 400"
  using interrupt_drops_the_tail [OF half_rand_ok failing_writer_logs, of "[]" "\<lambda>v. Inr [1]" "replicate 450 0" 9 "''quote''" 0 "[]"]
  by (simp del: map_replicate) blast

theorem deadline_flushes_everything_witness:
  "\<exists>st. gen_loop half_rand failing_writer (\<lambda>v. Inr [1]) 9 ''book'' (gen_start 0 []) (map Tick (replicate 450 0) @ [DeadlinePassed]) =
      GSent 450 st \<and> length (gs_writer st) = 450"
  using deadline_flushes_everything [OF half_rand_ok failing_writer_logs, of "[]" "\<lambda>v. Inr [1]" "replicate 450 0" 9 "''book''" 0 "[]"]
  by (simp del: map_replicate) blast

theorem rate_panics_witness:
  "(\<exists>m. gen_main half_rand (\<lambda>_. failing_writer) (\<lambda>_. Inr ''{}'') (\<lambda>j. Inr j) (\<lambda>s v. Inr [])
       (gen_flag_defaults\<lparr>gf_schemaID := 9, gf_rate := 2000000000\<rparr>) 0 [] [] = GPanic m) \<and>
   \<not> (\<exists>m. gen_main half_rand (\<lambda>_. failing_writer) (\<lambda>_. Inr ''{}'') (\<lambda>j. Inr j) (\<lambda>s v. Inr [])
       (gen_flag_defaults\<lparr>gf_schemaID := 9\<rparr>) 0 [] [] = GPanic m)"
  using rate_panics [of "gen_flag_defaults\<lparr>gf_schemaID := 9, gf_rate := 2000000000\<rparr>" "\<lambda>_. Inr ''{}''" "''{}''" "\<lambda>j. Inr j" "''{}''"
      half_rand "\<lambda>_. failing_writer" "\<lambda>s v. Inr []" 0 "[]" "[]"]
    rate_panics [of "gen_flag_defaults\<lparr>gf_schemaID := 9\<rparr>" "\<lambda>_. Inr ''{}''" "''{}''" "\<lambda>j. Inr j" "''{}''"
      half_rand "\<lambda>_. failing_writer" "\<lambda>s v. Inr []" 0 "[]" "[]"]
  by (simp add: gen_flag_defaults_def)

theorem trade_consistent_witness:
  "\<exists>st' symb t. gen_draw half_rand ''trade'' 7 (gen_start 0 ()) = (st', symb, GTrade t) \<and> tr_Sequence t = 0 \<and>
     f_less (f_zero False) (tr_Price t)"
proof -
  obtain st' symb t where g: "gen_draw half_rand ''trade'' 7 (gen_start 0 ()) = (st', symb, GTrade t)"
    using gen_draw_kind(2) by blast
  with trade_consistent [OF half_rand_ok g] show ?thesis by (auto simp: gen_start_def)
qed

end
