(* ===== verification/Spec2Isabelle.thy ===== *)
theory Spec2Isabelle
  imports Ingestd Service Topicbench Quotegen
begin

text \<open>
  A verification development of the Go code of Tapeline: the ingestion tier \<open>src/ingest\<close>
  and the two command-line tools under \<open>src/tools\<close>. The tier connects to crypto exchanges and an Ethereum node, decodes
  every venue's JSON dialect into one canonical event type, checks sequence continuity,
  frames each event as an Avro record with a registry schema id, and publishes to Kafka in
  batches keyed by symbol.

  \<^bold>\<open>How the parts work together.\<close> \<open>run\<close> loads the configuration, installs tracing, registers the
  schemas and starts one goroutine per source. It loops over sessions (\<open>Runner.Run\<close>),
  waiting out a backoff between them; a session connects, subscribes, calls \<open>OnConnect\<close>,
  and then reads frames, decodes them and sends the events on a bounded channel. One goroutine (\<open>Pipeline.Run\<close>) receives them: it consults the
  gap detector, encodes, appends to a batch and flushes it to the producer on size, on a
  ticker or at shutdown. The detector is shared between both sides. The load generator
  (\<open>quotegen\<close>) writes frames of the same wire format; the benchmark (\<open>topicbench\<close>) compares
  two topic layouts.

  \<^bold>\<open>The theories.\<close>
  \<^item> \<open>Prelude\<close>: int64 wrap-around, errors with wrapping, results, loops that may fail.
  \<^item> \<open>GoStrings\<close>, \<open>GoFloat\<close>, \<open>GoTime\<close>, \<open>GoDuration\<close>, \<open>GoJson\<close>: the parts of Go's
    standard library the program calls (\<open>strings\<close>, \<open>strconv\<close>, \<open>math/big\<close>,
    \<open>time\<close>, \<open>encoding/json\<close>), executable, down to the case-insensitive matching of
    struct keys and the correctly rounded \<open>ParseFloat\<close>.
  \<^item> \<open>FloatFacts\<close>, \<open>FloatError\<close>, \<open>GoMath\<close>: the real value of a \<open>float64\<close>; rounding is to
    nearest, monotone, exact on canonical values, and off by at most half a unit in the last
    place; \<open>math.Pow\<close> for an integer exponent and \<open>math.Round\<close>.
  \<^item> \<open>Model\<close>: \<open>internal/model\<close>. The invariant \<open>event_wf\<close> of the tagged union.
  \<^item> \<open>Gap\<close>: \<open>internal/gap\<close>. The detector, its invariant, the independence of streams
    (locale \<open>sequence_tracker\<close>) and the exact accounting of missed messages.
  \<^item> \<open>Venue\<close>: the helpers of \<open>internal/venue/venue.go\<close>, the read loop \<open>pump\<close> and the
    \<open>Decoder\<close> interface (locale \<open>venue_decoder\<close>).
  \<^item> \<open>Coinbase\<close>, \<open>Kraken\<close>, \<open>Binance\<close>, \<open>Evm\<close>: the four adapters, from raw text to
    events, each an interpretation of \<open>venue_decoder\<close>.
  \<^item> \<open>AvroWire\<close>: \<open>internal/encode\<close>, on machine words (locale \<open>wire_framing\<close>).
  \<^item> \<open>Metrics\<close>, \<open>Sink\<close>: \<open>internal/metrics\<close> and \<open>internal/sink\<close>. The \<open>Producer\<close>
    interface is the locale \<open>producer\<close>, with \<open>atomic_producer\<close> for all-or-nothing
    writes; the in-memory producer interprets the latter, also under a script of outages,
    and the Kafka producer satisfies the former for every writer that keeps the documented
    contract of \<open>WriteMessages\<close>.
  \<^item> \<open>Pipeline\<close>: \<open>internal/pipeline\<close>. The loop over explicit inputs, its invariants, and
    its refinement of the abstract pipeline \<open>admit\<close> over any producer.
  \<^item> \<open>Config\<close>, \<open>Registry\<close>, \<open>Startup\<close>: \<open>internal/config\<close>, \<open>internal/schema\<close> (locale
    \<open>schema_registry\<close>), \<open>RegisterSchemas\<close>, \<open>buildEncoders\<close>, \<open>buildProducer\<close> and the
    schema table.
  \<^item> \<open>Ingestd\<close>: \<open>cmd/ingestd\<close>. The decoders built from a configuration, the callbacks,
    and the whole service as a step relation with its invariant by rule induction.
  \<^item> \<open>Runner\<close>: the rest of \<open>internal/venue/venue.go\<close>: the backoff delay in float64
    arithmetic, the dialer, one session over a scripted connection with its effects in order,
    and the reconnect loop over a list of rounds.
  \<^item> \<open>Supervisor\<close>: a source's goroutine in \<open>main.go\<close>, the proof that a session is an
    execution of the step relation of \<open>Ingestd\<close>, and the typing of every metric call of the
    service.
  \<^item> \<open>Tracing\<close>, \<open>Service\<close>: \<open>internal/tracing\<close>, and \<open>run\<close> of \<open>main.go\<close> as the sequence of its
    visible effects: the deferred releases, and the explicit \<open>stop()\<close> before the goroutines
    are waited for, which is the deferred one called early.
  \<^item> \<open>Topicbench\<close>, \<open>Quotegen\<close>: the two tools; the generator's header is a second
    interpretation of \<open>wire_framing\<close>.
  \<^item> This theory: the property that spans the adapters and the pipeline.

  \<^bold>\<open>What is shown.\<close> Conservation of events in every run; exactly-once delivery over any
  atomic producer and at-least-once over Kafka, through outages and recoveries, as
  refinements; bounded memory; no panic on
  decoded input; agreement of statistics and metrics, Kafka's included; exactness of the
  detector's accounting; the announcement of each new block once, under its own number; frames that can always be split and resolved; completeness of the adapters;
  symbol round trips; registration of every schema under the id the registry answers, its
  caching, and refusal to start on an incompatible one; safety and well-typed metric
  calls in every reachable state of the service; for the reconnect loop, the protocol of a
  session, termination under a bound on attempts, recovery without one, and bounds on the
  delay; the order of shutdown on every path through \<open>run\<close>; span contexts that
  survive Kafka; equal payloads and exact counts in the topic benchmark; generated books
  that never cross and quotes that are consistent, in floating point as executed. Several theorems pin down behaviour that differs from what a comment of
  the source intends: stale events after a reconnect, the resync callback, partially
  overlapping Binance updates, control frames and quiet blocks counted as missed, symbol
  and cache-key collisions, backoff that never resets, a connection gauge that stays up
  during a backoff, a zero sample ratio that still samples, messages the generator counts
  but never offers to Kafka.

  \<^bold>\<open>Conventions.\<close> Go's \<open>int64\<close> is \<open>int\<close> with explicit \<open>wrap64\<close>; the pipeline's counters
  and the wire format use words. Strings are byte lists. A Go map is a partial function, or
  the list of its entries where the program ranges over it, so that statements hold for
  every iteration order. Third-party code and services (the Avro and Kafka libraries, the
  schema registry behind HTTP, trace propagation, the environment) are arguments of the
  definitions. Concurrency is an explicit sequence: the cases a \<open>select\<close> takes, the
  outcomes of a connection's calls, the rounds of the reconnect loop. A list of such inputs
  is a prefix of a run that may go on; \<open>RunPending\<close>, \<open>Waiting\<close> and \<open>GRunning\<close> are the
  results when it has ended and the code still waits. No fuel is used: every function
  terminates, by recursion on the input list. Floating-point operations are rounded one by
  one, as on amd64; a compiler that fuses a product and a sum rounds once less. The one
  conversion whose result Go leaves to the platform, a float64 out of the int64 range, is
  the argument \<open>conv\<close>.

  \<^bold>\<open>Not modelled.\<close> Log lines, flag parsing, the goroutine scheduler beyond the interleavings
  above, the text table the benchmark prints (its results file is modelled), and the other tiers of the
  repository, which are not written in Go.
\<close>

text \<open>
  C39. From the socket to the sink nothing panics: whatever bytes the venues send, every
  event that any adapter decodes from any sequence of frames is one the pipeline can
  handle, in every interleaving with other sources, ticks and shutdown, for every encoder,
  producer and callback.
\<close>

theorem decoded_feed_never_panics:
  assumes "\<forall>e \<in> set (events_of inputs). \<exists>d frames. e \<in> set (snd (pump any_Decode d frames))"
  shows "Pipeline_Run marshal inject publish p det prd inputs \<noteq> Panicked"
proof -
  have "\<forall>e \<in> set (events_of inputs). event_wf e" using assms any.pump_events by blast
  from run_loop_wf [OF this] show ?thesis by (simp add: Pipeline_Run_def)
qed

theorem decoded_feed_never_panics_witness:
  "Pipeline_Run example_marshal (\<lambda>_. []) Memory_Publish example_config None NewMemoryProducer
     (map Recv (snd (pump any_Decode (DKraken (NewKraken [''BTC-USD''] 10)) [(kraken_sample, 0)])) @ [Done])
     \<noteq> Panicked"
proof (rule decoded_feed_never_panics)
  have ev: "events_of (map Recv es @ [Done]) = es" for es by (induction es) simp_all
  show "\<forall>e \<in> set (events_of (map Recv (snd (pump any_Decode (DKraken (NewKraken [''BTC-USD''] 10))
      [(kraken_sample, 0)])) @ [Done])). \<exists>d frames. e \<in> set (snd (pump any_Decode d frames))"
    unfolding ev by blast
qed

end
